theory Spec2Isabelle
  imports Complex_Main
begin

unbundle bit_operations_syntax

section \<open>Identity mapper: \<open>generateSyncId\<close>\<close>

text \<open>
  \<open>Math.random()\<close> is a number in the half-open interval from 0 to 1. The successive
  results of the random source are a function from the number of the draw to the value
  drawn; a generator takes the number of the next draw and returns it advanced. Scaling
  by 4 or by 16 is exact on binary floating point, so the real product stands for the
  double one.
\<close>

type_synonym random_source = "nat \<Rightarrow> real"

definition hex :: string where
  "hex = ''0123456789abcdef''"

definition hex_at :: "int \<Rightarrow> string" where
  \<comment> \<open>\<open>uuid += hex[n]\<close>: a read outside the string is \<open>undefined\<close>, appended as text.\<close>
  "hex_at n = (if 0 \<le> n \<and> n < 16 then [hex ! nat n] else ''undefined'')"

definition to_int32 :: "real \<Rightarrow> int" where
  \<comment> \<open>ToInt32 of ECMAScript: truncate towards zero, wrap into the signed 32-bit range.\<close>
  "to_int32 x =
     (let t = (if 0 \<le> x then \<lfloor>x\<rfloor> else \<lceil>x\<rceil>); m = t mod 2 ^ 32
      in if 2 ^ 31 \<le> m then m - 2 ^ 32 else m)"

function gen_loop :: "random_source \<Rightarrow> nat \<Rightarrow> nat \<Rightarrow> string \<Rightarrow> string \<times> nat" where
  "gen_loop rnd i k uuid =
     (if i < 36 then
        (if i = 8 \<or> i = 13 \<or> i = 18 \<or> i = 23 then gen_loop rnd (i + 1) k (uuid @ ''-'')
         else if i = 14 then gen_loop rnd (i + 1) k (uuid @ ''4'')
         else if i = 19 then
           gen_loop rnd (i + 1) (k + 1) (uuid @ hex_at (to_int32 (rnd k * 4) OR 8))
         else gen_loop rnd (i + 1) (k + 1) (uuid @ hex_at \<lfloor>rnd k * 16\<rfloor>))
      else (uuid, k))"
  by pat_completeness auto
termination
  by (relation "measure (\<lambda>(rnd, i, k, uuid). 36 - i)") auto

declare gen_loop.simps [simp del]

definition generateSyncId :: "random_source \<Rightarrow> nat \<Rightarrow> int \<Rightarrow> string \<times> nat" where
  \<comment> \<open>\<open>generateSyncId(localId)\<close>; the local id is not used by the body.\<close>
  "generateSyncId rnd k localId = gen_loop rnd 0 k []"

definition uuid_char_ok :: "nat \<Rightarrow> char \<Rightarrow> bool" where
  "uuid_char_ok i c =
     (if i = 8 \<or> i = 13 \<or> i = 18 \<or> i = 23 then c = CHR ''-''
      else if i = 14 then c = CHR ''4''
      else if i = 19 then c \<in> {CHR ''8'', CHR ''9'', CHR ''a'', CHR ''b''}
      else c \<in> set hex)"

definition uuid_shaped :: "string \<Rightarrow> bool" where
  "uuid_shaped u = (length u = 36 \<and> (\<forall>i < 36. uuid_char_ok i (u ! i)))"

definition unit_interval :: "random_source \<Rightarrow> bool" where
  "unit_interval rnd = (\<forall>k. 0 \<le> rnd k \<and> rnd k < 1)"

section \<open>Local record store\<close>

text \<open>
  The SQLite database of the signed-in user: the tables \<open>books\<close>, \<open>transactions\<close> and
  \<open>user_preferences\<close> of \<open>createFreshDatabase\<close>, rows in rowid order. A timestamp (an
  ISO-8601 text in the source, compared through \<open>new Date(...)\<close>) is the number of
  milliseconds it denotes. The column \<open>transactions.book_id\<close> has integer affinity: a
  text bound to it (the engine binds remote identifiers) is stored as the integer it
  spells when it is a well-formed numeric literal of an integer value, and as it is
  otherwise. \<open>foreign_keys\<close> says whether the
  \<open>PRAGMA foreign_keys = ON\<close> of \<open>openUserDB\<close> took effect.
\<close>

type_synonym timestamp = int

datatype book_key = IntKey int | TextKey string

record book_row =
  b_id :: int
  b_name :: string
  b_created_at :: timestamp
  b_updated_at :: "timestamp option"
  b_synced :: int
  b_sync_id :: "string option"
  b_last_synced :: "timestamp option"
  b_is_dirty :: int
  b_deleted :: int

record tx_row =
  t_id :: int
  t_book_id :: book_key
  t_type :: string
  t_amount :: int
  t_note :: "string option"
  t_category :: "string option"
  t_created_at :: timestamp
  t_updated_at :: "timestamp option"
  t_synced :: int
  t_sync_id :: "string option"
  t_last_synced :: "timestamp option"
  t_is_dirty :: int
  t_deleted :: int

record local_db =
  books :: "book_row list"
  transactions :: "tx_row list"
  user_preferences :: "string \<Rightarrow> timestamp option"
  foreign_keys :: bool

datatype sql_error = UniqueConstraintFailed | ForeignKeyConstraintFailed

definition next_rowid :: "int list \<Rightarrow> int" where
  \<comment> \<open>\<open>INTEGER PRIMARY KEY AUTOINCREMENT\<close>: one more than the largest rowid.\<close>
  "next_rowid ids = fold max ids 0 + 1"

definition book_by_sync_id :: "string \<Rightarrow> local_db \<Rightarrow> book_row option" where
  \<comment> \<open>\<open>getFirstAsync("SELECT * FROM books WHERE sync_id = ?", [s])\<close>\<close>
  "book_by_sync_id s d = find (\<lambda>b. b_sync_id b = Some s) (books d)"

definition book_by_id :: "int \<Rightarrow> local_db \<Rightarrow> book_row option" where
  \<comment> \<open>\<open>getFirstAsync("SELECT * FROM books WHERE id = ?", [i])\<close>\<close>
  "book_by_id i d = find (\<lambda>b. b_id b = i) (books d)"

definition tx_by_sync_id :: "string \<Rightarrow> local_db \<Rightarrow> tx_row option" where
  "tx_by_sync_id s d = find (\<lambda>t. t_sync_id t = Some s) (transactions d)"

definition tx_by_id :: "int \<Rightarrow> local_db \<Rightarrow> tx_row option" where
  "tx_by_id i d = find (\<lambda>t. t_id t = i) (transactions d)"

definition update_books_where_id :: "int \<Rightarrow> (book_row \<Rightarrow> book_row) \<Rightarrow> local_db \<Rightarrow> local_db" where
  \<comment> \<open>\<open>UPDATE books SET ... WHERE id = ?\<close>\<close>
  "update_books_where_id i f d =
     d\<lparr>books := map (\<lambda>b. if b_id b = i then f b else b) (books d)\<rparr>"

definition update_transactions_where_id :: "int \<Rightarrow> (tx_row \<Rightarrow> tx_row) \<Rightarrow> local_db \<Rightarrow> local_db" where
  \<comment> \<open>\<open>UPDATE transactions SET ... WHERE id = ?\<close>\<close>
  "update_transactions_where_id i f d =
     d\<lparr>transactions := map (\<lambda>t. if t_id t = i then f t else t) (transactions d)\<rparr>"

definition book_sync_id_taken :: "int \<Rightarrow> string \<Rightarrow> local_db \<Rightarrow> bool" where
  \<comment> \<open>\<open>sync_id TEXT UNIQUE\<close>: setting the sync id of row \<open>i\<close> to \<open>s\<close> fails when that row
    exists and another row holds \<open>s\<close>.\<close>
  "book_sync_id_taken i s d =
     ((\<exists>b \<in> set (books d). b_id b = i) \<and> (\<exists>b \<in> set (books d). b_id b \<noteq> i \<and> b_sync_id b = Some s))"

definition tx_sync_id_taken :: "int \<Rightarrow> string \<Rightarrow> local_db \<Rightarrow> bool" where
  "tx_sync_id_taken i s d =
     ((\<exists>t \<in> set (transactions d). t_id t = i)
      \<and> (\<exists>t \<in> set (transactions d). t_id t \<noteq> i \<and> t_sync_id t = Some s))"

definition sqlite_isspace :: "char \<Rightarrow> bool" where
  "sqlite_isspace c = (c \<in> set [CHR '' '', CHR 0x09, CHR 0x0A, CHR 0x0B, CHR 0x0C, CHR 0x0D])"

definition is_digit :: "char \<Rightarrow> bool" where
  "is_digit c = (c \<in> set ''0123456789'')"

definition decimal :: "string \<Rightarrow> int" where
  "decimal ds = foldl (\<lambda>n c. 10 * n + (int (of_char c) - 48)) 0 ds"

definition take_sign :: "string \<Rightarrow> bool \<times> string" where
  "take_sign z =
     (case z of
        [] \<Rightarrow> (False, [])
      | c # r \<Rightarrow> if c = CHR ''-'' then (True, r) else if c = CHR ''+'' then (False, r)
                 else (False, z))"

definition numeric_literal :: "string \<Rightarrow> (int \<times> int) option" where
  \<comment> \<open>What SQLite takes for a number when it applies a numeric affinity to a text:
    spaces, a sign, digits, a point and digits, an exponent, spaces; at least one digit
    before the exponent and, after an \<open>e\<close>, at least one digit. The result \<open>(m, e)\<close>
    stands for the value \<open>m * 10 ^ e\<close>.\<close>
  "numeric_literal s =
     (let (neg, z1) = take_sign (dropWhile sqlite_isspace s);
          whole = takeWhile is_digit z1;
          z2 = dropWhile is_digit z1;
          (frac, z3) =
            (case z2 of
               [] \<Rightarrow> ([], z2)
             | c # r \<Rightarrow> if c = CHR ''.'' then (takeWhile is_digit r, dropWhile is_digit r)
                        else ([], z2));
          (expo, z4) =
            (case z3 of
               [] \<Rightarrow> (Some 0, z3)
             | c # r \<Rightarrow>
                 if c = CHR ''e'' \<or> c = CHR ''E''
                 then (let (eneg, r1) = take_sign r;
                           ds = takeWhile is_digit r1
                       in (if ds = [] then None
                           else Some (if eneg then - decimal ds else decimal ds),
                           dropWhile is_digit r1))
                 else (Some 0, z3));
          m = decimal (whole @ frac)
      in case expo of
           None \<Rightarrow> None
         | Some e \<Rightarrow>
             if whole @ frac = [] \<or> dropWhile sqlite_isspace z4 \<noteq> [] then None
             else Some (if neg then - m else m, e - int (length frac)))"

definition int64 :: "int \<Rightarrow> bool" where
  "int64 v = (- (2 ^ 63) \<le> v \<and> v < 2 ^ 63)"

definition integer_affinity :: "string \<Rightarrow> book_key" where
  \<comment> \<open>The value stored when a text is bound to a column of integer affinity: the
    integer, when the text is a numeric literal whose value is an integer of 64 bits;
    otherwise a real or the text itself, neither of which equals a book id, both drawn
    as \<open>TextKey\<close>. Values are taken exactly; the rounding of a literal of more than 15
    significant digits to a double is not drawn.\<close>
  "integer_affinity s =
     (case numeric_literal s of
        None \<Rightarrow> TextKey s
      | Some (m, e) \<Rightarrow>
          (let v = (if 0 \<le> e then m * 10 ^ nat e else m div 10 ^ nat (- e))
           in if (0 \<le> e \<or> m mod 10 ^ nat (- e) = 0) \<and> int64 v then IntKey v else TextKey s))"

definition fk_violated :: "book_key \<Rightarrow> local_db \<Rightarrow> bool" where
  \<comment> \<open>\<open>FOREIGN KEY (book_id) REFERENCES books(id)\<close>, checked when enforcement is on,
    on the value as it is stored; no book has a text or a real for its id.\<close>
  "fk_violated k d =
     (foreign_keys d \<and>
      (case k of IntKey i \<Rightarrow> \<not> (\<exists>b \<in> set (books d). b_id b = i) | TextKey s \<Rightarrow> True))"

definition insert_book_row :: "book_row \<Rightarrow> local_db \<Rightarrow> local_db" where
  \<comment> \<open>\<open>INSERT [OR REPLACE] INTO books\<close>: a row holding the same non-null sync id is
    replaced; the new row takes the next rowid.\<close>
  "insert_book_row b d =
     d\<lparr>books := filter (\<lambda>x. b_sync_id x = None \<or> b_sync_id x \<noteq> b_sync_id b) (books d)
                 @ [b\<lparr>b_id := next_rowid (map b_id (books d))\<rparr>]\<rparr>"

definition insert_tx_row :: "tx_row \<Rightarrow> local_db \<Rightarrow> local_db" where
  "insert_tx_row t d =
     d\<lparr>transactions :=
         filter (\<lambda>x. t_sync_id x = None \<or> t_sync_id x \<noteq> t_sync_id t) (transactions d)
         @ [t\<lparr>t_id := next_rowid (map t_id (transactions d))\<rparr>]\<rparr>"

section \<open>Remote gateway\<close>

text \<open>
  The remote tables \<open>books\<close> and \<open>transactions\<close> of \<open>supabase_schema.sql\<close> behind the
  Supabase client: \<open>id\<close> is the primary key, \<open>transactions.book_id\<close> references
  \<open>books(id)\<close>, \<open>type\<close> is checked to be income or expense. A request answers with
  data or with an error; \<open>faults\<close> lists, request by request, whether the next request is
  answered with an error for a reason outside the tables (transport, credentials), and
  \<open>requests\<close> counts the requests made.
\<close>

record remote_book =
  rb_id :: string
  rb_user_id :: string
  rb_name :: string
  rb_created_at :: timestamp
  rb_updated_at :: timestamp
  rb_deleted :: bool

record remote_tx =
  rt_id :: string
  rt_user_id :: string
  rt_book_id :: string
  rt_type :: string
  rt_amount :: int
  rt_note :: "string option"
  rt_category :: "string option"
  rt_created_at :: timestamp
  rt_updated_at :: timestamp
  rt_deleted :: bool

record remote_db =
  r_books :: "remote_book list"
  r_transactions :: "remote_tx list"
  faults :: "bool list"
  requests :: nat

definition begin_request :: "remote_db \<Rightarrow> bool \<times> remote_db" where
  "begin_request r =
     (case faults r of
        [] \<Rightarrow> (False, r\<lparr>requests := requests r + 1\<rparr>)
      | f # fs \<Rightarrow> (f, r\<lparr>faults := fs, requests := requests r + 1\<rparr>))"

definition select_books :: "string \<Rightarrow> timestamp \<Rightarrow> remote_db \<Rightarrow> remote_book list option \<times> remote_db" where
  \<comment> \<open>\<open>from("books").select("*").eq("user_id", userId).gt("updated_at", after)\<close>;
    \<open>None\<close> is an error answer.\<close>
  "select_books userId after r =
     (let (fault, r') = begin_request r
      in if fault then (None, r')
         else (Some (filter (\<lambda>b. rb_user_id b = userId \<and> after < rb_updated_at b) (r_books r')), r'))"

definition select_transactions :: "string \<Rightarrow> timestamp \<Rightarrow> remote_db \<Rightarrow> remote_tx list option \<times> remote_db" where
  "select_transactions userId after r =
     (let (fault, r') = begin_request r
      in if fault then (None, r')
         else (Some (filter (\<lambda>t. rt_user_id t = userId \<and> after < rt_updated_at t)
                 (r_transactions r')), r'))"

definition select_book_id_by_name :: "string \<Rightarrow> string \<Rightarrow> remote_db \<Rightarrow> string option \<times> remote_db" where
  \<comment> \<open>\<open>from("books").select("id").eq("user_id", userId).eq("name", name).maybeSingle()\<close>,
    of which the caller reads \<open>data\<close> only: null on an error, on no row and on several rows.\<close>
  "select_book_id_by_name userId name r =
     (let (fault, r') = begin_request r
      in if fault then (None, r')
         else (case filter (\<lambda>b. rb_user_id b = userId \<and> rb_name b = name) (r_books r') of
                 [b] \<Rightarrow> (Some (rb_id b), r')
               | _ \<Rightarrow> (None, r')))"

definition insert_book :: "remote_book \<Rightarrow> remote_db \<Rightarrow> bool \<times> remote_db" where
  \<comment> \<open>\<open>from("books").insert(row)\<close>; the result is \<open>!error\<close>.\<close>
  "insert_book row r =
     (let (fault, r') = begin_request r
      in if fault \<or> (\<exists>b \<in> set (r_books r'). rb_id b = rb_id row) then (False, r')
         else (True, r'\<lparr>r_books := r_books r' @ [row]\<rparr>))"

definition upsert_book :: "remote_book \<Rightarrow> remote_db \<Rightarrow> bool \<times> remote_db" where
  \<comment> \<open>\<open>from("books").upsert(row)\<close>: insert, or update the row of the same id.\<close>
  "upsert_book row r =
     (let (fault, r') = begin_request r
      in if fault then (False, r')
         else if \<exists>b \<in> set (r_books r'). rb_id b = rb_id row
         then (True, r'\<lparr>r_books := map (\<lambda>b. if rb_id b = rb_id row then row else b) (r_books r')\<rparr>)
         else (True, r'\<lparr>r_books := r_books r' @ [row]\<rparr>))"

definition remote_tx_rejected :: "remote_tx \<Rightarrow> remote_db \<Rightarrow> bool" where
  \<comment> \<open>The check on \<open>type\<close> and the reference to \<open>books(id)\<close>.\<close>
  "remote_tx_rejected row r =
     (rt_type row \<notin> {''income'', ''expense''} \<or> \<not> (\<exists>b \<in> set (r_books r). rb_id b = rt_book_id row))"

definition insert_tx :: "remote_tx \<Rightarrow> remote_db \<Rightarrow> bool \<times> remote_db" where
  "insert_tx row r =
     (let (fault, r') = begin_request r
      in if fault \<or> remote_tx_rejected row r' \<or> (\<exists>t \<in> set (r_transactions r'). rt_id t = rt_id row)
         then (False, r')
         else (True, r'\<lparr>r_transactions := r_transactions r' @ [row]\<rparr>))"

definition upsert_tx :: "remote_tx \<Rightarrow> remote_db \<Rightarrow> bool \<times> remote_db" where
  "upsert_tx row r =
     (let (fault, r') = begin_request r
      in if fault \<or> remote_tx_rejected row r' then (False, r')
         else if \<exists>t \<in> set (r_transactions r'). rt_id t = rt_id row
         then (True, r'\<lparr>r_transactions :=
                  map (\<lambda>t. if rt_id t = rt_id row then row else t) (r_transactions r')\<rparr>)
         else (True, r'\<lparr>r_transactions := r_transactions r' @ [row]\<rparr>))"

section \<open>The world the engine runs in\<close>

text \<open>
  The local store, the remote store, the device clock and the random source. The clock is
  the sequence of the values \<open>new Date()\<close> returns, read one at a time; nothing makes it
  increase.
\<close>

record world =
  db :: local_db
  remote :: remote_db
  clock :: "nat \<Rightarrow> timestamp"
  ticks :: nat
  random :: random_source
  draws :: nat

definition read_clock :: "world \<Rightarrow> timestamp \<times> world" where
  \<comment> \<open>\<open>new Date().toISOString()\<close>\<close>
  "read_clock w = (clock w (ticks w), w\<lparr>ticks := ticks w + 1\<rparr>)"

definition epoch :: timestamp where
  \<comment> \<open>\<open>"1970-01-01"\<close>\<close>
  "epoch = 0"

definition getUserPreference :: "string \<Rightarrow> world \<Rightarrow> timestamp option" where
  "getUserPreference key w = user_preferences (db w) key"

definition setUserPreference :: "string \<Rightarrow> timestamp \<Rightarrow> world \<Rightarrow> world" where
  \<comment> \<open>Updates the row of the key or inserts it; reads the clock once for the row's own
    \<open>updated_at\<close>.\<close>
  "setUserPreference key v w =
     (let (now, w1) = read_clock w
      in w1\<lparr>db := (db w1)\<lparr>user_preferences := (user_preferences (db w1))(key \<mapsto> v)\<rparr>\<rparr>)"

definition truthy :: "string option \<Rightarrow> bool" where
  \<comment> \<open>JavaScript truthiness of an optional string: neither null nor empty.\<close>
  "truthy s = (s \<noteq> None \<and> s \<noteq> Some [])"

section \<open>Sync engine: pull, resolve, push\<close>

datatype error =
    UserIdRequired
  | ClientRequired
  | FetchBooksFailed
  | RemoteError
  | SqlError sql_error
  | PrerequisitesNotMet
  | TokenRefreshFailed

datatype conflict =
    BookConflict int string book_row remote_book timestamp timestamp
  | TransactionConflict int string tx_row remote_tx timestamp timestamp

record PullResult =
  hasNewData :: bool
  booksCount :: nat
  transactionsCount :: nat
  conflicts :: "conflict list"

definition book_local_updated :: "book_row \<Rightarrow> timestamp" where
  \<comment> \<open>\<open>localBook.updated_at || localBook.created_at\<close>\<close>
  "book_local_updated b = (case b_updated_at b of Some u \<Rightarrow> u | None \<Rightarrow> b_created_at b)"

definition tx_local_updated :: "tx_row \<Rightarrow> timestamp" where
  "tx_local_updated t = (case t_updated_at t of Some u \<Rightarrow> u | None \<Rightarrow> t_created_at t)"

definition pull_book :: "remote_book \<Rightarrow> local_db \<times> conflict list \<Rightarrow> local_db \<times> conflict list" where
  \<comment> \<open>The body of the loop over \<open>remoteBooks\<close> in \<open>pullFromServer\<close>.\<close>
  "pull_book remoteBook = (\<lambda>(d, cs).
     case book_by_sync_id (rb_id remoteBook) d of
       Some localBook \<Rightarrow>
         (let localUpdated = book_local_updated localBook;
              remoteUpdated = rb_updated_at remoteBook
          in if remoteUpdated < localUpdated
             then (d, cs @ [BookConflict (b_id localBook) (rb_id remoteBook) localBook remoteBook
                              localUpdated remoteUpdated])
             else (update_books_where_id (b_id localBook)
                     (\<lambda>b. b\<lparr>b_name := rb_name remoteBook,
                             b_updated_at := Some (rb_updated_at remoteBook),
                             b_synced := 1\<rparr>) d, cs))
     | None \<Rightarrow>
         (insert_book_row
            \<lparr>b_id = 0, b_name = rb_name remoteBook, b_created_at = rb_created_at remoteBook,
             b_updated_at = Some (rb_updated_at remoteBook), b_synced = 1,
             b_sync_id = Some (rb_id remoteBook), b_last_synced = None, b_is_dirty = 1,
             b_deleted = 0\<rparr> d, cs))"

definition pull_tx :: "remote_tx \<Rightarrow> local_db \<Rightarrow> conflict list \<Rightarrow> sql_error option \<times> local_db \<times> conflict list" where
  \<comment> \<open>The body of the loop over \<open>remoteTransactions\<close>; a failing statement throws out of
    the loop and leaves the rows as they were.\<close>
  "pull_tx remoteTx d cs =
     (case tx_by_sync_id (rt_id remoteTx) d of
        Some localTx \<Rightarrow>
          (let localUpdated = tx_local_updated localTx;
               remoteUpdated = rt_updated_at remoteTx
           in if remoteUpdated < localUpdated
              then (None, d, cs @ [TransactionConflict (t_id localTx) (rt_id remoteTx) localTx
                                     remoteTx localUpdated remoteUpdated])
              else if fk_violated (integer_affinity (rt_book_id remoteTx)) d
              then (Some ForeignKeyConstraintFailed, d, cs)
              else (None, update_transactions_where_id (t_id localTx)
                      (\<lambda>t. t\<lparr>t_book_id := integer_affinity (rt_book_id remoteTx),
                              t_type := rt_type remoteTx, t_amount := rt_amount remoteTx,
                              t_note := rt_note remoteTx, t_category := rt_category remoteTx,
                              t_updated_at := Some (rt_updated_at remoteTx),
                              t_synced := 1\<rparr>) d, cs))
      | None \<Rightarrow>
          (case book_by_sync_id (rt_book_id remoteTx) d of
             Some book \<Rightarrow>
               (None, insert_tx_row
                  \<lparr>t_id = 0, t_book_id = IntKey (b_id book), t_type = rt_type remoteTx,
                   t_amount = rt_amount remoteTx, t_note = rt_note remoteTx,
                   t_category = rt_category remoteTx, t_created_at = rt_created_at remoteTx,
                   t_updated_at = Some (rt_updated_at remoteTx), t_synced = 1,
                   t_sync_id = Some (rt_id remoteTx), t_last_synced = None, t_is_dirty = 1,
                   t_deleted = 0\<rparr> d, cs)
           | None \<Rightarrow> (None, d, cs)))"

fun pull_transactions :: "remote_tx list \<Rightarrow> local_db \<Rightarrow> conflict list \<Rightarrow> sql_error option \<times> local_db \<times> conflict list" where
  "pull_transactions [] d cs = (None, d, cs)"
| "pull_transactions (r # rs) d cs =
     (case pull_tx r d cs of
        (Some e, d', cs') \<Rightarrow> (Some e, d', cs')
      | (None, d', cs') \<Rightarrow> pull_transactions rs d' cs')"

definition pullFromServer :: "string \<Rightarrow> world \<Rightarrow> (error + PullResult) \<times> world" where
  "pullFromServer userId w =
     (let lastBookSync =
            (case getUserPreference ''last_sync_books'' w of Some t \<Rightarrow> t | None \<Rightarrow> epoch);
          lastTransactionSync =
            (case getUserPreference ''last_sync_transactions'' w of Some t \<Rightarrow> t | None \<Rightarrow> epoch);
          (booksAnswer, r1) = select_books userId lastBookSync (remote w)
      in case booksAnswer of
           None \<Rightarrow> (Inl RemoteError, w\<lparr>remote := r1\<rparr>)
         | Some remoteBooks \<Rightarrow>
             (let (d1, cs1) = fold pull_book remoteBooks (db w, []);
                  (txAnswer, r2) = select_transactions userId lastTransactionSync r1
              in case txAnswer of
                   None \<Rightarrow> (Inl RemoteError, w\<lparr>db := d1, remote := r2\<rparr>)
                 | Some remoteTransactions \<Rightarrow>
                     (case pull_transactions remoteTransactions d1 cs1 of
                        (Some e, d2, cs2) \<Rightarrow> (Inl (SqlError e), w\<lparr>db := d2, remote := r2\<rparr>)
                      | (None, d2, cs2) \<Rightarrow>
                          (Inr \<lparr>hasNewData = (0 < length remoteBooks \<or> 0 < length remoteTransactions),
                                booksCount = length remoteBooks,
                                transactionsCount = length remoteTransactions,
                                conflicts = cs2\<rparr>,
                           w\<lparr>db := d2, remote := r2\<rparr>))))"

fun resolve_conflict :: "conflict \<Rightarrow> local_db \<Rightarrow> local_db" where
  "resolve_conflict (BookConflict localId remoteId localData remoteData lu ru) d =
     update_books_where_id localId
       (\<lambda>b. b\<lparr>b_name := rb_name remoteData, b_updated_at := Some (rb_updated_at remoteData),
               b_synced := 1\<rparr>) d"
| "resolve_conflict (TransactionConflict localId remoteId localData remoteData lu ru) d =
     update_transactions_where_id localId
       (\<lambda>t. t\<lparr>t_type := rt_type remoteData, t_amount := rt_amount remoteData,
               t_note := rt_note remoteData, t_category := rt_category remoteData,
               t_updated_at := Some (rt_updated_at remoteData), t_synced := 1\<rparr>) d"

definition resolveConflicts :: "string \<Rightarrow> conflict list \<Rightarrow> world \<Rightarrow> world" where
  "resolveConflicts userId cs w = w\<lparr>db := fold resolve_conflict cs (db w)\<rparr>"

definition push_book :: "string \<Rightarrow> book_row \<Rightarrow> world \<Rightarrow> world" where
  \<comment> \<open>The body of the loop over \<open>unsyncedBooks\<close>; its \<open>try\<close> catches a failing statement
    and goes on to the next book.\<close>
  "push_book userId book w =
     (let (now, w1) = read_clock w
      in if truthy (b_sync_id book) then
           (let isDeleted = (b_deleted book = 1);
                (ok, r') = upsert_book
                   \<lparr>rb_id = the (b_sync_id book), rb_user_id = userId, rb_name = b_name book,
                    rb_created_at = b_created_at book, rb_updated_at = now,
                    rb_deleted = isDeleted\<rparr> (remote w1)
            in if ok
               then w1\<lparr>remote := r',
                       db := update_books_where_id (b_id book)
                               (\<lambda>b. b\<lparr>b_synced := 1, b_updated_at := Some now\<rparr>) (db w1)\<rparr>
               else w1\<lparr>remote := r'\<rparr>)
         else
           (let (syncId, k) = generateSyncId (random w1) (draws w1) (b_id book);
                w2 = w1\<lparr>draws := k\<rparr>;
                (existing, r1) = select_book_id_by_name userId (b_name book) (remote w2)
            in case existing of
                 Some existingId \<Rightarrow>
                   (if book_sync_id_taken (b_id book) existingId (db w2)
                    then w2\<lparr>remote := r1\<rparr>
                    else w2\<lparr>remote := r1,
                            db := update_books_where_id (b_id book)
                                    (\<lambda>b. b\<lparr>b_synced := 1, b_sync_id := Some existingId\<rparr>) (db w2)\<rparr>)
               | None \<Rightarrow>
                   (let isDeleted = (b_deleted book = 1);
                        (ok, r2) = insert_book
                           \<lparr>rb_id = syncId, rb_user_id = userId, rb_name = b_name book,
                            rb_created_at = b_created_at book, rb_updated_at = now,
                            rb_deleted = isDeleted\<rparr> r1
                    in if ok \<and> \<not> book_sync_id_taken (b_id book) syncId (db w2)
                       then w2\<lparr>remote := r2,
                               db := update_books_where_id (b_id book)
                                       (\<lambda>b. b\<lparr>b_synced := 1, b_sync_id := Some syncId\<rparr>) (db w2)\<rparr>
                       else w2\<lparr>remote := r2\<rparr>)))"

definition unsynced_books :: "local_db \<Rightarrow> book_row list" where
  \<comment> \<open>\<open>SELECT * FROM books WHERE synced = 0 OR sync_id IS NULL\<close>\<close>
  "unsynced_books d = filter (\<lambda>b. b_synced b = 0 \<or> b_sync_id b = None) (books d)"

definition book_sync_id_of :: "book_key \<Rightarrow> local_db \<Rightarrow> string option" where
  \<comment> \<open>\<open>b.sync_id as book_sync_id ... LEFT JOIN books b ON t.book_id = b.id\<close>\<close>
  "book_sync_id_of k d =
     (case find (\<lambda>b. IntKey (b_id b) = k) (books d) of
        Some b \<Rightarrow> b_sync_id b
      | None \<Rightarrow> None)"

definition unsynced_transactions :: "local_db \<Rightarrow> (tx_row \<times> string option) list" where
  \<comment> \<open>\<open>SELECT t.*, b.sync_id as book_sync_id FROM transactions t LEFT JOIN books b
    ON t.book_id = b.id WHERE t.synced = 0 OR t.sync_id IS NULL\<close>\<close>
  "unsynced_transactions d =
     map (\<lambda>t. (t, book_sync_id_of (t_book_id t) d))
       (filter (\<lambda>t. t_synced t = 0 \<or> t_sync_id t = None) (transactions d))"

definition push_tx :: "string \<Rightarrow> tx_row \<times> string option \<Rightarrow> world \<Rightarrow> sql_error option \<times> world" where
  \<comment> \<open>The body of the loop over \<open>unsyncedTransactions\<close>, which has no \<open>try\<close>.\<close>
  "push_tx userId = (\<lambda>(tx, book_sync_id) w.
     if \<not> truthy book_sync_id then (None, w)
     else
       (let (now, w1) = read_clock w
        in if truthy (t_sync_id tx) then
             (let isDeleted = (t_deleted tx = 1);
                  (ok, r') = upsert_tx
                     \<lparr>rt_id = the (t_sync_id tx), rt_user_id = userId,
                      rt_book_id = the book_sync_id, rt_type = t_type tx,
                      rt_amount = t_amount tx, rt_note = t_note tx,
                      rt_category = t_category tx, rt_created_at = t_created_at tx,
                      rt_updated_at = now, rt_deleted = isDeleted\<rparr> (remote w1)
              in if ok
                 then (None, w1\<lparr>remote := r',
                         db := update_transactions_where_id (t_id tx)
                                 (\<lambda>t. t\<lparr>t_synced := 1, t_updated_at := Some now\<rparr>) (db w1)\<rparr>)
                 else (None, w1\<lparr>remote := r'\<rparr>))
           else
             (let (syncId, k) = generateSyncId (random w1) (draws w1) (t_id tx);
                  w2 = w1\<lparr>draws := k\<rparr>;
                  isDeleted = (t_deleted tx = 1);
                  (ok, r') = insert_tx
                     \<lparr>rt_id = syncId, rt_user_id = userId, rt_book_id = the book_sync_id,
                      rt_type = t_type tx, rt_amount = t_amount tx, rt_note = t_note tx,
                      rt_category = t_category tx, rt_created_at = t_created_at tx,
                      rt_updated_at = now, rt_deleted = isDeleted\<rparr> (remote w2)
              in if \<not> ok then (None, w2\<lparr>remote := r'\<rparr>)
                 else if tx_sync_id_taken (t_id tx) syncId (db w2)
                 then (Some UniqueConstraintFailed, w2\<lparr>remote := r'\<rparr>)
                 else (None, w2\<lparr>remote := r',
                         db := update_transactions_where_id (t_id tx)
                                 (\<lambda>t. t\<lparr>t_synced := 1, t_sync_id := Some syncId\<rparr>) (db w2)\<rparr>))))"

fun push_transactions :: "string \<Rightarrow> (tx_row \<times> string option) list \<Rightarrow> world \<Rightarrow> sql_error option \<times> world" where
  "push_transactions userId [] w = (None, w)"
| "push_transactions userId (x # xs) w =
     (case push_tx userId x w of
        (Some e, w') \<Rightarrow> (Some e, w')
      | (None, w') \<Rightarrow> push_transactions userId xs w')"

definition pushToServer :: "string \<Rightarrow> world \<Rightarrow> (error + unit) \<times> world" where
  "pushToServer userId w =
     (let w1 = fold (push_book userId) (unsynced_books (db w)) w
      in case push_transactions userId (unsynced_transactions (db w1)) w1 of
           (Some e, w2) \<Rightarrow> (Inl (SqlError e), w2)
         | (None, w2) \<Rightarrow>
             (let (t1, w3) = read_clock w2;
                  w4 = setUserPreference ''last_sync_books'' t1 w3;
                  (t2, w5) = read_clock w4;
                  w6 = setUserPreference ''last_sync_transactions'' t2 w5
              in (Inr (), w6)))"

text \<open>
  \<open>SyncProvider.syncAll\<close>, the cycle the application runs: pull, resolve the conflicts
  the pull returned, push. The provider's state is what the hook closes over; the
  delays shown to the user take no part.
\<close>

record sync_provider =
  isSyncing :: bool
  isReady :: bool
  supabase :: bool
  user_id :: "string option"
  refreshTokenFails :: bool

definition SyncProvider_syncAll :: "sync_provider \<Rightarrow> world \<Rightarrow> (error + unit) \<times> world" where
  "SyncProvider_syncAll p w =
     (if isSyncing p then (Inr (), w)
      else if \<not> isReady p \<or> \<not> supabase p \<or> \<not> truthy (user_id p) then (Inl PrerequisitesNotMet, w)
      else if refreshTokenFails p then (Inl TokenRefreshFailed, w)
      else
        (case pullFromServer (the (user_id p)) w of
           (Inl e, w1) \<Rightarrow> (Inl e, w1)
         | (Inr pullResult, w1) \<Rightarrow>
             (let w2 = (if conflicts pullResult \<noteq> []
                        then resolveConflicts (the (user_id p)) (conflicts pullResult) w1
                        else w1)
              in pushToServer (the (user_id p)) w2)))"

section \<open>The older entry point: \<open>SyncService.syncAll\<close>\<close>

text \<open>
  \<open>syncAll(userId, supabase)\<close> checks its two arguments and then runs \<open>syncBooks\<close> and
  \<open>syncTransactions\<close>, each of which merges the remote rows changed since its cursor,
  pushes the unsynced local rows and sets its cursor. The remote rows have no
  \<open>local_id\<close>, so \<open>r.local_id || -1\<close> is \<open>-1\<close>. The client is present or not; the
  store it talks to is the \<open>remote\<close> of the world.
\<close>

definition update_books_where_sync_id :: "string \<Rightarrow> (book_row \<Rightarrow> book_row) \<Rightarrow> local_db \<Rightarrow> local_db" where
  \<comment> \<open>\<open>UPDATE books SET ... WHERE sync_id = ?\<close>\<close>
  "update_books_where_sync_id s f d =
     d\<lparr>books := map (\<lambda>b. if b_sync_id b = Some s then f b else b) (books d)\<rparr>"

definition update_transactions_where_sync_id :: "string \<Rightarrow> (tx_row \<Rightarrow> tx_row) \<Rightarrow> local_db \<Rightarrow> local_db" where
  \<comment> \<open>\<open>UPDATE transactions SET ... WHERE sync_id = ?\<close>\<close>
  "update_transactions_where_sync_id s f d =
     d\<lparr>transactions := map (\<lambda>t. if t_sync_id t = Some s then f t else t) (transactions d)\<rparr>"

definition syncBooks_merge :: "remote_book \<Rightarrow> local_db \<Rightarrow> local_db" where
  \<comment> \<open>The body of the loop over \<open>remoteBooks\<close> in \<open>syncBooks\<close>. No statement of it can
    fail: the last update sets a sync id that no row holds.\<close>
  "syncBooks_merge r d =
     (case book_by_sync_id (rb_id r) d of
        Some existingBySyncId \<Rightarrow>
          update_books_where_sync_id (rb_id r) (\<lambda>b. b\<lparr>b_name := rb_name r, b_synced := 1\<rparr>) d
      | None \<Rightarrow>
          (case book_by_id (- 1) d of
             None \<Rightarrow>
               insert_book_row
                 \<lparr>b_id = 0, b_name = rb_name r, b_created_at = rb_created_at r,
                  b_updated_at = None, b_synced = 1, b_sync_id = Some (rb_id r),
                  b_last_synced = None, b_is_dirty = 1, b_deleted = 0\<rparr> d
           | Some local \<Rightarrow>
               update_books_where_id (b_id local)
                 (\<lambda>b. b\<lparr>b_name := rb_name r, b_synced := 1, b_sync_id := Some (rb_id r)\<rparr>) d))"

definition syncBooks_push :: "string \<Rightarrow> book_row \<Rightarrow> world \<Rightarrow> world" where
  \<comment> \<open>The body of the loop over \<open>unsynced\<close> in \<open>syncBooks\<close>; a failing local update is
    caught and logged. \<open>created_at\<close> is \<open>NOT NULL\<close>, so \<open>b.created_at || now\<close> is
    \<open>b.created_at\<close>; the inserted row has no \<open>deleted\<close> and takes the default.\<close>
  "syncBooks_push userId b w =
     (if truthy (b_sync_id b)
      then w\<lparr>db := update_books_where_id (b_id b) (\<lambda>x. x\<lparr>b_synced := 1\<rparr>) (db w)\<rparr>
      else
        (let (syncId, k) = generateSyncId (random w) (draws w) (b_id b);
             w1 = w\<lparr>draws := k\<rparr>;
             (now, w2) = read_clock w1;
             (existing, r1) = select_book_id_by_name userId (b_name b) (remote w2)
         in if truthy existing then
              (if book_sync_id_taken (b_id b) (the existing) (db w2)
               then w2\<lparr>remote := r1\<rparr>
               else w2\<lparr>remote := r1,
                       db := update_books_where_id (b_id b)
                               (\<lambda>x. x\<lparr>b_synced := 1, b_sync_id := existing\<rparr>) (db w2)\<rparr>)
            else
              (let (ok, r2) = insert_book
                      \<lparr>rb_id = syncId, rb_user_id = userId, rb_name = b_name b,
                       rb_created_at = b_created_at b, rb_updated_at = now,
                       rb_deleted = False\<rparr> r1
               in if ok \<and> \<not> book_sync_id_taken (b_id b) syncId (db w2)
                  then w2\<lparr>remote := r2,
                          db := update_books_where_id (b_id b)
                                  (\<lambda>x. x\<lparr>b_synced := 1, b_sync_id := Some syncId\<rparr>) (db w2)\<rparr>
                  else w2\<lparr>remote := r2\<rparr>)))"

definition syncBooks :: "string \<Rightarrow> world \<Rightarrow> (error + unit) \<times> world" where
  "syncBooks userId w =
     (let lastSync = (case getUserPreference ''last_sync_books'' w of Some t \<Rightarrow> t | None \<Rightarrow> epoch);
          (answer, r1) = select_books userId lastSync (remote w)
      in case answer of
           None \<Rightarrow> (Inl FetchBooksFailed, w\<lparr>remote := r1\<rparr>)
         | Some remoteBooks \<Rightarrow>
             (let w1 = w\<lparr>remote := r1, db := fold syncBooks_merge remoteBooks (db w)\<rparr>;
                  w2 = fold (syncBooks_push userId) (unsynced_books (db w1)) w1;
                  (t, w3) = read_clock w2
              in (Inr (), setUserPreference ''last_sync_books'' t w3)))"

definition syncTransactions_merge :: "remote_tx \<Rightarrow> local_db \<Rightarrow> sql_error option \<times> local_db" where
  \<comment> \<open>The body of the loop over \<open>remoteTx\<close> in \<open>syncTransactions\<close>, which has no \<open>try\<close>.
    Every statement writes the remote book id, a text, into \<open>book_id\<close>.\<close>
  "syncTransactions_merge r d =
     (let fromRemote = (\<lambda>t. t\<lparr>t_book_id := integer_affinity (rt_book_id r), t_type := rt_type r,
                                t_amount := rt_amount r, t_note := rt_note r,
                                t_category := rt_category r,
                                t_updated_at := Some (rt_updated_at r), t_synced := 1\<rparr>)
      in case tx_by_sync_id (rt_id r) d of
           Some existingBySyncId \<Rightarrow>
             (if tx_local_updated existingBySyncId < rt_updated_at r
              then (if fk_violated (integer_affinity (rt_book_id r)) d
                    then (Some ForeignKeyConstraintFailed, d)
                    else (None, update_transactions_where_sync_id (rt_id r) fromRemote d))
              else (None, d))
         | None \<Rightarrow>
             (case tx_by_id (- 1) d of
                None \<Rightarrow>
                  (if fk_violated (integer_affinity (rt_book_id r)) d
                   then (Some ForeignKeyConstraintFailed, d)
                   else (None, insert_tx_row
                           \<lparr>t_id = 0, t_book_id = integer_affinity (rt_book_id r), t_type = rt_type r,
                            t_amount = rt_amount r, t_note = rt_note r,
                            t_category = rt_category r, t_created_at = rt_created_at r,
                            t_updated_at = Some (rt_updated_at r), t_synced = 1,
                            t_sync_id = Some (rt_id r), t_last_synced = None, t_is_dirty = 1,
                            t_deleted = 0\<rparr> d))
              | Some local \<Rightarrow>
                  (if tx_local_updated local < rt_updated_at r
                   then (if fk_violated (integer_affinity (rt_book_id r)) d
                         then (Some ForeignKeyConstraintFailed, d)
                         else (None, update_transactions_where_id (t_id local)
                                 (\<lambda>t. (fromRemote t)\<lparr>t_sync_id := Some (rt_id r)\<rparr>) d))
                   else (None, d))))"

fun syncTransactions_pull :: "remote_tx list \<Rightarrow> local_db \<Rightarrow> sql_error option \<times> local_db" where
  "syncTransactions_pull [] d = (None, d)"
| "syncTransactions_pull (r # rs) d =
     (case syncTransactions_merge r d of
        (Some e, d') \<Rightarrow> (Some e, d')
      | (None, d') \<Rightarrow> syncTransactions_pull rs d')"

definition not_synced_transactions :: "local_db \<Rightarrow> (tx_row \<times> string option) list" where
  \<comment> \<open>\<open>SELECT t.*, b.sync_id as book_sync_id FROM transactions t LEFT JOIN books b
    ON t.book_id = b.id WHERE t.synced = 0\<close>\<close>
  "not_synced_transactions d =
     map (\<lambda>t. (t, book_sync_id_of (t_book_id t) d)) (filter (\<lambda>t. t_synced t = 0) (transactions d))"

definition kept_deleted :: "string \<Rightarrow> remote_db \<Rightarrow> bool" where
  \<comment> \<open>The \<open>deleted\<close> of a row upserted without that column: kept when the row exists,
    the default otherwise.\<close>
  "kept_deleted s r =
     (case find (\<lambda>t. rt_id t = s) (r_transactions r) of Some t \<Rightarrow> rt_deleted t | None \<Rightarrow> False)"

definition syncTransactions_push :: "string \<Rightarrow> tx_row \<times> string option \<Rightarrow> world \<Rightarrow> world" where
  \<comment> \<open>The body of the loop over \<open>unsynced\<close> in \<open>syncTransactions\<close>; a failing local
    update is caught and logged.\<close>
  "syncTransactions_push userId = (\<lambda>(t, book_sync_id) w.
     if \<not> truthy book_sync_id then w
     else
       (let (syncId, k) = generateSyncId (random w) (draws w) (t_id t);
            w1 = w\<lparr>draws := k\<rparr>;
            (now, w2) = read_clock w1;
            (ok, r') = upsert_tx
               \<lparr>rt_id = syncId, rt_user_id = userId, rt_book_id = the book_sync_id,
                rt_type = t_type t, rt_amount = t_amount t, rt_note = t_note t,
                rt_category = t_category t, rt_created_at = t_created_at t,
                rt_updated_at = now, rt_deleted = kept_deleted syncId (remote w2)\<rparr> (remote w2)
        in if ok \<and> \<not> tx_sync_id_taken (t_id t) syncId (db w2)
           then w2\<lparr>remote := r',
                   db := update_transactions_where_id (t_id t)
                           (\<lambda>x. x\<lparr>t_synced := 1, t_sync_id := Some syncId\<rparr>) (db w2)\<rparr>
           else w2\<lparr>remote := r'\<rparr>))"

definition syncTransactions :: "string \<Rightarrow> world \<Rightarrow> (error + unit) \<times> world" where
  "syncTransactions userId w =
     (let lastSync =
            (case getUserPreference ''last_sync_transactions'' w of Some t \<Rightarrow> t | None \<Rightarrow> epoch);
          (answer, r1) = select_transactions userId lastSync (remote w)
      in case answer of
           None \<Rightarrow> (Inl RemoteError, w\<lparr>remote := r1\<rparr>)
         | Some remoteTx \<Rightarrow>
             (case syncTransactions_pull remoteTx (db w) of
                (Some e, d1) \<Rightarrow> (Inl (SqlError e), w\<lparr>remote := r1, db := d1\<rparr>)
              | (None, d1) \<Rightarrow>
                  (let w1 = w\<lparr>remote := r1, db := d1\<rparr>;
                       w2 = fold (syncTransactions_push userId) (not_synced_transactions (db w1)) w1;
                       (t, w3) = read_clock w2
                   in (Inr (), setUserPreference ''last_sync_transactions'' t w3))))"

definition SyncService_syncAll :: "string option \<Rightarrow> bool \<Rightarrow> world \<Rightarrow> (error + unit) \<times> world" where
  \<comment> \<open>\<open>userId\<close> as it arrives at run time (null, undefined and the empty string are
    falsy); \<open>client\<close> says whether a Supabase client was passed.\<close>
  "SyncService_syncAll userId client w =
     (if \<not> truthy userId then (Inl UserIdRequired, w)
      else if \<not> client then (Inl ClientRequired, w)
      else
        (case syncBooks (the userId) w of
           (Inl e, w1) \<Rightarrow> (Inl e, w1)
         | (Inr u, w1) \<Rightarrow> syncTransactions (the userId) w1))"

section \<open>Write path of the local store: \<open>DatabaseService\<close>\<close>

text \<open>
  The six mutations the application calls. Each reads the clock once. The retries after a
  driver failure (\<open>prepareAsync\<close>, \<open>execAsync\<close>) repeat the same statements and are not
  drawn; a constraint failure is not retried and is thrown.
\<close>

definition DatabaseService_createBook :: "string \<Rightarrow> world \<Rightarrow> int \<times> world" where
  \<comment> \<open>\<open>INSERT INTO books (name, created_at, is_dirty) VALUES (?, ?, 1)\<close>; returns the id.\<close>
  "DatabaseService_createBook name w =
     (let (created_at, w1) = read_clock w;
          d = insert_book_row
                \<lparr>b_id = 0, b_name = name, b_created_at = created_at, b_updated_at = None,
                 b_synced = 0, b_sync_id = None, b_last_synced = None, b_is_dirty = 1,
                 b_deleted = 0\<rparr> (db w1)
      in (next_rowid (map b_id (books (db w1))), w1\<lparr>db := d\<rparr>))"

definition DatabaseService_updateBook :: "int \<Rightarrow> string \<Rightarrow> world \<Rightarrow> world" where
  \<comment> \<open>\<open>UPDATE books SET name = ?, updated_at = ?, synced = 0 WHERE id = ?\<close>\<close>
  "DatabaseService_updateBook bookId name w =
     (let (now, w1) = read_clock w
      in w1\<lparr>db := update_books_where_id bookId
                     (\<lambda>b. b\<lparr>b_name := name, b_updated_at := Some now, b_synced := 0\<rparr>) (db w1)\<rparr>)"

definition DatabaseService_deleteBook :: "int \<Rightarrow> world \<Rightarrow> world" where
  \<comment> \<open>Soft delete of the book, then of all its transactions
    (\<open>UPDATE transactions SET deleted = 1, synced = 0, updated_at = ? WHERE book_id = ?\<close>).\<close>
  "DatabaseService_deleteBook bookId w =
     (let (now, w1) = read_clock w;
          d1 = update_books_where_id bookId
                 (\<lambda>b. b\<lparr>b_deleted := 1, b_synced := 0, b_updated_at := Some now\<rparr>) (db w1);
          d2 = d1\<lparr>transactions :=
                   map (\<lambda>t. if t_book_id t = IntKey bookId
                            then t\<lparr>t_deleted := 1, t_synced := 0, t_updated_at := Some now\<rparr>
                            else t) (transactions d1)\<rparr>
      in w1\<lparr>db := d2\<rparr>)"

definition DatabaseService_addTransaction :: "int \<Rightarrow> string \<Rightarrow> int \<Rightarrow> string option \<Rightarrow> string option \<Rightarrow> world \<Rightarrow> (error + int) \<times> world" where
  \<comment> \<open>\<open>INSERT INTO transactions (book_id, type, amount, note, category, created_at,
    is_dirty) VALUES (?, ?, ?, ?, ?, ?, 1)\<close>; \<open>note ?? ''\<close> and \<open>category ?? ''\<close>.\<close>
  "DatabaseService_addTransaction bookId type amount note category w =
     (let (created_at, w1) = read_clock w;
          safeNote = (case note of Some n \<Rightarrow> n | None \<Rightarrow> []);
          safeCategory = (case category of Some c \<Rightarrow> c | None \<Rightarrow> [])
      in if fk_violated (IntKey bookId) (db w1)
         then (Inl (SqlError ForeignKeyConstraintFailed), w1)
         else (Inr (next_rowid (map t_id (transactions (db w1)))),
               w1\<lparr>db := insert_tx_row
                   \<lparr>t_id = 0, t_book_id = IntKey bookId, t_type = type, t_amount = amount,
                    t_note = Some safeNote, t_category = Some safeCategory,
                    t_created_at = created_at, t_updated_at = None, t_synced = 0,
                    t_sync_id = None, t_last_synced = None, t_is_dirty = 1, t_deleted = 0\<rparr>
                   (db w1)\<rparr>))"

definition DatabaseService_updateTransaction :: "int \<Rightarrow> string \<Rightarrow> int \<Rightarrow> string option \<Rightarrow> string option \<Rightarrow> world \<Rightarrow> tx_row option \<times> world" where
  \<comment> \<open>\<open>UPDATE transactions SET type = ?, amount = ?, note = ?, category = ?,
    updated_at = ?, synced = 0 WHERE id = ?\<close>; returns the row read back.\<close>
  "DatabaseService_updateTransaction transactionId type amount note category w =
     (let (updated_at, w1) = read_clock w;
          safeNote = (case note of Some n \<Rightarrow> n | None \<Rightarrow> []);
          safeCategory = (case category of Some c \<Rightarrow> c | None \<Rightarrow> []);
          d = update_transactions_where_id transactionId
                (\<lambda>t. t\<lparr>t_type := type, t_amount := amount, t_note := Some safeNote,
                        t_category := Some safeCategory, t_updated_at := Some updated_at,
                        t_synced := 0\<rparr>) (db w1)
      in (tx_by_id transactionId d, w1\<lparr>db := d\<rparr>))"

definition DatabaseService_deleteTransaction :: "int \<Rightarrow> world \<Rightarrow> world" where
  \<comment> \<open>\<open>UPDATE transactions SET deleted = 1, synced = 0, updated_at = ? WHERE id = ?\<close>\<close>
  "DatabaseService_deleteTransaction transactionId w =
     (let (now, w1) = read_clock w
      in w1\<lparr>db := update_transactions_where_id transactionId
                     (\<lambda>t. t\<lparr>t_deleted := 1, t_synced := 0, t_updated_at := Some now\<rparr>) (db w1)\<rparr>)"

section \<open>\<open>SyncService.updateTransaction\<close>\<close>

record tx_fields =
  f_type :: "string option"
  f_amount :: "int option"
  f_note :: "string option"
  f_category :: "string option"

definition or_empty :: "string option \<Rightarrow> string" where
  \<comment> \<open>\<open>x || ''\<close>: undefined, null and the empty string give the empty string.\<close>
  "or_empty x = (case x of None \<Rightarrow> [] | Some s \<Rightarrow> if s = [] then [] else s)"

definition or_zero :: "int option \<Rightarrow> int" where
  \<comment> \<open>\<open>amount || 0\<close>\<close>
  "or_zero x = (case x of None \<Rightarrow> 0 | Some n \<Rightarrow> if n = 0 then 0 else n)"

definition COALESCE :: "'a option \<Rightarrow> 'a option \<Rightarrow> 'a option" where
  \<comment> \<open>SQL \<open>COALESCE(p, col)\<close>: the first argument that is not null.\<close>
  "COALESCE p col = (case p of Some v \<Rightarrow> Some v | None \<Rightarrow> col)"

definition SyncService_updateTransaction :: "int \<Rightarrow> tx_fields \<Rightarrow> world \<Rightarrow> world" where
  \<comment> \<open>The bound parameters are \<open>[type || '', amount || 0, note || '', category || '',
    now, id]\<close>; none of them is null.\<close>
  "SyncService_updateTransaction i fs w =
     (let (now, w1) = read_clock w;
          p_type = Some (or_empty (f_type fs));
          p_amount = Some (or_zero (f_amount fs));
          p_note = Some (or_empty (f_note fs));
          p_category = Some (or_empty (f_category fs))
      in w1\<lparr>db := update_transactions_where_id i
                     (\<lambda>t. t\<lparr>t_type := the (COALESCE p_type (Some (t_type t))),
                             t_amount := the (COALESCE p_amount (Some (t_amount t))),
                             t_note := COALESCE p_note (t_note t),
                             t_category := COALESCE p_category (t_category t),
                             t_updated_at := Some now,
                             t_synced := 0\<rparr>) (db w1)\<rparr>)"

section \<open>Notions used in the proofs\<close>

text \<open>
  What the proofs follow through a sync: one local row, the only one holding a given sync
  id in a table whose ids are distinct; the effect of writing a remote row over it; and
  which conflicts of a list concern it.
\<close>

definition books_inv :: "int \<Rightarrow> string \<Rightarrow> book_row \<Rightarrow> book_row list \<Rightarrow> bool" where
  "books_inv i s L bs =
     (distinct (map b_id bs)
      \<and> (\<forall>b \<in> set bs. b_sync_id b = Some s \<longrightarrow> b_id b = i)
      \<and> L \<in> set bs \<and> b_id L = i \<and> b_sync_id L = Some s)"

definition book_inv :: "int \<Rightarrow> string \<Rightarrow> book_row \<Rightarrow> local_db \<Rightarrow> bool" where
  "book_inv i s L d = books_inv i s L (books d)"

definition apply_remote_book :: "remote_book \<Rightarrow> book_row \<Rightarrow> book_row" where
  "apply_remote_book R b =
     b\<lparr>b_name := rb_name R, b_updated_at := Some (rb_updated_at R), b_synced := 1\<rparr>"

definition track_book :: "remote_book \<Rightarrow> book_row \<Rightarrow> book_row" where
  "track_book R X = (if rb_updated_at R < book_local_updated X then X else apply_remote_book R X)"

fun book_conflict_ok :: "int \<Rightarrow> remote_book \<Rightarrow> conflict \<Rightarrow> bool" where
  "book_conflict_ok i R (BookConflict j rid lb rb lu ru) = (j = i \<longrightarrow> rb = R)"
| "book_conflict_ok i R (TransactionConflict j rid lt rt lu ru) = True"

fun is_tx_conflict :: "conflict \<Rightarrow> bool" where
  "is_tx_conflict (TransactionConflict j rid lt rt lu ru) = True"
| "is_tx_conflict (BookConflict j rid lb rb lu ru) = False"

definition books_cursor :: "world \<Rightarrow> timestamp" where
  "books_cursor w = (case getUserPreference ''last_sync_books'' w of Some t \<Rightarrow> t | None \<Rightarrow> epoch)"

definition transactions_cursor :: "world \<Rightarrow> timestamp" where
  "transactions_cursor w =
     (case getUserPreference ''last_sync_transactions'' w of Some t \<Rightarrow> t | None \<Rightarrow> epoch)"

fun conflict_hits_book :: "int \<Rightarrow> conflict \<Rightarrow> bool" where
  "conflict_hits_book i (BookConflict j rid lb rb lu ru) = (j = i)"
| "conflict_hits_book i (TransactionConflict j rid lt rt lu ru) = False"

definition txs_inv :: "int \<Rightarrow> string \<Rightarrow> tx_row \<Rightarrow> tx_row list \<Rightarrow> bool" where
  "txs_inv i s L ts =
     (distinct (map t_id ts)
      \<and> (\<forall>t \<in> set ts. t_sync_id t = Some s \<longrightarrow> t_id t = i)
      \<and> L \<in> set ts \<and> t_id L = i \<and> t_sync_id L = Some s)"

definition tx_inv :: "int \<Rightarrow> string \<Rightarrow> tx_row \<Rightarrow> local_db \<Rightarrow> bool" where
  "tx_inv i s L d = txs_inv i s L (transactions d)"

definition apply_remote_tx :: "remote_tx \<Rightarrow> tx_row \<Rightarrow> tx_row" where
  "apply_remote_tx R t =
     t\<lparr>t_type := rt_type R, t_amount := rt_amount R, t_note := rt_note R,
       t_category := rt_category R, t_updated_at := Some (rt_updated_at R), t_synced := 1\<rparr>"

definition apply_pulled_tx :: "remote_tx \<Rightarrow> tx_row \<Rightarrow> tx_row" where
  "apply_pulled_tx R t =
     t\<lparr>t_book_id := integer_affinity (rt_book_id R), t_type := rt_type R, t_amount := rt_amount R,
       t_note := rt_note R, t_category := rt_category R,
       t_updated_at := Some (rt_updated_at R), t_synced := 1\<rparr>"

definition track_tx :: "remote_tx \<Rightarrow> tx_row \<Rightarrow> tx_row" where
  "track_tx R X = (if rt_updated_at R < tx_local_updated X then X else apply_pulled_tx R X)"

fun tx_conflict_ok :: "int \<Rightarrow> remote_tx \<Rightarrow> conflict \<Rightarrow> bool" where
  "tx_conflict_ok i R (TransactionConflict j rid lt rt lu ru) = (j = i \<longrightarrow> rt = R)"
| "tx_conflict_ok i R (BookConflict j rid lb rb lu ru) = True"

fun conflict_hits_tx :: "int \<Rightarrow> conflict \<Rightarrow> bool" where
  "conflict_hits_tx i (TransactionConflict j rid lt rt lu ru) = (j = i)"
| "conflict_hits_tx i (BookConflict j rid lb rb lu ru) = False"

section \<open>Sample stores\<close>

text \<open>
  The store of the scenario of the specification: the book "Personal" created locally and
  one expense of 50000 in it, neither pushed yet; an empty remote; a clock that starts at
  1000 and advances by one at each reading.
\<close>

definition sample_clock :: "nat \<Rightarrow> timestamp" where
  "sample_clock n = 1000 + int n"

definition sample_random :: random_source where
  "sample_random k = (if even k then 1 / 4 else 3 / 4)"

definition sample_book :: book_row where
  "sample_book =
     \<lparr>b_id = 1, b_name = ''Personal'', b_created_at = 100, b_updated_at = None, b_synced = 0,
      b_sync_id = None, b_last_synced = None, b_is_dirty = 1, b_deleted = 0\<rparr>"

definition sample_tx :: tx_row where
  "sample_tx =
     \<lparr>t_id = 1, t_book_id = IntKey 1, t_type = ''expense'', t_amount = 50000,
      t_note = Some ''lunch'', t_category = Some ''food'', t_created_at = 200,
      t_updated_at = None, t_synced = 0, t_sync_id = None, t_last_synced = None,
      t_is_dirty = 1, t_deleted = 0\<rparr>"

definition sample_db :: local_db where
  "sample_db =
     \<lparr>books = [sample_book], transactions = [sample_tx], user_preferences = Map.empty,
      foreign_keys = True\<rparr>"

definition empty_remote :: remote_db where
  "empty_remote = \<lparr>r_books = [], r_transactions = [], faults = [], requests = 0\<rparr>"

definition sample_world :: world where
  "sample_world =
     \<lparr>db = sample_db, remote = empty_remote, clock = sample_clock, ticks = 0,
      random = sample_random, draws = 0\<rparr>"

text \<open>
  A store that has synced before: the book and the expense each hold a sync id and each
  have a copy on the remote; the cursors are 1005 and 1006 and the clock starts at 2000.
  The timestamps, the names and the amounts of the two sides are left open.
\<close>

definition paired_book :: "string \<Rightarrow> timestamp \<Rightarrow> int \<Rightarrow> book_row" where
  "paired_book name updated synced =
     \<lparr>b_id = 1, b_name = name, b_created_at = 100, b_updated_at = Some updated,
      b_synced = synced, b_sync_id = Some ''b-1'', b_last_synced = None, b_is_dirty = 0,
      b_deleted = 0\<rparr>"

definition paired_tx :: "int \<Rightarrow> timestamp \<Rightarrow> int \<Rightarrow> tx_row" where
  "paired_tx amount updated synced =
     \<lparr>t_id = 1, t_book_id = IntKey 1, t_type = ''expense'', t_amount = amount,
      t_note = Some ''lunch'', t_category = Some ''food'', t_created_at = 200,
      t_updated_at = Some updated, t_synced = synced, t_sync_id = Some ''t-1'',
      t_last_synced = None, t_is_dirty = 0, t_deleted = 0\<rparr>"

definition paired_remote_book :: "string \<Rightarrow> timestamp \<Rightarrow> bool \<Rightarrow> remote_book" where
  "paired_remote_book name updated deleted =
     \<lparr>rb_id = ''b-1'', rb_user_id = ''user_1'', rb_name = name, rb_created_at = 100,
      rb_updated_at = updated, rb_deleted = deleted\<rparr>"

definition paired_remote_tx :: "int \<Rightarrow> timestamp \<Rightarrow> bool \<Rightarrow> remote_tx" where
  "paired_remote_tx amount updated deleted =
     \<lparr>rt_id = ''t-1'', rt_user_id = ''user_1'', rt_book_id = ''b-1'', rt_type = ''expense'',
      rt_amount = amount, rt_note = Some ''lunch'', rt_category = Some ''food'',
      rt_created_at = 200, rt_updated_at = updated, rt_deleted = deleted\<rparr>"

definition paired_world :: "book_row \<Rightarrow> tx_row \<Rightarrow> remote_book \<Rightarrow> remote_tx \<Rightarrow> bool \<Rightarrow> world" where
  "paired_world b t rb rt fk =
     \<lparr>db = \<lparr>books = [b], transactions = [t],
             user_preferences =
               [''last_sync_books'' \<mapsto> 1005, ''last_sync_transactions'' \<mapsto> 1006],
             foreign_keys = fk\<rparr>,
      remote = \<lparr>r_books = [rb], r_transactions = [rt], faults = [], requests = 0\<rparr>,
      clock = (\<lambda>n. 2000 + int n), ticks = 0, random = sample_random, draws = 0\<rparr>"

definition ready_provider :: sync_provider where
  "ready_provider =
     \<lparr>isSyncing = False, isReady = True, supabase = True, user_id = Some ''user_1'',
      refreshTokenFails = False\<rparr>"

definition conflict_world :: world where
  \<comment> \<open>Both sides changed after the last sync, the local side last.\<close>
  "conflict_world =
     paired_world (paired_book ''Personal'' 1500 0) (paired_tx 50000 1600 0)
       (paired_remote_book ''Household'' 1200 False) (paired_remote_tx 70000 1300 False) True"

definition unfetched_world :: world where
  \<comment> \<open>Edited locally after the last sync; the remote copies are older than the cursors.\<close>
  "unfetched_world =
     paired_world (paired_book ''Personal'' 1500 0) (paired_tx 50000 1600 0)
       (paired_remote_book ''Household'' 1001 False) (paired_remote_tx 70000 1002 False) True"

definition newer_remote_world :: world where
  \<comment> \<open>Only the remote side changed after the last sync.\<close>
  "newer_remote_world =
     paired_world (paired_book ''Personal'' 1001 1) (paired_tx 50000 1002 1)
       (paired_remote_book ''Household'' 1200 False) (paired_remote_tx 70000 1300 False) False"

definition newer_remote_tx_world :: world where
  \<comment> \<open>Only the remote transaction changed after the last sync; foreign keys are
    enforced, as \<open>openUserDB\<close> asks.\<close>
  "newer_remote_tx_world =
     paired_world (paired_book ''Personal'' 1001 1) (paired_tx 50000 1002 1)
       (paired_remote_book ''Personal'' 1001 False) (paired_remote_tx 70000 1300 False) True"

definition missed_remote_world :: world where
  \<comment> \<open>The remote copies are newer than the local rows, yet not newer than the cursors.\<close>
  "missed_remote_world =
     paired_world (paired_book ''Personal'' 1001 1) (paired_tx 50000 1002 1)
       (paired_remote_book ''Household'' 1003 False) (paired_remote_tx 70000 1004 False) True"

definition tombstone_world :: world where
  \<comment> \<open>Another device deleted the book after the last sync.\<close>
  "tombstone_world =
     paired_world (paired_book ''Personal'' 1001 1) (paired_tx 50000 1002 1)
       (paired_remote_book ''Personal'' 1200 True) (paired_remote_tx 50000 1002 False) True"

definition quiet_world :: world where
  \<comment> \<open>Nothing changed on either side since the last sync.\<close>
  "quiet_world =
     paired_world (paired_book ''Personal'' 1001 1) (paired_tx 50000 1002 1)
       (paired_remote_book ''Personal'' 1001 False) (paired_remote_tx 50000 1002 False) True"

definition offline_world :: world where
  \<comment> \<open>The sample store while the remote answers the next two requests with an error.\<close>
  "offline_world = sample_world\<lparr>remote := empty_remote\<lparr>faults := [True, True]\<rparr>\<rparr>"

definition crash_world :: world where
  \<comment> \<open>The book is synced; the expense was added since and has never been pushed.\<close>
  "crash_world =
     \<lparr>db = \<lparr>books = [paired_book ''Personal'' 1001 1], transactions = [sample_tx],
             user_preferences =
               [''last_sync_books'' \<mapsto> 1005, ''last_sync_transactions'' \<mapsto> 1006],
             foreign_keys = True\<rparr>,
      remote = \<lparr>r_books = [paired_remote_book ''Personal'' 1001 False], r_transactions = [],
                 faults = [], requests = 0\<rparr>,
      clock = (\<lambda>n. 2000 + int n), ticks = 0, random = sample_random, draws = 0\<rparr>"

definition crash_after_ack :: "world \<Rightarrow> world \<Rightarrow> world" where
  \<comment> \<open>The process dies after the remote acknowledged and before the local store was
    written: the remote, the clock and the random source are as the run left them, the
    local store is as it was before the run.\<close>
  "crash_after_ack before after = after\<lparr>db := db before\<rparr>"

section \<open>Properties of the identity mapper\<close>

lemma hex_at_digit:
  fixes r :: real
  assumes "0 \<le> r" "r < 1"
  shows "\<exists>c. hex_at \<lfloor>r * 16\<rfloor> = [c] \<and> c \<in> set hex"
proof -
  have lo: "0 \<le> \<lfloor>r * 16\<rfloor>" using assms by simp
  have hi: "\<lfloor>r * 16\<rfloor> < 16" using assms by (simp add: floor_less_iff)
  have "length hex = 16" by (simp add: hex_def)
  then have "nat \<lfloor>r * 16\<rfloor> < length hex" using lo hi by linarith
  then have "hex ! nat \<lfloor>r * 16\<rfloor> \<in> set hex" by (rule nth_mem)
  then show ?thesis using lo hi by (simp add: hex_at_def)
qed

lemma to_int32_small:
  fixes r :: real
  assumes "0 \<le> r" "r < 1"
  shows "to_int32 (r * 4) \<in> {0, 1, 2, 3}"
proof -
  have lo: "0 \<le> \<lfloor>r * 4\<rfloor>" using assms by simp
  have hi: "\<lfloor>r * 4\<rfloor> < 4" using assms by (simp add: floor_less_iff)
  have nn: "0 \<le> r * 4" using assms by simp
  have "to_int32 (r * 4) = \<lfloor>r * 4\<rfloor>"
    using lo hi nn by (simp add: to_int32_def Let_def)
  moreover have "\<lfloor>r * 4\<rfloor> \<in> {0, 1, 2, 3}" using lo hi by (simp; linarith)
  ultimately show ?thesis by simp
qed

lemma hex_at_variant:
  fixes r :: real
  assumes "0 \<le> r" "r < 1"
  shows "\<exists>c. hex_at (to_int32 (r * 4) OR 8) = [c]
    \<and> c \<in> {CHR ''8'', CHR ''9'', CHR ''a'', CHR ''b''}"
proof -
  from to_int32_small [OF assms]
  consider "to_int32 (r * 4) = 0" | "to_int32 (r * 4) = 1"
    | "to_int32 (r * 4) = 2" | "to_int32 (r * 4) = 3" by auto
  then show ?thesis
    by cases (simp_all add: hex_at_def hex_def)
qed

lemma gen_loop_shape:
  "unit_interval rnd \<Longrightarrow> i \<le> 36 \<Longrightarrow> length uuid = i \<Longrightarrow> (\<forall>j < i. uuid_char_ok j (uuid ! j)) \<Longrightarrow>
    uuid_shaped (fst (gen_loop rnd i k uuid))"
proof (induction rnd i k uuid rule: gen_loop.induct)
  case (1 rnd i k uuid)
  have rng: "0 \<le> rnd k" "rnd k < 1"
    using "1.prems"(1) by (simp_all add: unit_interval_def)
  show ?case
  proof (cases "i < 36")
    case False
    then have "gen_loop rnd i k uuid = (uuid, k)"
      by (subst gen_loop.simps) simp
    moreover have "i = 36" using False "1.prems" by simp
    ultimately show ?thesis using "1.prems" by (simp add: uuid_shaped_def)
  next
    case lt: True
    have ext: "\<forall>j < i + 1. uuid_char_ok j ((uuid @ [c]) ! j)" if "uuid_char_ok i c" for c
      using that "1.prems" by (auto simp: nth_append less_Suc_eq)
    consider (dash) "i = 8 \<or> i = 13 \<or> i = 18 \<or> i = 23"
      | (four) "\<not> (i = 8 \<or> i = 13 \<or> i = 18 \<or> i = 23)" "i = 14"
      | (variant) "\<not> (i = 8 \<or> i = 13 \<or> i = 18 \<or> i = 23)" "i \<noteq> 14" "i = 19"
      | (digit) "\<not> (i = 8 \<or> i = 13 \<or> i = 18 \<or> i = 23)" "i \<noteq> 14" "i \<noteq> 19"
      by blast
    then show ?thesis
    proof cases
      case dash
      have ok: "uuid_char_ok i CHR ''-''" using dash by (simp add: uuid_char_ok_def)
      have "uuid_shaped (fst (gen_loop rnd (i + 1) k (uuid @ ''-'')))"
        using "1.IH"(1) [OF lt dash] lt "1.prems" ext [OF ok] by simp
      then show ?thesis using lt dash by (subst gen_loop.simps) simp
    next
      case four
      have ok: "uuid_char_ok i CHR ''4''" using four by (simp add: uuid_char_ok_def)
      have "uuid_shaped (fst (gen_loop rnd (i + 1) k (uuid @ ''4'')))"
        using "1.IH"(2) [OF lt four] lt "1.prems" ext [OF ok] by simp
      then show ?thesis using lt four by (subst gen_loop.simps) simp
    next
      case variant
      obtain c where c: "hex_at (to_int32 (rnd k * 4) OR 8) = [c]"
        "c \<in> {CHR ''8'', CHR ''9'', CHR ''a'', CHR ''b''}"
        using hex_at_variant [OF rng] by blast
      have ok: "uuid_char_ok i c" using variant c by (simp add: uuid_char_ok_def)
      have "uuid_shaped (fst (gen_loop rnd (i + 1) (k + 1)
          (uuid @ hex_at (to_int32 (rnd k * 4) OR 8))))"
        using "1.IH"(3) [OF lt variant] lt "1.prems" ext [OF ok] c by simp
      then show ?thesis using lt variant by (subst gen_loop.simps) simp
    next
      case digit
      obtain c where c: "hex_at \<lfloor>rnd k * 16\<rfloor> = [c]" "c \<in> set hex"
        using hex_at_digit [OF rng] by blast
      have ok: "uuid_char_ok i c" using digit c by (simp add: uuid_char_ok_def)
      have "uuid_shaped (fst (gen_loop rnd (i + 1) (k + 1) (uuid @ hex_at \<lfloor>rnd k * 16\<rfloor>)))"
        using "1.IH"(4) [OF lt digit] lt "1.prems" ext [OF ok] c by simp
      then show ?thesis using lt digit by (subst gen_loop.simps) simp
    qed
  qed
qed

text \<open>
  C9. For every local id and every outcome of the random source (each draw in the
  half-open unit interval), the generated remote identifier has 36 characters: a hyphen
  at positions 8, 13, 18 and 23, the digit 4 at position 14, one of 8, 9, a, b at
  position 19, and a lowercase hexadecimal digit everywhere else.
\<close>

theorem generateSyncId_uuid_v4_shape:
  assumes "unit_interval rnd"
  shows "length (fst (generateSyncId rnd k localId)) = 36
    \<and> (\<forall>i \<in> {8, 13, 18, 23}. fst (generateSyncId rnd k localId) ! i = CHR ''-'')
    \<and> fst (generateSyncId rnd k localId) ! 14 = CHR ''4''
    \<and> fst (generateSyncId rnd k localId) ! 19 \<in> {CHR ''8'', CHR ''9'', CHR ''a'', CHR ''b''}
    \<and> (\<forall>i < 36. i \<notin> {8, 13, 14, 18, 19, 23} \<longrightarrow>
          fst (generateSyncId rnd k localId) ! i \<in> set ''0123456789abcdef'')"
proof -
  have sh: "uuid_shaped (fst (generateSyncId rnd k localId))"
    unfolding generateSyncId_def using gen_loop_shape [OF assms, of 0 "[]" k] by simp
  then have len: "length (fst (generateSyncId rnd k localId)) = 36"
    and ok: "\<And>i. i < 36 \<Longrightarrow> uuid_char_ok i (fst (generateSyncId rnd k localId) ! i)"
    by (simp_all add: uuid_shaped_def)
  have d: "\<forall>i \<in> {8, 13, 18, 23}. fst (generateSyncId rnd k localId) ! i = CHR ''-''"
    using ok [of 8] ok [of 13] ok [of 18] ok [of 23] by (simp add: uuid_char_ok_def)
  have f: "fst (generateSyncId rnd k localId) ! 14 = CHR ''4''"
    using ok [of 14] by (simp add: uuid_char_ok_def)
  have v: "fst (generateSyncId rnd k localId) ! 19 \<in> {CHR ''8'', CHR ''9'', CHR ''a'', CHR ''b''}"
    using ok [of 19] by (simp add: uuid_char_ok_def)
  have h: "\<forall>i < 36. i \<notin> {8, 13, 14, 18, 19, 23} \<longrightarrow>
      fst (generateSyncId rnd k localId) ! i \<in> set ''0123456789abcdef''"
  proof (intro allI impI)
    fix i :: nat
    assume "i < 36" "i \<notin> {8, 13, 14, 18, 19, 23}"
    then show "fst (generateSyncId rnd k localId) ! i \<in> set ''0123456789abcdef''"
      using ok [of i] by (simp add: uuid_char_ok_def hex_def)
  qed
  show ?thesis using len d f v h by blast
qed

lemma unit_interval_half: "unit_interval (\<lambda>_. 1 / 2)"
  by (simp add: unit_interval_def)

lemma generateSyncId_half:
  "generateSyncId (\<lambda>_. 1 / 2) 0 1 = (''88888888-8888-4888-a888-888888888888'', 31)"
  by (simp add: generateSyncId_def gen_loop.simps hex_at_def hex_def to_int32_def)

theorem generateSyncId_uuid_v4_shape_witness:
  "unit_interval (\<lambda>_. 1 / 2)
    \<and> length (fst (generateSyncId (\<lambda>_. 1 / 2) 0 1)) = 36
    \<and> fst (generateSyncId (\<lambda>_. 1 / 2) 0 1) ! 14 = CHR ''4''
    \<and> fst (generateSyncId (\<lambda>_. 1 / 2) 0 1) ! 19 \<in> {CHR ''8'', CHR ''9'', CHR ''a'', CHR ''b''}"
  using generateSyncId_uuid_v4_shape [OF unit_interval_half, of 0 1] unit_interval_half
  by blast

section \<open>Reading a row back after a write\<close>

lemma find_map_update_same:
  "(\<And>x. key (f x) = key x) \<Longrightarrow>
   find (\<lambda>x. key x = i) (map (\<lambda>x. if key x = i then f x else x) xs)
     = map_option f (find (\<lambda>x. key x = i) xs)"
  by (induction xs) auto

lemma tx_by_id_update_same:
  "(\<And>t. t_id (f t) = t_id t) \<Longrightarrow>
   tx_by_id i (update_transactions_where_id i f d) = map_option f (tx_by_id i d)"
  unfolding tx_by_id_def update_transactions_where_id_def
  by (simp add: find_map_update_same [where key = t_id])

lemma book_by_id_update_same:
  "(\<And>b. b_id (f b) = b_id b) \<Longrightarrow>
   book_by_id i (update_books_where_id i f d) = map_option f (book_by_id i d)"
  unfolding book_by_id_def update_books_where_id_def
  by (simp add: find_map_update_same [where key = b_id])

lemma fold_max_bounds:
  fixes a :: int
  shows "a \<le> fold max ids a \<and> (\<forall>i \<in> set ids. i \<le> fold max ids a)"
proof (induction ids arbitrary: a)
  case Nil
  show ?case by simp
next
  case (Cons x xs)
  have "max x a \<le> fold max xs (max x a)" and "\<forall>i \<in> set xs. i \<le> fold max xs (max x a)"
    using Cons.IH [of "max x a"] by simp_all
  then show ?case by auto
qed

lemma next_rowid_fresh: "i \<in> set ids \<Longrightarrow> i < next_rowid ids"
  using fold_max_bounds [of 0 ids] by (auto simp: next_rowid_def)

lemma find_append_fresh:
  "\<forall>x \<in> set xs. \<not> P x \<Longrightarrow> P y \<Longrightarrow> find P (xs @ [y]) = Some y"
  by (induction xs) auto

lemma book_by_id_insert_new:
  "book_by_id (next_rowid (map b_id (books d))) (insert_book_row b d)
     = Some (b\<lparr>b_id := next_rowid (map b_id (books d))\<rparr>)"
proof -
  have "\<forall>x \<in> set (filter (\<lambda>x. b_sync_id x = None \<or> b_sync_id x \<noteq> b_sync_id b) (books d)).
      b_id x \<noteq> next_rowid (map b_id (books d))"
    using next_rowid_fresh [of _ "map b_id (books d)"] by fastforce
  then show ?thesis
    unfolding book_by_id_def insert_book_row_def by (simp add: find_append_fresh)
qed

lemma tx_by_id_insert_new:
  "tx_by_id (next_rowid (map t_id (transactions d))) (insert_tx_row t d)
     = Some (t\<lparr>t_id := next_rowid (map t_id (transactions d))\<rparr>)"
proof -
  have "\<forall>x \<in> set (filter (\<lambda>x. t_sync_id x = None \<or> t_sync_id x \<noteq> t_sync_id t) (transactions d)).
      t_id x \<noteq> next_rowid (map t_id (transactions d))"
    using next_rowid_fresh [of _ "map t_id (transactions d)"] by fastforce
  then show ?thesis
    unfolding tx_by_id_def insert_tx_row_def by (simp add: find_append_fresh)
qed

section \<open>\<open>SyncService.updateTransaction\<close> overwrites what the caller omits\<close>

text \<open>
  C10. \<open>SyncService.updateTransaction\<close> with a fields object that omits type, amount,
  note or category does not keep the stored value: an omitted or zero amount is written as
  0 and an omitted or empty type, note or category as the empty string, because the
  parameter bound to \<open>COALESCE\<close> is never null.
\<close>

theorem updateTransaction_omitted_fields_overwritten:
  assumes "tx_by_id i (db w) = Some t"
  shows "\<exists>t'. tx_by_id i (db (SyncService_updateTransaction i fs w)) = Some t'
    \<and> (f_type fs \<in> {None, Some []} \<longrightarrow> t_type t' = [])
    \<and> (f_amount fs \<in> {None, Some 0} \<longrightarrow> t_amount t' = 0)
    \<and> (f_note fs \<in> {None, Some []} \<longrightarrow> t_note t' = Some [])
    \<and> (f_category fs \<in> {None, Some []} \<longrightarrow> t_category t' = Some [])"
  using assms
  by (auto simp: SyncService_updateTransaction_def read_clock_def tx_by_id_update_same
      COALESCE_def or_empty_def or_zero_def)

theorem updateTransaction_omitted_fields_overwritten_witness:
  "tx_by_id 1 (db sample_world) = Some sample_tx
   \<and> t_type sample_tx = ''expense'' \<and> t_amount sample_tx = 50000
   \<and> (\<exists>t'. tx_by_id 1 (db (SyncService_updateTransaction 1
              \<lparr>f_type = None, f_amount = None, f_note = Some ''dinner'', f_category = None\<rparr>
              sample_world)) = Some t'
        \<and> t_type t' = [] \<and> t_amount t' = 0 \<and> t_category t' = Some [])"
proof -
  have h: "tx_by_id 1 (db sample_world) = Some sample_tx"
    by (simp add: tx_by_id_def sample_world_def sample_db_def sample_tx_def)
  show ?thesis
    using h updateTransaction_omitted_fields_overwritten [OF h,
        of "\<lparr>f_type = None, f_amount = None, f_note = Some ''dinner'', f_category = None\<rparr>"]
    by (simp add: sample_tx_def)
qed

section \<open>Every local mutation marks the row unsynced and dates it\<close>

lemma createBook_row:
  "\<exists>b. book_by_id (fst (DatabaseService_createBook name w))
           (db (snd (DatabaseService_createBook name w))) = Some b
     \<and> b_synced b = 0 \<and> b_is_dirty b = 1 \<and> b_updated_at b = None
     \<and> book_local_updated b = clock w (ticks w)"
  by (simp add: DatabaseService_createBook_def read_clock_def book_by_id_insert_new
      book_local_updated_def)

lemma addTransaction_row:
  "\<not> fk_violated (IntKey bookId) (db w) \<Longrightarrow>
   \<exists>i w' t. DatabaseService_addTransaction bookId ty amt note cat w = (Inr i, w')
     \<and> tx_by_id i (db w') = Some t \<and> t_synced t = 0 \<and> t_is_dirty t = 1
     \<and> t_updated_at t = None \<and> tx_local_updated t = clock w (ticks w)"
  by (simp add: DatabaseService_addTransaction_def read_clock_def tx_by_id_insert_new
      tx_local_updated_def)

lemma updateBook_row:
  "book_by_id i (db w) \<noteq> None \<Longrightarrow>
   \<exists>b. book_by_id i (db (DatabaseService_updateBook i name w)) = Some b
     \<and> b_synced b = 0 \<and> b_updated_at b = Some (clock w (ticks w))"
  by (auto simp: DatabaseService_updateBook_def read_clock_def book_by_id_update_same)

lemma deleteBook_row:
  "book_by_id i (db w) \<noteq> None \<Longrightarrow>
   \<exists>b. book_by_id i (db (DatabaseService_deleteBook i w)) = Some b
     \<and> b_synced b = 0 \<and> b_deleted b = 1 \<and> b_updated_at b = Some (clock w (ticks w))"
  by (auto simp: DatabaseService_deleteBook_def read_clock_def book_by_id_update_same
      book_by_id_def update_books_where_id_def Let_def find_map_update_same [where key = b_id])

lemma updateTransaction_row:
  "tx_by_id i (db w) \<noteq> None \<Longrightarrow>
   \<exists>t. tx_by_id i (db (snd (DatabaseService_updateTransaction i ty amt note cat w))) = Some t
     \<and> t_synced t = 0 \<and> t_updated_at t = Some (clock w (ticks w))"
  by (auto simp: DatabaseService_updateTransaction_def read_clock_def tx_by_id_update_same
      Let_def)

lemma deleteTransaction_row:
  "tx_by_id i (db w) \<noteq> None \<Longrightarrow>
   \<exists>t. tx_by_id i (db (DatabaseService_deleteTransaction i w)) = Some t
     \<and> t_synced t = 0 \<and> t_deleted t = 1 \<and> t_updated_at t = Some (clock w (ticks w))"
  by (auto simp: DatabaseService_deleteTransaction_def read_clock_def tx_by_id_update_same)

text \<open>
  C7, as the claim states it, fails for the two creating operations: \<open>createBook\<close> (and
  \<open>addTransaction\<close>) insert no \<open>updated_at\<close>. Creating the book "Budget" in the sample
  store at clock reading 1000 gives row 2 with \<open>synced = 0\<close> and \<open>updated_at\<close> null.
\<close>

theorem createBook_leaves_updated_at_null:
  "fst (DatabaseService_createBook ''Budget'' sample_world) = 2
   \<and> clock sample_world (ticks sample_world) = 1000
   \<and> map_option b_updated_at
        (book_by_id 2 (db (snd (DatabaseService_createBook ''Budget'' sample_world)))) = Some None
   \<and> map_option b_updated_at
        (book_by_id 2 (db (snd (DatabaseService_createBook ''Budget'' sample_world))))
       \<noteq> Some (Some 1000)"
  by (simp add: DatabaseService_createBook_def read_clock_def sample_world_def sample_db_def
      sample_book_def sample_clock_def insert_book_row_def next_rowid_def book_by_id_def)

text \<open>
  C7, amended. Every local mutation leaves the row unsynced (\<open>synced = 0\<close>) and dated
  with the time of the mutation in the timestamp the engine compares, which is
  \<open>updated_at\<close> or, when that is null, \<open>created_at\<close>: \<open>updateBook\<close>,
  \<open>updateTransaction\<close>, \<open>deleteBook\<close> and \<open>deleteTransaction\<close> set \<open>updated_at\<close> to
  the time of the mutation on the row they address; \<open>createBook\<close> and \<open>addTransaction\<close>
  (when the insert is accepted) set \<open>created_at\<close> to it and leave \<open>updated_at\<close> null.
\<close>

theorem local_mutation_marks_unsynced_and_dates:
  "(\<exists>b. book_by_id (fst (DatabaseService_createBook name w))
           (db (snd (DatabaseService_createBook name w))) = Some b
      \<and> b_synced b = 0 \<and> b_updated_at b = None \<and> book_local_updated b = clock w (ticks w))
   \<and> (\<not> fk_violated (IntKey bookId) (db w) \<longrightarrow>
        (\<exists>j w' t. DatabaseService_addTransaction bookId ty amt note cat w = (Inr j, w')
           \<and> tx_by_id j (db w') = Some t \<and> t_synced t = 0 \<and> t_updated_at t = None
           \<and> tx_local_updated t = clock w (ticks w)))
   \<and> (book_by_id i (db w) \<noteq> None \<longrightarrow>
        (\<exists>b. book_by_id i (db (DatabaseService_updateBook i name w)) = Some b
           \<and> b_synced b = 0 \<and> b_updated_at b = Some (clock w (ticks w))))
   \<and> (book_by_id i (db w) \<noteq> None \<longrightarrow>
        (\<exists>b. book_by_id i (db (DatabaseService_deleteBook i w)) = Some b
           \<and> b_synced b = 0 \<and> b_deleted b = 1 \<and> b_updated_at b = Some (clock w (ticks w))))
   \<and> (tx_by_id k (db w) \<noteq> None \<longrightarrow>
        (\<exists>t. tx_by_id k (db (snd (DatabaseService_updateTransaction k ty amt note cat w))) = Some t
           \<and> t_synced t = 0 \<and> t_updated_at t = Some (clock w (ticks w))))
   \<and> (tx_by_id k (db w) \<noteq> None \<longrightarrow>
        (\<exists>t. tx_by_id k (db (DatabaseService_deleteTransaction k w)) = Some t
           \<and> t_synced t = 0 \<and> t_deleted t = 1 \<and> t_updated_at t = Some (clock w (ticks w))))"
proof (intro conjI impI)
  show "\<exists>b. book_by_id (fst (DatabaseService_createBook name w))
           (db (snd (DatabaseService_createBook name w))) = Some b
      \<and> b_synced b = 0 \<and> b_updated_at b = None \<and> book_local_updated b = clock w (ticks w)"
    using createBook_row [of name w] by blast
next
  assume nofk: "\<not> fk_violated (IntKey bookId) (db w)"
  from addTransaction_row [OF nofk]
  show "\<exists>j w' t. DatabaseService_addTransaction bookId ty amt note cat w = (Inr j, w')
           \<and> tx_by_id j (db w') = Some t \<and> t_synced t = 0 \<and> t_updated_at t = None
           \<and> tx_local_updated t = clock w (ticks w)"
    by blast
next
  assume "book_by_id i (db w) \<noteq> None"
  then show "\<exists>b. book_by_id i (db (DatabaseService_updateBook i name w)) = Some b
           \<and> b_synced b = 0 \<and> b_updated_at b = Some (clock w (ticks w))"
    by (rule updateBook_row)
next
  assume "book_by_id i (db w) \<noteq> None"
  then show "\<exists>b. book_by_id i (db (DatabaseService_deleteBook i w)) = Some b
           \<and> b_synced b = 0 \<and> b_deleted b = 1 \<and> b_updated_at b = Some (clock w (ticks w))"
    by (rule deleteBook_row)
next
  assume "tx_by_id k (db w) \<noteq> None"
  then show "\<exists>t. tx_by_id k (db (snd (DatabaseService_updateTransaction k ty amt note cat w))) = Some t
           \<and> t_synced t = 0 \<and> t_updated_at t = Some (clock w (ticks w))"
    by (rule updateTransaction_row)
next
  assume "tx_by_id k (db w) \<noteq> None"
  then show "\<exists>t. tx_by_id k (db (DatabaseService_deleteTransaction k w)) = Some t
           \<and> t_synced t = 0 \<and> t_deleted t = 1 \<and> t_updated_at t = Some (clock w (ticks w))"
    by (rule deleteTransaction_row)
qed

theorem local_mutation_marks_unsynced_and_dates_witness:
  "\<not> fk_violated (IntKey 1) (db sample_world)
   \<and> book_by_id 1 (db sample_world) \<noteq> None
   \<and> tx_by_id 1 (db sample_world) \<noteq> None
   \<and> clock sample_world (ticks sample_world) = 1000
   \<and> (\<exists>b. book_by_id 1 (db (DatabaseService_updateBook 1 ''Household'' sample_world)) = Some b
        \<and> b_synced b = 0 \<and> b_updated_at b = Some 1000)
   \<and> (\<exists>t. tx_by_id 1 (db (DatabaseService_deleteTransaction 1 sample_world)) = Some t
        \<and> t_synced t = 0 \<and> t_deleted t = 1 \<and> t_updated_at t = Some 1000)
   \<and> (\<exists>j w' t. DatabaseService_addTransaction 1 ''income'' 7 None None sample_world = (Inr j, w')
        \<and> tx_by_id j (db w') = Some t \<and> t_synced t = 0 \<and> t_updated_at t = None
        \<and> tx_local_updated t = 1000)"
proof -
  have fk: "\<not> fk_violated (IntKey 1) (db sample_world)"
    by (simp add: fk_violated_def sample_world_def sample_db_def sample_book_def)
  have bk: "book_by_id 1 (db sample_world) \<noteq> None"
    by (simp add: book_by_id_def sample_world_def sample_db_def sample_book_def)
  have tx: "tx_by_id 1 (db sample_world) \<noteq> None"
    by (simp add: tx_by_id_def sample_world_def sample_db_def sample_tx_def)
  have ck: "clock sample_world (ticks sample_world) = 1000"
    by (simp add: sample_world_def sample_clock_def)
  show ?thesis
    using fk bk tx ck
      local_mutation_marks_unsynced_and_dates [of "''Household''" sample_world 1 "''income''" 7
        None None 1 1]
    by simp
qed

section \<open>One row followed through pull, resolve and push\<close>

lemma find_Some_unique:
  "x \<in> set xs \<Longrightarrow> P x \<Longrightarrow> (\<forall>y \<in> set xs. P y \<longrightarrow> y = x) \<Longrightarrow> find P xs = Some x"
proof (induction xs)
  case Nil
  then show ?case by simp
next
  case (Cons a xs)
  show ?case
  proof (cases "P a")
    case True
    have "a \<in> set (a # xs)" by simp
    with Cons.prems(3) True have "a = x" by blast
    then show ?thesis using True by simp
  next
    case False
    have "x \<noteq> a" using False Cons.prems(2) by blast
    with Cons.prems(1) have "x \<in> set xs" by simp
    moreover have "\<forall>y \<in> set xs. P y \<longrightarrow> y = x" using Cons.prems(3) by simp
    ultimately have "find P xs = Some x" using Cons.IH Cons.prems(2) by blast
    then show ?thesis using False by simp
  qed
qed

lemma distinct_map_eq:
  "distinct (map f xs) \<Longrightarrow> x \<in> set xs \<Longrightarrow> y \<in> set xs \<Longrightarrow> f x = f y \<Longrightarrow> x = y"
  by (simp add: distinct_map inj_on_def)

lemma books_inv_unique_sync:
  assumes "books_inv i s L bs" "y \<in> set bs" "b_sync_id y = Some s"
  shows "y = L"
proof -
  have "b_id y = i" "b_id L = i" using assms unfolding books_inv_def by blast+
  then have "b_id y = b_id L" by simp
  moreover have "distinct (map b_id bs)" "L \<in> set bs"
    using assms(1) unfolding books_inv_def by blast+
  ultimately show ?thesis using assms(2) distinct_map_eq [of b_id bs y L] by blast
qed

lemma books_inv_unique_id:
  assumes "books_inv i s L bs" "y \<in> set bs" "b_id y = i"
  shows "y = L"
proof -
  have "b_id y = i" "b_id L = i" using assms unfolding books_inv_def by blast+
  then have "b_id y = b_id L" by simp
  moreover have "distinct (map b_id bs)" "L \<in> set bs"
    using assms(1) unfolding books_inv_def by blast+
  ultimately show ?thesis using assms(2) distinct_map_eq [of b_id bs y L] by blast
qed

lemma book_inv_by_sync_id:
  assumes "book_inv i s L d"
  shows "book_by_sync_id s d = Some L"
  unfolding book_by_sync_id_def
proof (rule find_Some_unique)
  show "L \<in> set (books d)" "b_sync_id L = Some s"
    using assms unfolding book_inv_def books_inv_def by simp_all
  show "\<forall>y \<in> set (books d). b_sync_id y = Some s \<longrightarrow> y = L"
    using books_inv_unique_sync assms unfolding book_inv_def by blast
qed

lemma book_inv_by_id:
  assumes "book_inv i s L d"
  shows "book_by_id i d = Some L"
  unfolding book_by_id_def
proof (rule find_Some_unique)
  show "L \<in> set (books d)" "b_id L = i"
    using assms unfolding book_inv_def books_inv_def by simp_all
  show "\<forall>y \<in> set (books d). b_id y = i \<longrightarrow> y = L"
    using books_inv_unique_id assms unfolding book_inv_def by blast
qed

lemma find_SomeD: "find P xs = Some x \<Longrightarrow> x \<in> set xs \<and> P x"
  by (induction xs) (auto split: if_splits)

lemma books_inv_map:
  assumes inv: "books_inv i s L bs"
    and gid: "\<And>b. b_id (g b) = b_id b" and gs: "\<And>b. b_sync_id (g b) = b_sync_id b"
  shows "books_inv i s (g L) (map g bs)"
proof -
  have "b_id \<circ> g = b_id" by (rule ext) (simp add: gid)
  then have ids: "map b_id (map g bs) = map b_id bs"
    by simp
  have "distinct (map b_id bs)" using inv unfolding books_inv_def by simp
  then have d1: "distinct (map b_id (map g bs))" by (simp only: ids)
  have d2: "\<forall>b \<in> set (map g bs). b_sync_id b = Some s \<longrightarrow> b_id b = i"
  proof
    fix b assume "b \<in> set (map g bs)"
    then obtain x where x: "x \<in> set bs" "b = g x" by (auto simp: image_iff)
    have "b_sync_id x = Some s \<longrightarrow> b_id x = i" using inv x(1) unfolding books_inv_def by blast
    then show "b_sync_id b = Some s \<longrightarrow> b_id b = i"
      by (simp only: x(2) gid gs)
  qed
  have "L \<in> set bs" using inv unfolding books_inv_def by simp
  then have d3: "g L \<in> set (map g bs)" by simp
  have "b_id L = i" "b_sync_id L = Some s" using inv unfolding books_inv_def by simp_all
  then have d4: "b_id (g L) = i" "b_sync_id (g L) = Some s"
    by (simp_all only: gid gs)
  show ?thesis unfolding books_inv_def by (intro conjI d1 d2 d3 d4)
qed

lemma book_inv_update_other:
  assumes inv: "book_inv i s L d" and j: "j \<noteq> i"
    and fid: "\<And>b. b_id (f b) = b_id b" and fs: "\<And>b. b_sync_id (f b) = b_sync_id b"
  shows "book_inv i s L (update_books_where_id j f d)"
proof -
  have "books_inv i s ((\<lambda>b. if b_id b = j then f b else b) L)
      (map (\<lambda>b. if b_id b = j then f b else b) (books d))"
    by (rule books_inv_map [OF inv [unfolded book_inv_def]]) (simp_all add: fid fs)
  moreover have "b_id L = i" using inv unfolding book_inv_def books_inv_def by simp
  ultimately show ?thesis using j unfolding update_books_where_id_def book_inv_def by simp
qed

lemma book_inv_update_self:
  assumes inv: "book_inv i s L d"
    and fid: "\<And>b. b_id (f b) = b_id b" and fs: "\<And>b. b_sync_id (f b) = b_sync_id b"
  shows "book_inv i s (f L) (update_books_where_id i f d)"
proof -
  have "books_inv i s ((\<lambda>b. if b_id b = i then f b else b) L)
      (map (\<lambda>b. if b_id b = i then f b else b) (books d))"
    by (rule books_inv_map [OF inv [unfolded book_inv_def]]) (simp_all add: fid fs)
  moreover have "b_id L = i" using inv unfolding book_inv_def books_inv_def by simp
  ultimately show ?thesis unfolding update_books_where_id_def book_inv_def by simp
qed

lemma book_inv_insert:
  assumes inv: "book_inv i s L d" and b: "b_sync_id b \<noteq> Some s"
  shows "book_inv i s L (insert_book_row b d)"
proof -
  let ?n = "next_rowid (map b_id (books d))"
  let ?kept = "filter (\<lambda>x. b_sync_id x = None \<or> b_sync_id x \<noteq> b_sync_id b) (books d)"
  have bs: "books (insert_book_row b d) = ?kept @ [b\<lparr>b_id := ?n\<rparr>]"
    by (simp add: insert_book_row_def)
  have fresh: "?n \<notin> set (map b_id ?kept)"
    using next_rowid_fresh [of _ "map b_id (books d)"] by fastforce
  have d0: "distinct (map b_id ?kept)"
    using inv unfolding book_inv_def books_inv_def by (simp add: distinct_map_filter)
  have d1: "distinct (map b_id (?kept @ [b\<lparr>b_id := ?n\<rparr>]))"
    using fresh d0 by simp
  have "L \<in> set (books d)" "b_sync_id L = Some s"
    using inv unfolding book_inv_def books_inv_def by simp_all
  then have L: "L \<in> set ?kept" using b by simp
  then have d3: "L \<in> set (?kept @ [b\<lparr>b_id := ?n\<rparr>])" by simp
  have d2: "\<forall>x \<in> set (?kept @ [b\<lparr>b_id := ?n\<rparr>]). b_sync_id x = Some s \<longrightarrow> b_id x = i"
  proof
    fix x assume "x \<in> set (?kept @ [b\<lparr>b_id := ?n\<rparr>])"
    then have "x \<in> set ?kept \<or> x = b\<lparr>b_id := ?n\<rparr>"
      unfolding set_append by (elim UnE) simp_all
    then show "b_sync_id x = Some s \<longrightarrow> b_id x = i"
    proof
      assume "x \<in> set ?kept"
      then have "x \<in> set (books d)" by simp
      then show ?thesis using inv unfolding book_inv_def books_inv_def by blast
    next
      assume "x = b\<lparr>b_id := ?n\<rparr>"
      then show ?thesis using b by simp
    qed
  qed
  have d4: "b_id L = i" "b_sync_id L = Some s"
    using inv unfolding book_inv_def books_inv_def by simp_all
  show ?thesis unfolding book_inv_def bs books_inv_def by (intro conjI d1 d2 d3 d4)
qed

lemma track_book_idem: "track_book R (track_book R X) = track_book R X"
  by (simp add: track_book_def apply_remote_book_def book_local_updated_def)

lemma apply_remote_book_keeps:
  "b_id (apply_remote_book R b) = b_id b" "b_sync_id (apply_remote_book R b) = b_sync_id b"
  by (simp_all add: apply_remote_book_def)

lemma apply_remote_book_eq:
  "(\<lambda>b. b\<lparr>b_name := rb_name R, b_updated_at := Some (rb_updated_at R), b_synced := 1\<rparr>)
     = apply_remote_book R"
  by (rule ext) (simp add: apply_remote_book_def)

lemma pull_book_step:
  assumes inv: "book_inv i s X d" and uniq: "rb_id rb = s \<longrightarrow> rb = R"
  shows "\<exists>d' extra. pull_book rb (d, cs) = (d', cs @ extra)
    \<and> book_inv i s (if rb_id rb = s then track_book R X else X) d'
    \<and> (\<forall>c \<in> set extra. book_conflict_ok i R c)
    \<and> (rb_id rb = s \<and> rb_updated_at R < book_local_updated X \<longrightarrow>
          extra = [BookConflict i s X R (book_local_updated X) (rb_updated_at R)])"
proof (cases "rb_id rb = s")
  case True
  then have rb: "rb = R" using uniq by simp
  have look: "book_by_sync_id (rb_id R) d = Some X"
    using book_inv_by_sync_id [OF inv] True rb by simp
  have idX: "b_id X = i" using inv unfolding book_inv_def books_inv_def by simp
  show ?thesis
  proof (cases "rb_updated_at R < book_local_updated X")
    case c: True
    have "pull_book rb (d, cs) = (d, cs @ [BookConflict i s X R (book_local_updated X) (rb_updated_at R)])"
      using look c rb True idX by (simp add: pull_book_def Let_def)
    moreover have "book_inv i s (track_book R X) d" using inv c by (simp add: track_book_def)
    ultimately show ?thesis using True c by simp
  next
    case c: False
    have "pull_book rb (d, cs) = (update_books_where_id i (apply_remote_book R) d, cs @ [])"
      using look c rb idX by (simp add: pull_book_def Let_def apply_remote_book_eq)
    moreover have "book_inv i s (track_book R X) (update_books_where_id i (apply_remote_book R) d)"
      using book_inv_update_self [OF inv, of "apply_remote_book R"] c
      by (simp add: track_book_def apply_remote_book_keeps)
    ultimately show ?thesis using True c by simp
  qed
next
  case False
  show ?thesis
  proof (cases "book_by_sync_id (rb_id rb) d")
    case None
    have "pull_book rb (d, cs) =
      (insert_book_row
         \<lparr>b_id = 0, b_name = rb_name rb, b_created_at = rb_created_at rb,
          b_updated_at = Some (rb_updated_at rb), b_synced = 1,
          b_sync_id = Some (rb_id rb), b_last_synced = None, b_is_dirty = 1,
          b_deleted = 0\<rparr> d, cs @ [])"
      using None by (simp add: pull_book_def)
    moreover have "book_inv i s X (insert_book_row
         \<lparr>b_id = 0, b_name = rb_name rb, b_created_at = rb_created_at rb,
          b_updated_at = Some (rb_updated_at rb), b_synced = 1,
          b_sync_id = Some (rb_id rb), b_last_synced = None, b_is_dirty = 1,
          b_deleted = 0\<rparr> d)"
      by (rule book_inv_insert [OF inv]) (use False in simp)
    ultimately show ?thesis using False by simp
  next
    case (Some b')
    then have b': "b' \<in> set (books d)" "b_sync_id b' = Some (rb_id rb)"
      using find_SomeD [of "\<lambda>b. b_sync_id b = Some (rb_id rb)" "books d" b']
      unfolding book_by_sync_id_def by simp_all
    have ne: "b_id b' \<noteq> i"
    proof
      assume "b_id b' = i"
      then have "b' = X" using books_inv_unique_id inv b'(1) unfolding book_inv_def by blast
      moreover have "b_sync_id X = Some s" using inv unfolding book_inv_def books_inv_def by simp
      ultimately show False using b'(2) False by simp
    qed
    show ?thesis
    proof (cases "rb_updated_at rb < book_local_updated b'")
      case c: True
      have "pull_book rb (d, cs) =
        (d, cs @ [BookConflict (b_id b') (rb_id rb) b' rb (book_local_updated b') (rb_updated_at rb)])"
        using Some c by (simp add: pull_book_def Let_def)
      then show ?thesis using False inv ne by simp
    next
      case c: False
      have "pull_book rb (d, cs) = (update_books_where_id (b_id b') (apply_remote_book rb) d, cs @ [])"
        using Some c by (simp add: pull_book_def Let_def apply_remote_book_eq)
      moreover have "book_inv i s X (update_books_where_id (b_id b') (apply_remote_book rb) d)"
        by (rule book_inv_update_other [OF inv ne]) (simp_all add: apply_remote_book_keeps)
      ultimately show ?thesis using False by simp
    qed
  qed
qed

lemma pull_books_track:
  assumes inv: "book_inv i s X d" and uniq: "\<forall>rb \<in> set rbs. rb_id rb = s \<longrightarrow> rb = R"
  shows "\<exists>d' extra. fold pull_book rbs (d, cs) = (d', cs @ extra)
    \<and> book_inv i s (if s \<in> rb_id ` set rbs then track_book R X else X) d'
    \<and> (\<forall>c \<in> set extra. book_conflict_ok i R c)
    \<and> (s \<in> rb_id ` set rbs \<and> rb_updated_at R < book_local_updated X \<longrightarrow>
          BookConflict i s X R (book_local_updated X) (rb_updated_at R) \<in> set extra)"
  using inv uniq
proof (induction rbs arbitrary: d cs X)
  case Nil
  then show ?case by simp
next
  case (Cons rb rbs)
  let ?X1 = "if rb_id rb = s then track_book R X else X"
  have u1: "rb_id rb = s \<longrightarrow> rb = R" using Cons.prems(2) by simp
  have u2: "\<forall>rb \<in> set rbs. rb_id rb = s \<longrightarrow> rb = R" using Cons.prems(2) by simp
  from pull_book_step [OF Cons.prems(1) u1, of cs]
  obtain d1 e1 where st: "pull_book rb (d, cs) = (d1, cs @ e1)"
    and inv1: "book_inv i s ?X1 d1"
    and ok1: "\<forall>c \<in> set e1. book_conflict_ok i R c"
    and c1: "rb_id rb = s \<and> rb_updated_at R < book_local_updated X \<longrightarrow>
          e1 = [BookConflict i s X R (book_local_updated X) (rb_updated_at R)]"
    by blast
  from Cons.IH [OF inv1 u2, of "cs @ e1"]
  obtain d2 e2 where fd: "fold pull_book rbs (d1, cs @ e1) = (d2, (cs @ e1) @ e2)"
    and inv2: "book_inv i s (if s \<in> rb_id ` set rbs then track_book R ?X1 else ?X1) d2"
    and ok2: "\<forall>c \<in> set e2. book_conflict_ok i R c"
    and c2: "s \<in> rb_id ` set rbs \<and> rb_updated_at R < book_local_updated ?X1 \<longrightarrow>
          BookConflict i s ?X1 R (book_local_updated ?X1) (rb_updated_at R) \<in> set e2"
    by blast
  have f: "fold pull_book (rb # rbs) (d, cs) = (d2, cs @ (e1 @ e2))"
    using st fd by simp
  have x: "(if s \<in> rb_id ` set rbs then track_book R ?X1 else ?X1)
      = (if s \<in> rb_id ` set (rb # rbs) then track_book R X else X)"
    by (simp add: track_book_idem)
  have inv3: "book_inv i s (if s \<in> rb_id ` set (rb # rbs) then track_book R X else X) d2"
    using inv2 unfolding x .
  have ok3: "\<forall>c \<in> set (e1 @ e2). book_conflict_ok i R c"
    using ok1 ok2 by auto
  have c3: "s \<in> rb_id ` set (rb # rbs) \<and> rb_updated_at R < book_local_updated X \<longrightarrow>
          BookConflict i s X R (book_local_updated X) (rb_updated_at R) \<in> set (e1 @ e2)"
  proof (intro impI, elim conjE)
    assume m: "s \<in> rb_id ` set (rb # rbs)" and c: "rb_updated_at R < book_local_updated X"
    show "BookConflict i s X R (book_local_updated X) (rb_updated_at R) \<in> set (e1 @ e2)"
    proof (cases "rb_id rb = s")
      case True
      then show ?thesis using c1 c by simp
    next
      case False
      then have "s \<in> rb_id ` set rbs" using m by auto
      then show ?thesis using c2 False c by simp
    qed
  qed
  show ?case using f inv3 ok3 c3 by blast
qed

lemma pull_book_frame:
  "transactions (fst (pull_book rb (d, cs))) = transactions d
   \<and> user_preferences (fst (pull_book rb (d, cs))) = user_preferences d
   \<and> foreign_keys (fst (pull_book rb (d, cs))) = foreign_keys d"
  by (simp add: pull_book_def Let_def update_books_where_id_def insert_book_row_def
      split: option.splits)

lemma pull_books_frame:
  "transactions (fst (fold pull_book rbs (d, cs))) = transactions d
   \<and> user_preferences (fst (fold pull_book rbs (d, cs))) = user_preferences d
   \<and> foreign_keys (fst (fold pull_book rbs (d, cs))) = foreign_keys d"
proof (induction rbs arbitrary: d cs)
  case Nil
  show ?case by simp
next
  case (Cons rb rbs)
  obtain d1 cs1 where st: "pull_book rb (d, cs) = (d1, cs1)" by (cases "pull_book rb (d, cs)")
  have "transactions d1 = transactions d \<and> user_preferences d1 = user_preferences d
      \<and> foreign_keys d1 = foreign_keys d"
    using pull_book_frame [of rb d cs] st by simp
  then show ?case using Cons.IH [of d1 cs1] st by simp
qed

lemma pull_tx_frame:
  "\<exists>extra. pull_tx r d cs = (fst (pull_tx r d cs), fst (snd (pull_tx r d cs)), cs @ extra)
     \<and> (\<forall>c \<in> set extra. is_tx_conflict c)
     \<and> books (fst (snd (pull_tx r d cs))) = books d
     \<and> user_preferences (fst (snd (pull_tx r d cs))) = user_preferences d
     \<and> foreign_keys (fst (snd (pull_tx r d cs))) = foreign_keys d"
  by (simp add: pull_tx_def Let_def update_transactions_where_id_def insert_tx_row_def
      split: option.splits)

lemma pull_transactions_frame:
  "\<exists>extra. pull_transactions rs d cs
       = (fst (pull_transactions rs d cs), fst (snd (pull_transactions rs d cs)), cs @ extra)
     \<and> (\<forall>c \<in> set extra. is_tx_conflict c)
     \<and> books (fst (snd (pull_transactions rs d cs))) = books d
     \<and> user_preferences (fst (snd (pull_transactions rs d cs))) = user_preferences d
     \<and> foreign_keys (fst (snd (pull_transactions rs d cs))) = foreign_keys d"
proof (induction rs arbitrary: d cs)
  case Nil
  show ?case by simp
next
  case (Cons r rs)
  obtain e d1 cs1 where st: "pull_tx r d cs = (e, d1, cs1)" by (cases "pull_tx r d cs") auto
  from pull_tx_frame [of r d cs] st
  obtain e1 where a: "cs1 = cs @ e1" "\<forall>c \<in> set e1. is_tx_conflict c" "books d1 = books d"
    "user_preferences d1 = user_preferences d" "foreign_keys d1 = foreign_keys d"
    by auto
  show ?case
  proof (cases e)
    case (Some err)
    then show ?thesis using st a by simp
  next
    case None
    from Cons.IH [of d1 cs1]
    obtain e2 where b: "pull_transactions rs d1 cs1
        = (fst (pull_transactions rs d1 cs1), fst (snd (pull_transactions rs d1 cs1)), cs1 @ e2)"
      "\<forall>c \<in> set e2. is_tx_conflict c"
      "books (fst (snd (pull_transactions rs d1 cs1))) = books d1"
      "user_preferences (fst (snd (pull_transactions rs d1 cs1))) = user_preferences d1"
      "foreign_keys (fst (snd (pull_transactions rs d1 cs1))) = foreign_keys d1"
      by blast
    have eq: "pull_transactions (r # rs) d cs = pull_transactions rs d1 cs1"
      using st None by simp
    have "pull_transactions (r # rs) d cs
        = (fst (pull_transactions (r # rs) d cs), fst (snd (pull_transactions (r # rs) d cs)),
           cs @ (e1 @ e2))"
      unfolding eq using b(1) a(1) by (metis append.assoc)
    moreover have "\<forall>c \<in> set (e1 @ e2). is_tx_conflict c" using a(2) b(2) by auto
    ultimately show ?thesis unfolding eq using a b by metis
  qed
qed

lemma begin_request_tables:
  "r_books (snd (begin_request r)) = r_books r"
  "r_transactions (snd (begin_request r)) = r_transactions r"
  by (simp_all add: begin_request_def split: list.splits)

lemma select_books_Some:
  assumes "select_books u c r = (Some rbs, r1)"
  shows "rbs = filter (\<lambda>b. rb_user_id b = u \<and> c < rb_updated_at b) (r_books r)"
    and "r_transactions r1 = r_transactions r" and "r_books r1 = r_books r"
  using assms begin_request_tables [of r]
  by (auto simp: select_books_def Let_def case_prod_beta split: if_splits)

lemma select_transactions_Some:
  assumes "select_transactions u c r = (Some rts, r1)"
  shows "rts = filter (\<lambda>t. rt_user_id t = u \<and> c < rt_updated_at t) (r_transactions r)"
    and "r_transactions r1 = r_transactions r" and "r_books r1 = r_books r"
  using assms begin_request_tables [of r]
  by (auto simp: select_transactions_def Let_def case_prod_beta split: if_splits)

lemma pullFromServer_Inr:
  assumes "pullFromServer u w = (Inr res, w')"
  shows "\<exists>rbs r1 rts r2.
      select_books u (books_cursor w) (remote w) = (Some rbs, r1)
    \<and> select_transactions u (transactions_cursor w) r1 = (Some rts, r2)
    \<and> pull_transactions rts (fst (fold pull_book rbs (db w, [])))
          (snd (fold pull_book rbs (db w, []))) = (None, db w', conflicts res)
    \<and> w' = w\<lparr>db := db w', remote := r2\<rparr>
    \<and> booksCount res = length rbs \<and> transactionsCount res = length rts
    \<and> hasNewData res = (0 < length rbs \<or> 0 < length rts)"
  using assms
  by (auto simp: pullFromServer_def Let_def books_cursor_def transactions_cursor_def
      split: prod.splits option.splits)

lemma book_inv_cong: "books d' = books d \<Longrightarrow> book_inv i s X d' = book_inv i s X d"
  by (simp add: book_inv_def)

lemma tx_conflict_ok: "is_tx_conflict c \<Longrightarrow> book_conflict_ok i R c"
  by (cases c) simp_all

lemma pullFromServer_tracks_book:
  assumes inv: "book_inv i s X (db w)"
    and R: "R \<in> set (r_books (remote w))" "rb_id R = s" "rb_user_id R = u"
    and fetched: "books_cursor w < rb_updated_at R"
    and uniq: "\<forall>rb \<in> set (r_books (remote w)). rb_id rb = s \<longrightarrow> rb = R"
    and res: "pullFromServer u w = (Inr res, w')"
  shows "book_inv i s (track_book R X) (db w')
    \<and> (\<forall>c \<in> set (conflicts res). book_conflict_ok i R c)
    \<and> (rb_updated_at R < book_local_updated X \<longrightarrow>
          BookConflict i s X R (book_local_updated X) (rb_updated_at R) \<in> set (conflicts res))"
proof -
  from pullFromServer_Inr [OF res]
  obtain rbs r1 rts r2 where
    sb: "select_books u (books_cursor w) (remote w) = (Some rbs, r1)"
    and pt: "pull_transactions rts (fst (fold pull_book rbs (db w, [])))
          (snd (fold pull_book rbs (db w, []))) = (None, db w', conflicts res)"
    by blast
  have rbs: "rbs = filter (\<lambda>b. rb_user_id b = u \<and> books_cursor w < rb_updated_at b) (r_books (remote w))"
    using select_books_Some(1) [OF sb] .
  have mem: "R \<in> set rbs" using R fetched unfolding rbs by simp
  then have sin: "s \<in> rb_id ` set rbs" using R(2) by force
  have u': "\<forall>rb \<in> set rbs. rb_id rb = s \<longrightarrow> rb = R" using uniq unfolding rbs by simp
  from pull_books_track [OF inv u', of "[]"]
  obtain d1 e1 where fd: "fold pull_book rbs (db w, []) = (d1, [] @ e1)"
    and inv1: "book_inv i s (if s \<in> rb_id ` set rbs then track_book R X else X) d1"
    and ok1: "\<forall>c \<in> set e1. book_conflict_ok i R c"
    and c1: "s \<in> rb_id ` set rbs \<and> rb_updated_at R < book_local_updated X \<longrightarrow>
          BookConflict i s X R (book_local_updated X) (rb_updated_at R) \<in> set e1"
    by blast
  have inv1': "book_inv i s (track_book R X) d1" using inv1 sin by simp
  from pull_transactions_frame [of rts d1 e1]
  obtain e2 where fr: "pull_transactions rts d1 e1
       = (fst (pull_transactions rts d1 e1), fst (snd (pull_transactions rts d1 e1)), e1 @ e2)"
     and ok2: "\<forall>c \<in> set e2. is_tx_conflict c"
     and bk: "books (fst (snd (pull_transactions rts d1 e1))) = books d1"
    by blast
  have pt': "pull_transactions rts d1 e1 = (None, db w', conflicts res)"
    using pt fd by simp
  have dbw: "books (db w') = books d1" using bk pt' by simp
  have cs: "conflicts res = e1 @ e2" using fr pt' by simp
  have a: "book_inv i s (track_book R X) (db w')"
    using inv1' book_inv_cong [OF dbw, of i s "track_book R X"] by blast
  have b: "\<forall>c \<in> set (conflicts res). book_conflict_ok i R c"
    unfolding cs using ok1 ok2 tx_conflict_ok by auto
  have c: "rb_updated_at R < book_local_updated X \<longrightarrow>
          BookConflict i s X R (book_local_updated X) (rb_updated_at R) \<in> set (conflicts res)"
    unfolding cs using c1 sin by simp
  show ?thesis using a b c by blast
qed

lemma apply_remote_book_idem:
  "apply_remote_book R (apply_remote_book R b) = apply_remote_book R b"
  by (simp add: apply_remote_book_def)

lemma resolve_conflict_book:
  assumes inv: "book_inv i s X d" and ok: "book_conflict_ok i R c"
  shows "book_inv i s (if conflict_hits_book i c then apply_remote_book R X else X)
           (resolve_conflict c d)"
proof (cases c)
  case (BookConflict j rid lb rb lu ru)
  show ?thesis
  proof (cases "j = i")
    case True
    then have "rb = R" using ok BookConflict by simp
    then have "resolve_conflict c d = update_books_where_id i (apply_remote_book R) d"
      using BookConflict True by (simp add: apply_remote_book_eq)
    then show ?thesis
      using book_inv_update_self [OF inv, of "apply_remote_book R"] BookConflict True
      by (simp add: apply_remote_book_keeps)
  next
    case False
    have "resolve_conflict c d = update_books_where_id j (apply_remote_book rb) d"
      using BookConflict by (simp add: apply_remote_book_eq)
    moreover have "book_inv i s X (update_books_where_id j (apply_remote_book rb) d)"
      by (rule book_inv_update_other [OF inv False]) (simp_all add: apply_remote_book_keeps)
    ultimately show ?thesis using BookConflict False by simp
  qed
next
  case (TransactionConflict j rid lt rt lu ru)
  then have "books (resolve_conflict c d) = books d"
    by (simp add: update_transactions_where_id_def)
  then have "book_inv i s X (resolve_conflict c d)"
    using inv book_inv_cong [of "resolve_conflict c d" d i s X] by blast
  then show ?thesis using TransactionConflict by simp
qed

lemma resolve_conflicts_book:
  assumes inv: "book_inv i s X d" and ok: "\<forall>c \<in> set cs. book_conflict_ok i R c"
  shows "book_inv i s (if \<exists>c \<in> set cs. conflict_hits_book i c then apply_remote_book R X else X)
           (fold resolve_conflict cs d)"
  using inv ok
proof (induction cs arbitrary: d X)
  case Nil
  then show ?case by simp
next
  case (Cons c cs)
  let ?X1 = "if conflict_hits_book i c then apply_remote_book R X else X"
  have okc: "book_conflict_ok i R c" and oks: "\<forall>c \<in> set cs. book_conflict_ok i R c"
    using Cons.prems(2) by simp_all
  have inv1: "book_inv i s ?X1 (resolve_conflict c d)"
    by (rule resolve_conflict_book [OF Cons.prems(1) okc])
  have "book_inv i s (if \<exists>c \<in> set cs. conflict_hits_book i c then apply_remote_book R ?X1 else ?X1)
           (fold resolve_conflict cs (resolve_conflict c d))"
    by (rule Cons.IH [OF inv1 oks])
  moreover have "(if \<exists>c \<in> set cs. conflict_hits_book i c then apply_remote_book R ?X1 else ?X1)
      = (if \<exists>c \<in> set (c # cs). conflict_hits_book i c then apply_remote_book R X else X)"
    by (simp add: apply_remote_book_idem)
  ultimately show ?case by simp
qed

lemma books_inv_map_gen:
  assumes inv: "books_inv i s L bs"
    and gid: "\<And>b. b_id (g b) = b_id b"
    and gs: "\<And>b. b \<in> set bs \<Longrightarrow> b_sync_id (g b) = Some s \<Longrightarrow> b_id b = i"
    and gL: "g L = L"
  shows "books_inv i s L (map g bs)"
proof -
  have "b_id \<circ> g = b_id" by (rule ext) (simp add: gid)
  then have ids: "map b_id (map g bs) = map b_id bs"
    by simp
  have "distinct (map b_id bs)" using inv unfolding books_inv_def by simp
  then have d1: "distinct (map b_id (map g bs))" by (simp only: ids)
  have d2: "\<forall>b \<in> set (map g bs). b_sync_id b = Some s \<longrightarrow> b_id b = i"
  proof
    fix b assume "b \<in> set (map g bs)"
    then obtain x where x: "x \<in> set bs" "b = g x" by (auto simp: image_iff)
    have "b_sync_id (g x) = Some s \<longrightarrow> b_id x = i" using gs [OF x(1)] by blast
    then show "b_sync_id b = Some s \<longrightarrow> b_id b = i"
      by (simp only: x(2) gid)
  qed
  have "L \<in> set bs" using inv unfolding books_inv_def by simp
  then have "g L \<in> set (map g bs)" by simp
  then have d3: "L \<in> set (map g bs)" by (simp only: gL)
  have d4: "b_id L = i" "b_sync_id L = Some s" using inv unfolding books_inv_def by simp_all
  show ?thesis unfolding books_inv_def by (intro conjI d1 d2 d3 d4)
qed

lemma book_inv_set_sync_other:
  assumes inv: "book_inv i s X d" and j: "j \<noteq> i"
    and fid: "\<And>b. b_id (f b) = b_id b"
    and fs: "\<And>b. b_sync_id (f b) = Some e"
    and free: "\<not> book_sync_id_taken j e d"
  shows "book_inv i s X (update_books_where_id j f d)"
proof -
  let ?g = "\<lambda>b. if b_id b = j then f b else b"
  have X: "X \<in> set (books d)" "b_id X = i" "b_sync_id X = Some s"
    using inv unfolding book_inv_def books_inv_def by simp_all
  have gs: "b_id b = i" if b: "b \<in> set (books d)" and sy: "b_sync_id (?g b) = Some s" for b
  proof (cases "b_id b = j")
    case True
    then have es: "e = s" using sy fs [of b] by simp
    have t1: "\<exists>b \<in> set (books d). b_id b = j" using b True by blast
    have "b_id X \<noteq> j \<and> b_sync_id X = Some e" using X j es by simp
    then have t2: "\<exists>b \<in> set (books d). b_id b \<noteq> j \<and> b_sync_id b = Some e"
      using X(1) by blast
    have "book_sync_id_taken j e d"
      unfolding book_sync_id_taken_def using t1 t2 by blast
    then show ?thesis using free by simp
  next
    case False
    then have "b_sync_id b = Some s" using sy by simp
    then show ?thesis using inv b unfolding book_inv_def books_inv_def by blast
  qed
  have gL: "?g X = X" using X(2) j by simp
  have gid: "b_id (?g b) = b_id b" for b by (simp add: fid)
  have "books_inv i s X (map ?g (books d))"
    using inv [unfolded book_inv_def] gid gs gL
    by (rule books_inv_map_gen [where g = ?g])
  then show ?thesis unfolding update_books_where_id_def book_inv_def by simp
qed

lemma push_book_db_cases:
  "db (push_book u b w) = db w
   \<or> (\<exists>now. db (push_book u b w)
         = update_books_where_id (b_id b) (\<lambda>x. x\<lparr>b_synced := 1, b_updated_at := Some now\<rparr>) (db w))
   \<or> (\<exists>e. \<not> book_sync_id_taken (b_id b) e (db w)
         \<and> db (push_book u b w)
         = update_books_where_id (b_id b) (\<lambda>x. x\<lparr>b_synced := 1, b_sync_id := Some e\<rparr>) (db w))"
  by (auto simp: push_book_def read_clock_def Let_def case_prod_beta split: option.splits)

lemma push_book_keeps_book:
  assumes inv: "book_inv i s X (db w)" and ne: "b_id b \<noteq> i"
  shows "book_inv i s X (db (push_book u b w))"
proof -
  from push_book_db_cases [of u b w]
  consider (same) "db (push_book u b w) = db w"
    | (upd) now where "db (push_book u b w)
         = update_books_where_id (b_id b) (\<lambda>x. x\<lparr>b_synced := 1, b_updated_at := Some now\<rparr>) (db w)"
    | (sync) e where "\<not> book_sync_id_taken (b_id b) e (db w)"
        "db (push_book u b w)
         = update_books_where_id (b_id b) (\<lambda>x. x\<lparr>b_synced := 1, b_sync_id := Some e\<rparr>) (db w)"
    by blast
  then show ?thesis
  proof cases
    case same
    then show ?thesis using inv by simp
  next
    case upd
    have "book_inv i s X (update_books_where_id (b_id b)
        (\<lambda>x. x\<lparr>b_synced := 1, b_updated_at := Some now\<rparr>) (db w))"
      by (rule book_inv_update_other [OF inv ne]) simp_all
    then show ?thesis using upd by simp
  next
    case sync
    have "book_inv i s X (update_books_where_id (b_id b)
        (\<lambda>x. x\<lparr>b_synced := 1, b_sync_id := Some e\<rparr>) (db w))"
      by (rule book_inv_set_sync_other [OF inv ne _ _ sync(1)]) simp_all
    then show ?thesis using sync(2) by simp
  qed
qed

lemma push_books_keep_book:
  assumes inv: "book_inv i s X (db w)" and ne: "\<forall>b \<in> set bs. b_id b \<noteq> i"
  shows "book_inv i s X (db (fold (push_book u) bs w))"
  using inv ne
proof (induction bs arbitrary: w)
  case Nil
  then show ?case by simp
next
  case (Cons b bs)
  have "book_inv i s X (db (push_book u b w))"
    by (rule push_book_keeps_book [OF Cons.prems(1)]) (use Cons.prems(2) in simp)
  then show ?case using Cons.IH [of "push_book u b w"] Cons.prems(2) by simp
qed

lemma unsynced_books_skip_synced:
  assumes inv: "book_inv i s X d" and syn: "b_synced X = 1"
  shows "\<forall>b \<in> set (unsynced_books d). b_id b \<noteq> i"
proof
  fix b assume "b \<in> set (unsynced_books d)"
  then have b: "b \<in> set (books d)" "b_synced b = 0 \<or> b_sync_id b = None"
    unfolding unsynced_books_def by simp_all
  show "b_id b \<noteq> i"
  proof
    assume "b_id b = i"
    then have "b = X" using books_inv_unique_id inv b(1) unfolding book_inv_def by blast
    moreover have "b_sync_id X = Some s" using inv unfolding book_inv_def books_inv_def by simp
    ultimately show False using b(2) syn by simp
  qed
qed

lemma push_tx_books: "books (db (snd (push_tx u x w))) = books (db w)"
  by (cases x)
    (simp add: push_tx_def read_clock_def Let_def case_prod_beta update_transactions_where_id_def)

lemma push_transactions_books: "books (db (snd (push_transactions u xs w))) = books (db w)"
proof (induction xs arbitrary: w)
  case Nil
  show ?case by simp
next
  case (Cons x xs)
  obtain e w1 where st: "push_tx u x w = (e, w1)" by (cases "push_tx u x w")
  have b1: "books (db w1) = books (db w)" using push_tx_books [of u x w] st by simp
  show ?case
  proof (cases e)
    case None
    then show ?thesis using st Cons.IH [of w1] b1 by simp
  next
    case (Some err)
    then show ?thesis using st b1 by simp
  qed
qed

lemma setUserPreference_books: "books (db (setUserPreference k v w)) = books (db w)"
  by (simp add: setUserPreference_def read_clock_def)

lemma pushToServer_books:
  "books (db (snd (pushToServer u w)))
     = books (db (fold (push_book u) (unsynced_books (db w)) w))"
proof -
  let ?w1 = "fold (push_book u) (unsynced_books (db w)) w"
  obtain e w2 where pt: "push_transactions u (unsynced_transactions (db ?w1)) ?w1 = (e, w2)"
    by (cases "push_transactions u (unsynced_transactions (db ?w1)) ?w1")
  have b: "books (db w2) = books (db ?w1)"
    using push_transactions_books [of u "unsynced_transactions (db ?w1)" ?w1] pt by simp
  show ?thesis
  proof (cases e)
    case None
    then show ?thesis
      using pt b
      by (simp add: pushToServer_def Let_def read_clock_def setUserPreference_books)
  next
    case (Some err)
    then show ?thesis using pt b by (simp add: pushToServer_def Let_def)
  qed
qed

lemma pushToServer_keeps_book:
  assumes inv: "book_inv i s X (db w)" and syn: "b_synced X = 1"
  shows "book_inv i s X (db (snd (pushToServer u w)))"
proof -
  have "book_inv i s X (db (fold (push_book u) (unsynced_books (db w)) w))"
    by (rule push_books_keep_book [OF inv unsynced_books_skip_synced [OF inv syn]])
  then show ?thesis
    using book_inv_cong [OF pushToServer_books [of u w], of i s X] by blast
qed

lemma txs_inv_unique_sync:
  assumes "txs_inv i s L bs" "y \<in> set bs" "t_sync_id y = Some s"
  shows "y = L"
proof -
  have "t_id y = i" "t_id L = i" using assms unfolding txs_inv_def by blast+
  then have "t_id y = t_id L" by simp
  moreover have "distinct (map t_id bs)" "L \<in> set bs"
    using assms(1) unfolding txs_inv_def by blast+
  ultimately show ?thesis using assms(2) distinct_map_eq [of t_id bs y L] by blast
qed

lemma txs_inv_unique_id:
  assumes "txs_inv i s L bs" "y \<in> set bs" "t_id y = i"
  shows "y = L"
proof -
  have "t_id y = i" "t_id L = i" using assms unfolding txs_inv_def by blast+
  then have "t_id y = t_id L" by simp
  moreover have "distinct (map t_id bs)" "L \<in> set bs"
    using assms(1) unfolding txs_inv_def by blast+
  ultimately show ?thesis using assms(2) distinct_map_eq [of t_id bs y L] by blast
qed

lemma tx_inv_by_sync_id:
  assumes "tx_inv i s L d"
  shows "tx_by_sync_id s d = Some L"
  unfolding tx_by_sync_id_def
proof (rule find_Some_unique)
  show "L \<in> set (transactions d)" "t_sync_id L = Some s"
    using assms unfolding tx_inv_def txs_inv_def by simp_all
  show "\<forall>y \<in> set (transactions d). t_sync_id y = Some s \<longrightarrow> y = L"
    using txs_inv_unique_sync assms unfolding tx_inv_def by blast
qed

lemma tx_inv_by_id:
  assumes "tx_inv i s L d"
  shows "tx_by_id i d = Some L"
  unfolding tx_by_id_def
proof (rule find_Some_unique)
  show "L \<in> set (transactions d)" "t_id L = i"
    using assms unfolding tx_inv_def txs_inv_def by simp_all
  show "\<forall>y \<in> set (transactions d). t_id y = i \<longrightarrow> y = L"
    using txs_inv_unique_id assms unfolding tx_inv_def by blast
qed

lemma txs_inv_map:
  assumes inv: "txs_inv i s L bs"
    and gid: "\<And>b. t_id (g b) = t_id b" and gs: "\<And>b. t_sync_id (g b) = t_sync_id b"
  shows "txs_inv i s (g L) (map g bs)"
proof -
  have "t_id \<circ> g = t_id" by (rule ext) (simp add: gid)
  then have ids: "map t_id (map g bs) = map t_id bs"
    by simp
  have "distinct (map t_id bs)" using inv unfolding txs_inv_def by simp
  then have d1: "distinct (map t_id (map g bs))" by (simp only: ids)
  have d2: "\<forall>b \<in> set (map g bs). t_sync_id b = Some s \<longrightarrow> t_id b = i"
  proof
    fix b assume "b \<in> set (map g bs)"
    then obtain x where x: "x \<in> set bs" "b = g x" by (auto simp: image_iff)
    have "t_sync_id x = Some s \<longrightarrow> t_id x = i" using inv x(1) unfolding txs_inv_def by blast
    then show "t_sync_id b = Some s \<longrightarrow> t_id b = i"
      by (simp only: x(2) gid gs)
  qed
  have "L \<in> set bs" using inv unfolding txs_inv_def by simp
  then have d3: "g L \<in> set (map g bs)" by simp
  have "t_id L = i" "t_sync_id L = Some s" using inv unfolding txs_inv_def by simp_all
  then have d4: "t_id (g L) = i" "t_sync_id (g L) = Some s"
    by (simp_all only: gid gs)
  show ?thesis unfolding txs_inv_def by (intro conjI d1 d2 d3 d4)
qed

lemma tx_inv_update_other:
  assumes inv: "tx_inv i s L d" and j: "j \<noteq> i"
    and fid: "\<And>b. t_id (f b) = t_id b" and fs: "\<And>b. t_sync_id (f b) = t_sync_id b"
  shows "tx_inv i s L (update_transactions_where_id j f d)"
proof -
  have "txs_inv i s ((\<lambda>b. if t_id b = j then f b else b) L)
      (map (\<lambda>b. if t_id b = j then f b else b) (transactions d))"
    by (rule txs_inv_map [OF inv [unfolded tx_inv_def]]) (simp_all add: fid fs)
  moreover have "t_id L = i" using inv unfolding tx_inv_def txs_inv_def by simp
  ultimately show ?thesis using j unfolding update_transactions_where_id_def tx_inv_def by simp
qed

lemma tx_inv_update_self:
  assumes inv: "tx_inv i s L d"
    and fid: "\<And>b. t_id (f b) = t_id b" and fs: "\<And>b. t_sync_id (f b) = t_sync_id b"
  shows "tx_inv i s (f L) (update_transactions_where_id i f d)"
proof -
  have "txs_inv i s ((\<lambda>b. if t_id b = i then f b else b) L)
      (map (\<lambda>b. if t_id b = i then f b else b) (transactions d))"
    by (rule txs_inv_map [OF inv [unfolded tx_inv_def]]) (simp_all add: fid fs)
  moreover have "t_id L = i" using inv unfolding tx_inv_def txs_inv_def by simp
  ultimately show ?thesis unfolding update_transactions_where_id_def tx_inv_def by simp
qed

lemma tx_inv_insert:
  assumes inv: "tx_inv i s L d" and b: "t_sync_id b \<noteq> Some s"
  shows "tx_inv i s L (insert_tx_row b d)"
proof -
  let ?n = "next_rowid (map t_id (transactions d))"
  let ?kept = "filter (\<lambda>x. t_sync_id x = None \<or> t_sync_id x \<noteq> t_sync_id b) (transactions d)"
  have bs: "transactions (insert_tx_row b d) = ?kept @ [b\<lparr>t_id := ?n\<rparr>]"
    by (simp add: insert_tx_row_def)
  have fresh: "?n \<notin> set (map t_id ?kept)"
    using next_rowid_fresh [of _ "map t_id (transactions d)"] by fastforce
  have d0: "distinct (map t_id ?kept)"
    using inv unfolding tx_inv_def txs_inv_def by (simp add: distinct_map_filter)
  have d1: "distinct (map t_id (?kept @ [b\<lparr>t_id := ?n\<rparr>]))"
    using fresh d0 by simp
  have "L \<in> set (transactions d)" "t_sync_id L = Some s"
    using inv unfolding tx_inv_def txs_inv_def by simp_all
  then have L: "L \<in> set ?kept" using b by simp
  then have d3: "L \<in> set (?kept @ [b\<lparr>t_id := ?n\<rparr>])" by simp
  have d2: "\<forall>x \<in> set (?kept @ [b\<lparr>t_id := ?n\<rparr>]). t_sync_id x = Some s \<longrightarrow> t_id x = i"
  proof
    fix x assume "x \<in> set (?kept @ [b\<lparr>t_id := ?n\<rparr>])"
    then have "x \<in> set ?kept \<or> x = b\<lparr>t_id := ?n\<rparr>"
      unfolding set_append by (elim UnE) simp_all
    then show "t_sync_id x = Some s \<longrightarrow> t_id x = i"
    proof
      assume "x \<in> set ?kept"
      then have "x \<in> set (transactions d)" by simp
      then show ?thesis using inv unfolding tx_inv_def txs_inv_def by blast
    next
      assume "x = b\<lparr>t_id := ?n\<rparr>"
      then show ?thesis using b by simp
    qed
  qed
  have d4: "t_id L = i" "t_sync_id L = Some s"
    using inv unfolding tx_inv_def txs_inv_def by simp_all
  show ?thesis unfolding tx_inv_def bs txs_inv_def by (intro conjI d1 d2 d3 d4)
qed

lemma tx_inv_cong: "transactions d' = transactions d \<Longrightarrow> tx_inv i s X d' = tx_inv i s X d"
  by (simp add: tx_inv_def)

lemma txs_inv_map_gen:
  assumes inv: "txs_inv i s L bs"
    and gid: "\<And>b. t_id (g b) = t_id b"
    and gs: "\<And>b. b \<in> set bs \<Longrightarrow> t_sync_id (g b) = Some s \<Longrightarrow> t_id b = i"
    and gL: "g L = L"
  shows "txs_inv i s L (map g bs)"
proof -
  have "t_id \<circ> g = t_id" by (rule ext) (simp add: gid)
  then have ids: "map t_id (map g bs) = map t_id bs"
    by simp
  have "distinct (map t_id bs)" using inv unfolding txs_inv_def by simp
  then have d1: "distinct (map t_id (map g bs))" by (simp only: ids)
  have d2: "\<forall>b \<in> set (map g bs). t_sync_id b = Some s \<longrightarrow> t_id b = i"
  proof
    fix b assume "b \<in> set (map g bs)"
    then obtain x where x: "x \<in> set bs" "b = g x" by (auto simp: image_iff)
    have "t_sync_id (g x) = Some s \<longrightarrow> t_id x = i" using gs [OF x(1)] by blast
    then show "t_sync_id b = Some s \<longrightarrow> t_id b = i"
      by (simp only: x(2) gid)
  qed
  have "L \<in> set bs" using inv unfolding txs_inv_def by simp
  then have "g L \<in> set (map g bs)" by simp
  then have d3: "L \<in> set (map g bs)" by (simp only: gL)
  have d4: "t_id L = i" "t_sync_id L = Some s" using inv unfolding txs_inv_def by simp_all
  show ?thesis unfolding txs_inv_def by (intro conjI d1 d2 d3 d4)
qed

lemma tx_inv_set_sync_other:
  assumes inv: "tx_inv i s X d" and j: "j \<noteq> i"
    and fid: "\<And>b. t_id (f b) = t_id b"
    and fs: "\<And>b. t_sync_id (f b) = Some e"
    and free: "\<not> tx_sync_id_taken j e d"
  shows "tx_inv i s X (update_transactions_where_id j f d)"
proof -
  let ?g = "\<lambda>b. if t_id b = j then f b else b"
  have X: "X \<in> set (transactions d)" "t_id X = i" "t_sync_id X = Some s"
    using inv unfolding tx_inv_def txs_inv_def by simp_all
  have gs: "t_id b = i" if b: "b \<in> set (transactions d)" and sy: "t_sync_id (?g b) = Some s" for b
  proof (cases "t_id b = j")
    case True
    then have es: "e = s" using sy fs [of b] by simp
    have t1: "\<exists>b \<in> set (transactions d). t_id b = j" using b True by blast
    have "t_id X \<noteq> j \<and> t_sync_id X = Some e" using X j es by simp
    then have t2: "\<exists>b \<in> set (transactions d). t_id b \<noteq> j \<and> t_sync_id b = Some e"
      using X(1) by blast
    have "tx_sync_id_taken j e d"
      unfolding tx_sync_id_taken_def using t1 t2 by blast
    then show ?thesis using free by simp
  next
    case False
    then have "t_sync_id b = Some s" using sy by simp
    then show ?thesis using inv b unfolding tx_inv_def txs_inv_def by blast
  qed
  have gL: "?g X = X" using X(2) j by simp
  have gid: "t_id (?g b) = t_id b" for b by (simp add: fid)
  have "txs_inv i s X (map ?g (transactions d))"
    using inv [unfolded tx_inv_def] gid gs gL
    by (rule txs_inv_map_gen [where g = ?g])
  then show ?thesis unfolding update_transactions_where_id_def tx_inv_def by simp
qed

lemma apply_remote_tx_eq:
  "(\<lambda>t. t\<lparr>t_type := rt_type R, t_amount := rt_amount R, t_note := rt_note R,
       t_category := rt_category R, t_updated_at := Some (rt_updated_at R), t_synced := 1\<rparr>)
     = apply_remote_tx R"
  by (rule ext) (simp add: apply_remote_tx_def)

lemma apply_pulled_tx_eq:
  "(\<lambda>t. t\<lparr>t_book_id := integer_affinity (rt_book_id R), t_type := rt_type R, t_amount := rt_amount R,
       t_note := rt_note R, t_category := rt_category R,
       t_updated_at := Some (rt_updated_at R), t_synced := 1\<rparr>)
     = apply_pulled_tx R"
  by (rule ext) (simp add: apply_pulled_tx_def)

lemma apply_tx_keeps:
  "t_id (apply_remote_tx R t) = t_id t" "t_sync_id (apply_remote_tx R t) = t_sync_id t"
  "t_id (apply_pulled_tx R t) = t_id t" "t_sync_id (apply_pulled_tx R t) = t_sync_id t"
  by (simp_all add: apply_remote_tx_def apply_pulled_tx_def)

lemma track_tx_idem: "track_tx R (track_tx R X) = track_tx R X"
  by (simp add: track_tx_def apply_pulled_tx_def tx_local_updated_def)

lemma pull_tx_step:
  assumes inv: "tx_inv i s X d" and uniq: "rt_id r = s \<longrightarrow> r = R"
    and res: "pull_tx r d cs = (None, d', cs')"
  shows "tx_inv i s (if rt_id r = s then track_tx R X else X) d'
    \<and> (\<exists>extra. cs' = cs @ extra \<and> (\<forall>c \<in> set extra. tx_conflict_ok i R c)
          \<and> (rt_id r = s \<and> rt_updated_at R < tx_local_updated X \<longrightarrow>
                extra = [TransactionConflict i s X R (tx_local_updated X) (rt_updated_at R)]))"
proof (cases "rt_id r = s")
  case True
  then have r: "r = R" using uniq by simp
  have look: "tx_by_sync_id (rt_id R) d = Some X"
    using tx_inv_by_sync_id [OF inv] True r by simp
  have idX: "t_id X = i" using inv unfolding tx_inv_def txs_inv_def by simp
  show ?thesis
  proof (cases "rt_updated_at R < tx_local_updated X")
    case c: True
    have "pull_tx r d cs
        = (None, d, cs @ [TransactionConflict i s X R (tx_local_updated X) (rt_updated_at R)])"
      using look c r True idX by (simp add: pull_tx_def Let_def)
    then have "d' = d"
      "cs' = cs @ [TransactionConflict i s X R (tx_local_updated X) (rt_updated_at R)]"
      using res by simp_all
    moreover have "tx_inv i s (track_tx R X) d" using inv c by (simp add: track_tx_def)
    ultimately show ?thesis using True c by simp
  next
    case c: False
    have nofk: "\<not> fk_violated (integer_affinity (rt_book_id R)) d"
    proof
      assume "fk_violated (integer_affinity (rt_book_id R)) d"
      then have "pull_tx r d cs = (Some ForeignKeyConstraintFailed, d, cs)"
        using look c r by (simp add: pull_tx_def Let_def)
      then show False using res by simp
    qed
    have "pull_tx r d cs = (None, update_transactions_where_id i (apply_pulled_tx R) d, cs)"
      using look c r idX nofk by (simp add: pull_tx_def Let_def apply_pulled_tx_eq)
    then have "d' = update_transactions_where_id i (apply_pulled_tx R) d" "cs' = cs @ []"
      using res by simp_all
    moreover have "tx_inv i s (track_tx R X) (update_transactions_where_id i (apply_pulled_tx R) d)"
      using tx_inv_update_self [OF inv, of "apply_pulled_tx R"] c
      by (simp add: track_tx_def apply_tx_keeps)
    ultimately show ?thesis using True c by simp
  qed
next
  case False
  show ?thesis
  proof (cases "tx_by_sync_id (rt_id r) d")
    case None
    show ?thesis
    proof (cases "book_by_sync_id (rt_book_id r) d")
      case nb: None
      have "pull_tx r d cs = (None, d, cs)" using None nb by (simp add: pull_tx_def)
      then have "d' = d" "cs' = cs @ []" using res by simp_all
      then show ?thesis using False inv by simp
    next
      case (Some book)
      let ?row = "\<lparr>t_id = 0, t_book_id = IntKey (b_id book), t_type = rt_type r,
                   t_amount = rt_amount r, t_note = rt_note r,
                   t_category = rt_category r, t_created_at = rt_created_at r,
                   t_updated_at = Some (rt_updated_at r), t_synced = 1,
                   t_sync_id = Some (rt_id r), t_last_synced = None, t_is_dirty = 1,
                   t_deleted = 0\<rparr>"
      have "pull_tx r d cs = (None, insert_tx_row ?row d, cs)"
        using None Some by (simp add: pull_tx_def)
      then have "d' = insert_tx_row ?row d" "cs' = cs @ []" using res by simp_all
      moreover have "tx_inv i s X (insert_tx_row ?row d)"
        by (rule tx_inv_insert [OF inv]) (use False in simp)
      ultimately show ?thesis using False by simp
    qed
  next
    case (Some t')
    then have t': "t' \<in> set (transactions d)" "t_sync_id t' = Some (rt_id r)"
      using find_SomeD [of "\<lambda>t. t_sync_id t = Some (rt_id r)" "transactions d" t']
      unfolding tx_by_sync_id_def by simp_all
    have ne: "t_id t' \<noteq> i"
    proof
      assume "t_id t' = i"
      then have "t' = X" using txs_inv_unique_id inv t'(1) unfolding tx_inv_def by blast
      moreover have "t_sync_id X = Some s" using inv unfolding tx_inv_def txs_inv_def by simp
      ultimately show False using t'(2) False by simp
    qed
    show ?thesis
    proof (cases "rt_updated_at r < tx_local_updated t'")
      case c: True
      have "pull_tx r d cs =
        (None, d, cs @ [TransactionConflict (t_id t') (rt_id r) t' r (tx_local_updated t')
                          (rt_updated_at r)])"
        using Some c by (simp add: pull_tx_def Let_def)
      then have "d' = d"
        "cs' = cs @ [TransactionConflict (t_id t') (rt_id r) t' r (tx_local_updated t')
                          (rt_updated_at r)]"
        using res by simp_all
      then show ?thesis using False inv ne by simp
    next
      case c: False
      have nofk: "\<not> fk_violated (integer_affinity (rt_book_id r)) d"
      proof
        assume "fk_violated (integer_affinity (rt_book_id r)) d"
        then have "pull_tx r d cs = (Some ForeignKeyConstraintFailed, d, cs)"
          using Some c by (simp add: pull_tx_def Let_def)
        then show False using res by simp
      qed
      have "pull_tx r d cs
          = (None, update_transactions_where_id (t_id t') (apply_pulled_tx r) d, cs)"
        using Some c nofk by (simp add: pull_tx_def Let_def apply_pulled_tx_eq)
      then have "d' = update_transactions_where_id (t_id t') (apply_pulled_tx r) d" "cs' = cs @ []"
        using res by simp_all
      moreover have "tx_inv i s X (update_transactions_where_id (t_id t') (apply_pulled_tx r) d)"
        by (rule tx_inv_update_other [OF inv ne]) (simp_all add: apply_tx_keeps)
      ultimately show ?thesis using False by simp
    qed
  qed
qed

lemma pull_transactions_track:
  assumes inv: "tx_inv i s X d" and uniq: "\<forall>r \<in> set rs. rt_id r = s \<longrightarrow> r = R"
    and res: "pull_transactions rs d cs = (None, d', cs')"
  shows "tx_inv i s (if s \<in> rt_id ` set rs then track_tx R X else X) d'
    \<and> (\<exists>extra. cs' = cs @ extra \<and> (\<forall>c \<in> set extra. tx_conflict_ok i R c)
          \<and> (s \<in> rt_id ` set rs \<and> rt_updated_at R < tx_local_updated X \<longrightarrow>
                TransactionConflict i s X R (tx_local_updated X) (rt_updated_at R) \<in> set extra))"
  using inv uniq res
proof (induction rs arbitrary: d cs X)
  case Nil
  then show ?case by simp
next
  case (Cons r rs)
  let ?X1 = "if rt_id r = s then track_tx R X else X"
  have u1: "rt_id r = s \<longrightarrow> r = R" using Cons.prems(2) by simp
  have u2: "\<forall>r \<in> set rs. rt_id r = s \<longrightarrow> r = R" using Cons.prems(2) by simp
  obtain e d1 cs1 where st: "pull_tx r d cs = (e, d1, cs1)" by (cases "pull_tx r d cs") auto
  have e: "e = None"
  proof (cases e)
    case None then show ?thesis .
  next
    case (Some err)
    then have "pull_transactions (r # rs) d cs = (Some err, d1, cs1)" using st by simp
    then show ?thesis using Cons.prems(3) by simp
  qed
  have st': "pull_tx r d cs = (None, d1, cs1)" using st e by simp
  have rest: "pull_transactions rs d1 cs1 = (None, d', cs')"
    using Cons.prems(3) st' by simp
  from pull_tx_step [OF Cons.prems(1) u1 st']
  obtain e1 where inv1: "tx_inv i s ?X1 d1" and cs1: "cs1 = cs @ e1"
    and ok1: "\<forall>c \<in> set e1. tx_conflict_ok i R c"
    and c1: "rt_id r = s \<and> rt_updated_at R < tx_local_updated X \<longrightarrow>
          e1 = [TransactionConflict i s X R (tx_local_updated X) (rt_updated_at R)]"
    by blast
  from Cons.IH [OF inv1 u2 rest]
  obtain e2 where inv2: "tx_inv i s (if s \<in> rt_id ` set rs then track_tx R ?X1 else ?X1) d'"
    and cs2: "cs' = cs1 @ e2"
    and ok2: "\<forall>c \<in> set e2. tx_conflict_ok i R c"
    and c2: "s \<in> rt_id ` set rs \<and> rt_updated_at R < tx_local_updated ?X1 \<longrightarrow>
          TransactionConflict i s ?X1 R (tx_local_updated ?X1) (rt_updated_at R) \<in> set e2"
    by blast
  have x: "(if s \<in> rt_id ` set rs then track_tx R ?X1 else ?X1)
      = (if s \<in> rt_id ` set (r # rs) then track_tx R X else X)"
    by (simp add: track_tx_idem)
  have inv3: "tx_inv i s (if s \<in> rt_id ` set (r # rs) then track_tx R X else X) d'"
    using inv2 unfolding x .
  have cs3: "cs' = cs @ (e1 @ e2)" using cs1 cs2 by simp
  have ok3: "\<forall>c \<in> set (e1 @ e2). tx_conflict_ok i R c"
    using ok1 ok2 by auto
  have c3: "s \<in> rt_id ` set (r # rs) \<and> rt_updated_at R < tx_local_updated X \<longrightarrow>
          TransactionConflict i s X R (tx_local_updated X) (rt_updated_at R) \<in> set (e1 @ e2)"
  proof (intro impI, elim conjE)
    assume m: "s \<in> rt_id ` set (r # rs)" and c: "rt_updated_at R < tx_local_updated X"
    show "TransactionConflict i s X R (tx_local_updated X) (rt_updated_at R) \<in> set (e1 @ e2)"
    proof (cases "rt_id r = s")
      case True
      then show ?thesis using c1 c by simp
    next
      case False
      then have "s \<in> rt_id ` set rs" using m by auto
      then show ?thesis using c2 False c by simp
    qed
  qed
  show ?case using inv3 cs3 ok3 c3 by blast
qed

lemma pull_book_conflicts:
  "\<exists>extra. snd (pull_book rb (d, cs)) = cs @ extra \<and> (\<forall>c \<in> set extra. \<not> is_tx_conflict c)"
  by (simp add: pull_book_def Let_def split: option.splits)

lemma pull_books_conflicts:
  "\<exists>extra. snd (fold pull_book rbs (d, cs)) = cs @ extra \<and> (\<forall>c \<in> set extra. \<not> is_tx_conflict c)"
proof (induction rbs arbitrary: d cs)
  case Nil
  show ?case by simp
next
  case (Cons rb rbs)
  obtain d1 cs1 where st: "pull_book rb (d, cs) = (d1, cs1)" by (cases "pull_book rb (d, cs)")
  from pull_book_conflicts [of rb d cs] st
  obtain e1 where a: "cs1 = cs @ e1" "\<forall>c \<in> set e1. \<not> is_tx_conflict c" by auto
  from Cons.IH [of d1 cs1]
  obtain e2 where b: "snd (fold pull_book rbs (d1, cs1)) = cs1 @ e2"
    "\<forall>c \<in> set e2. \<not> is_tx_conflict c" by blast
  have "snd (fold pull_book (rb # rbs) (d, cs)) = cs @ (e1 @ e2)"
    using st a(1) b(1) by simp
  moreover have "\<forall>c \<in> set (e1 @ e2). \<not> is_tx_conflict c" using a(2) b(2) by auto
  ultimately show ?case by blast
qed

lemma book_conflict_tx_ok: "\<not> is_tx_conflict c \<Longrightarrow> tx_conflict_ok i R c"
  by (cases c) simp_all

lemma pullFromServer_tracks_tx:
  assumes inv: "tx_inv i s X (db w)"
    and R: "R \<in> set (r_transactions (remote w))" "rt_id R = s" "rt_user_id R = u"
    and fetched: "transactions_cursor w < rt_updated_at R"
    and uniq: "\<forall>r \<in> set (r_transactions (remote w)). rt_id r = s \<longrightarrow> r = R"
    and res: "pullFromServer u w = (Inr res, w')"
  shows "tx_inv i s (track_tx R X) (db w')
    \<and> (\<forall>c \<in> set (conflicts res). tx_conflict_ok i R c)
    \<and> (rt_updated_at R < tx_local_updated X \<longrightarrow>
          TransactionConflict i s X R (tx_local_updated X) (rt_updated_at R) \<in> set (conflicts res))"
proof -
  from pullFromServer_Inr [OF res]
  obtain rbs r1 rts r2 where
    sb: "select_books u (books_cursor w) (remote w) = (Some rbs, r1)"
    and stx: "select_transactions u (transactions_cursor w) r1 = (Some rts, r2)"
    and pt: "pull_transactions rts (fst (fold pull_book rbs (db w, [])))
          (snd (fold pull_book rbs (db w, []))) = (None, db w', conflicts res)"
    by blast
  let ?d1 = "fst (fold pull_book rbs (db w, []))"
  let ?cs1 = "snd (fold pull_book rbs (db w, []))"
  have r1: "r_transactions r1 = r_transactions (remote w)"
    using select_books_Some(2) [OF sb] .
  have rts: "rts = filter (\<lambda>t. rt_user_id t = u \<and> transactions_cursor w < rt_updated_at t)
      (r_transactions (remote w))"
    using select_transactions_Some(1) [OF stx] r1 by simp
  have mem: "R \<in> set rts" using R fetched unfolding rts by simp
  then have sin: "s \<in> rt_id ` set rts" using R(2) by force
  have u': "\<forall>r \<in> set rts. rt_id r = s \<longrightarrow> r = R" using uniq unfolding rts by simp
  have "transactions ?d1 = transactions (db w)"
    using pull_books_frame [of rbs "db w" "[]"] by simp
  then have inv1: "tx_inv i s X ?d1"
    using inv tx_inv_cong [of ?d1 "db w" i s X] by blast
  from pull_books_conflicts [of rbs "db w" "[]"]
  have ok1: "\<forall>c \<in> set ?cs1. \<not> is_tx_conflict c" by simp
  from pull_transactions_track [OF inv1 u' pt]
  obtain e2 where inv2: "tx_inv i s (if s \<in> rt_id ` set rts then track_tx R X else X) (db w')"
    and cs: "conflicts res = ?cs1 @ e2"
    and ok2: "\<forall>c \<in> set e2. tx_conflict_ok i R c"
    and c2: "s \<in> rt_id ` set rts \<and> rt_updated_at R < tx_local_updated X \<longrightarrow>
          TransactionConflict i s X R (tx_local_updated X) (rt_updated_at R) \<in> set e2"
    by blast
  have a: "tx_inv i s (track_tx R X) (db w')" using inv2 sin by simp
  have b: "\<forall>c \<in> set (conflicts res). tx_conflict_ok i R c"
    unfolding cs using ok1 ok2 book_conflict_tx_ok by auto
  have c: "rt_updated_at R < tx_local_updated X \<longrightarrow>
          TransactionConflict i s X R (tx_local_updated X) (rt_updated_at R) \<in> set (conflicts res)"
    unfolding cs using c2 sin by simp
  show ?thesis using a b c by blast
qed

lemma apply_remote_tx_idem:
  "apply_remote_tx R (apply_remote_tx R t) = apply_remote_tx R t"
  "apply_remote_tx R (apply_pulled_tx R t) = apply_pulled_tx R t"
  by (simp_all add: apply_remote_tx_def apply_pulled_tx_def)

lemma resolve_conflict_tx:
  assumes inv: "tx_inv i s X d" and ok: "tx_conflict_ok i R c"
  shows "tx_inv i s (if conflict_hits_tx i c then apply_remote_tx R X else X)
           (resolve_conflict c d)"
proof (cases c)
  case (TransactionConflict j rid lt rt lu ru)
  show ?thesis
  proof (cases "j = i")
    case True
    then have "rt = R" using ok TransactionConflict by simp
    then have "resolve_conflict c d = update_transactions_where_id i (apply_remote_tx R) d"
      using TransactionConflict True by (simp add: apply_remote_tx_eq)
    then show ?thesis
      using tx_inv_update_self [OF inv, of "apply_remote_tx R"] TransactionConflict True
      by (simp add: apply_tx_keeps)
  next
    case False
    have "resolve_conflict c d = update_transactions_where_id j (apply_remote_tx rt) d"
      using TransactionConflict by (simp add: apply_remote_tx_eq)
    moreover have "tx_inv i s X (update_transactions_where_id j (apply_remote_tx rt) d)"
      by (rule tx_inv_update_other [OF inv False]) (simp_all add: apply_tx_keeps)
    ultimately show ?thesis using TransactionConflict False by simp
  qed
next
  case (BookConflict j rid lb rb lu ru)
  then have "transactions (resolve_conflict c d) = transactions d"
    by (simp add: update_books_where_id_def)
  then have "tx_inv i s X (resolve_conflict c d)"
    using inv tx_inv_cong [of "resolve_conflict c d" d i s X] by blast
  then show ?thesis using BookConflict by simp
qed

lemma resolve_conflicts_tx:
  assumes inv: "tx_inv i s X d" and ok: "\<forall>c \<in> set cs. tx_conflict_ok i R c"
  shows "tx_inv i s (if \<exists>c \<in> set cs. conflict_hits_tx i c then apply_remote_tx R X else X)
           (fold resolve_conflict cs d)"
  using inv ok
proof (induction cs arbitrary: d X)
  case Nil
  then show ?case by simp
next
  case (Cons c cs)
  let ?X1 = "if conflict_hits_tx i c then apply_remote_tx R X else X"
  have okc: "tx_conflict_ok i R c" and oks: "\<forall>c \<in> set cs. tx_conflict_ok i R c"
    using Cons.prems(2) by simp_all
  have inv1: "tx_inv i s ?X1 (resolve_conflict c d)"
    by (rule resolve_conflict_tx [OF Cons.prems(1) okc])
  have "tx_inv i s (if \<exists>c \<in> set cs. conflict_hits_tx i c then apply_remote_tx R ?X1 else ?X1)
           (fold resolve_conflict cs (resolve_conflict c d))"
    by (rule Cons.IH [OF inv1 oks])
  moreover have "(if \<exists>c \<in> set cs. conflict_hits_tx i c then apply_remote_tx R ?X1 else ?X1)
      = (if \<exists>c \<in> set (c # cs). conflict_hits_tx i c then apply_remote_tx R X else X)"
    by (simp add: apply_remote_tx_idem)
  ultimately show ?case by simp
qed

lemma push_book_transactions: "transactions (db (push_book u b w)) = transactions (db w)"
  by (simp add: push_book_def read_clock_def Let_def case_prod_beta update_books_where_id_def
      split: option.splits)

lemma push_books_transactions:
  "transactions (db (fold (push_book u) bs w)) = transactions (db w)"
  by (induction bs arbitrary: w) (simp_all add: push_book_transactions)

lemma push_tx_db_cases:
  "db (snd (push_tx u (tx, bs) w)) = db w
   \<or> (\<exists>now. db (snd (push_tx u (tx, bs) w))
         = update_transactions_where_id (t_id tx)
             (\<lambda>t. t\<lparr>t_synced := 1, t_updated_at := Some now\<rparr>) (db w))
   \<or> (\<exists>e. \<not> tx_sync_id_taken (t_id tx) e (db w)
         \<and> db (snd (push_tx u (tx, bs) w))
         = update_transactions_where_id (t_id tx)
             (\<lambda>t. t\<lparr>t_synced := 1, t_sync_id := Some e\<rparr>) (db w))"
  by (auto simp: push_tx_def read_clock_def Let_def case_prod_beta)

lemma push_tx_keeps_tx:
  assumes inv: "tx_inv i s X (db w)" and ne: "t_id tx \<noteq> i"
  shows "tx_inv i s X (db (snd (push_tx u (tx, bs) w)))"
proof -
  from push_tx_db_cases [of u tx bs w]
  consider (same) "db (snd (push_tx u (tx, bs) w)) = db w"
    | (upd) now where "db (snd (push_tx u (tx, bs) w))
         = update_transactions_where_id (t_id tx)
             (\<lambda>t. t\<lparr>t_synced := 1, t_updated_at := Some now\<rparr>) (db w)"
    | (sync) e where "\<not> tx_sync_id_taken (t_id tx) e (db w)"
        "db (snd (push_tx u (tx, bs) w))
         = update_transactions_where_id (t_id tx)
             (\<lambda>t. t\<lparr>t_synced := 1, t_sync_id := Some e\<rparr>) (db w)"
    by blast
  then show ?thesis
  proof cases
    case same
    then show ?thesis using inv by simp
  next
    case upd
    have "tx_inv i s X (update_transactions_where_id (t_id tx)
        (\<lambda>t. t\<lparr>t_synced := 1, t_updated_at := Some now\<rparr>) (db w))"
      by (rule tx_inv_update_other [OF inv ne]) simp_all
    then show ?thesis using upd by simp
  next
    case sync
    have "tx_inv i s X (update_transactions_where_id (t_id tx)
        (\<lambda>t. t\<lparr>t_synced := 1, t_sync_id := Some e\<rparr>) (db w))"
      by (rule tx_inv_set_sync_other [OF inv ne _ _ sync(1)]) simp_all
    then show ?thesis using sync(2) by simp
  qed
qed

lemma push_transactions_keep_tx:
  assumes inv: "tx_inv i s X (db w)" and ne: "\<forall>x \<in> set xs. t_id (fst x) \<noteq> i"
  shows "tx_inv i s X (db (snd (push_transactions u xs w)))"
  using inv ne
proof (induction xs arbitrary: w)
  case Nil
  then show ?case by simp
next
  case (Cons x xs)
  obtain tx bs where x: "x = (tx, bs)" by (cases x)
  obtain e w1 where st: "push_tx u x w = (e, w1)" by (cases "push_tx u x w")
  have "t_id tx \<noteq> i" using Cons.prems(2) x by simp
  then have i1: "tx_inv i s X (db w1)"
    using push_tx_keeps_tx [OF Cons.prems(1), of tx u bs] st x by simp
  show ?case
  proof (cases e)
    case None
    then show ?thesis using st Cons.IH [OF i1] Cons.prems(2) by simp
  next
    case (Some err)
    then show ?thesis using st i1 by simp
  qed
qed

lemma unsynced_transactions_skip_synced:
  assumes inv: "tx_inv i s X d" and syn: "t_synced X = 1"
  shows "\<forall>x \<in> set (unsynced_transactions d). t_id (fst x) \<noteq> i"
proof
  fix x assume "x \<in> set (unsynced_transactions d)"
  then have t: "fst x \<in> set (transactions d)" "t_synced (fst x) = 0 \<or> t_sync_id (fst x) = None"
    unfolding unsynced_transactions_def by auto
  show "t_id (fst x) \<noteq> i"
  proof
    assume "t_id (fst x) = i"
    then have "fst x = X" using txs_inv_unique_id inv t(1) unfolding tx_inv_def by blast
    moreover have "t_sync_id X = Some s" using inv unfolding tx_inv_def txs_inv_def by simp
    ultimately show False using t(2) syn by simp
  qed
qed

lemma setUserPreference_transactions:
  "transactions (db (setUserPreference k v w)) = transactions (db w)"
  by (simp add: setUserPreference_def read_clock_def)

lemma pushToServer_transactions:
  "transactions (db (snd (pushToServer u w)))
     = transactions (db (snd (push_transactions u
          (unsynced_transactions (db (fold (push_book u) (unsynced_books (db w)) w)))
          (fold (push_book u) (unsynced_books (db w)) w))))"
proof -
  let ?w1 = "fold (push_book u) (unsynced_books (db w)) w"
  obtain e w2 where pt: "push_transactions u (unsynced_transactions (db ?w1)) ?w1 = (e, w2)"
    by (cases "push_transactions u (unsynced_transactions (db ?w1)) ?w1")
  show ?thesis
  proof (cases e)
    case None
    then show ?thesis
      using pt
      by (simp add: pushToServer_def Let_def read_clock_def setUserPreference_transactions)
  next
    case (Some err)
    then show ?thesis using pt by (simp add: pushToServer_def Let_def)
  qed
qed

lemma pushToServer_keeps_tx:
  assumes inv: "tx_inv i s X (db w)" and syn: "t_synced X = 1"
  shows "tx_inv i s X (db (snd (pushToServer u w)))"
proof -
  let ?w1 = "fold (push_book u) (unsynced_books (db w)) w"
  have "transactions (db ?w1) = transactions (db w)" by (rule push_books_transactions)
  then have i1: "tx_inv i s X (db ?w1)"
    using inv tx_inv_cong [of "db ?w1" "db w" i s X] by blast
  have "tx_inv i s X (db (snd (push_transactions u (unsynced_transactions (db ?w1)) ?w1)))"
    by (rule push_transactions_keep_tx [OF i1 unsynced_transactions_skip_synced [OF i1 syn]])
  then show ?thesis
    using tx_inv_cong [OF pushToServer_transactions [of u w], of i s X] by blast
qed

lemma book_inv_intro:
  assumes "distinct (map b_id (books d))" "L \<in> set (books d)" "b_sync_id L = Some s"
    "\<forall>b \<in> set (books d). b_sync_id b = Some s \<longrightarrow> b = L"
  shows "book_inv (b_id L) s L d"
  unfolding book_inv_def books_inv_def using assms by blast

lemma tx_inv_intro:
  assumes "distinct (map t_id (transactions d))" "L \<in> set (transactions d)" "t_sync_id L = Some s"
    "\<forall>t \<in> set (transactions d). t_sync_id t = Some s \<longrightarrow> t = L"
  shows "tx_inv (t_id L) s L d"
  unfolding tx_inv_def txs_inv_def using assms by blast

lemma resolveConflicts_db:
  "db (resolveConflicts u cs w) = fold resolve_conflict cs (db w)"
  by (simp add: resolveConflicts_def)

lemma pull_then_resolve_book:
  assumes res: "pullFromServer u w = (Inr res, w')"
    and d: "distinct (map b_id (books (db w)))" and L: "L \<in> set (books (db w))"
    and sL: "b_sync_id L = Some s"
    and oL: "\<forall>b \<in> set (books (db w)). b_sync_id b = Some s \<longrightarrow> b = L"
    and R: "R \<in> set (r_books (remote w))" "rb_id R = s" "rb_user_id R = u"
    and oR: "\<forall>rb \<in> set (r_books (remote w)). rb_id rb = s \<longrightarrow> rb = R"
    and fetched: "books_cursor w < rb_updated_at R"
    and newer: "rb_updated_at R < book_local_updated L"
  shows "BookConflict (b_id L) s L R (book_local_updated L) (rb_updated_at R) \<in> set (conflicts res)
    \<and> book_by_id (b_id L) (db w') = Some L
    \<and> (\<exists>b'. book_by_id (b_id L) (db (resolveConflicts u (conflicts res) w')) = Some b'
          \<and> b_name b' = rb_name R \<and> b_updated_at b' = Some (rb_updated_at R) \<and> b_synced b' = 1)"
proof -
  have inv: "book_inv (b_id L) s L (db w)" by (rule book_inv_intro [OF d L sL oL])
  from pullFromServer_tracks_book [OF inv R fetched oR res]
  have inv1: "book_inv (b_id L) s (track_book R L) (db w')"
    and ok: "\<forall>c \<in> set (conflicts res). book_conflict_ok (b_id L) R c"
    and mem: "BookConflict (b_id L) s L R (book_local_updated L) (rb_updated_at R)
        \<in> set (conflicts res)"
    using newer by blast+
  have inv1': "book_inv (b_id L) s L (db w')" using inv1 newer by (simp add: track_book_def)
  have hit: "\<exists>c \<in> set (conflicts res). conflict_hits_book (b_id L) c"
    using mem by (intro bexI [of _ "BookConflict (b_id L) s L R (book_local_updated L) (rb_updated_at R)"]) simp_all
  have "book_inv (b_id L) s (apply_remote_book R L) (fold resolve_conflict (conflicts res) (db w'))"
    using resolve_conflicts_book [OF inv1' ok] hit by simp
  then have "book_by_id (b_id L) (db (resolveConflicts u (conflicts res) w'))
      = Some (apply_remote_book R L)"
    using book_inv_by_id by (simp add: resolveConflicts_db)
  then have "\<exists>b'. book_by_id (b_id L) (db (resolveConflicts u (conflicts res) w')) = Some b'
          \<and> b_name b' = rb_name R \<and> b_updated_at b' = Some (rb_updated_at R) \<and> b_synced b' = 1"
    by (simp add: apply_remote_book_def)
  then show ?thesis using mem book_inv_by_id [OF inv1'] by blast
qed

lemma pull_then_resolve_tx:
  assumes res: "pullFromServer u w = (Inr res, w')"
    and d: "distinct (map t_id (transactions (db w)))" and L: "L \<in> set (transactions (db w))"
    and sL: "t_sync_id L = Some s"
    and oL: "\<forall>t \<in> set (transactions (db w)). t_sync_id t = Some s \<longrightarrow> t = L"
    and R: "R \<in> set (r_transactions (remote w))" "rt_id R = s" "rt_user_id R = u"
    and oR: "\<forall>r \<in> set (r_transactions (remote w)). rt_id r = s \<longrightarrow> r = R"
    and fetched: "transactions_cursor w < rt_updated_at R"
    and newer: "rt_updated_at R < tx_local_updated L"
  shows "TransactionConflict (t_id L) s L R (tx_local_updated L) (rt_updated_at R)
        \<in> set (conflicts res)
    \<and> tx_by_id (t_id L) (db w') = Some L
    \<and> (\<exists>t'. tx_by_id (t_id L) (db (resolveConflicts u (conflicts res) w')) = Some t'
          \<and> t_type t' = rt_type R \<and> t_amount t' = rt_amount R \<and> t_note t' = rt_note R
          \<and> t_category t' = rt_category R \<and> t_updated_at t' = Some (rt_updated_at R)
          \<and> t_synced t' = 1)"
proof -
  have inv: "tx_inv (t_id L) s L (db w)" by (rule tx_inv_intro [OF d L sL oL])
  from pullFromServer_tracks_tx [OF inv R fetched oR res]
  have inv1: "tx_inv (t_id L) s (track_tx R L) (db w')"
    and ok: "\<forall>c \<in> set (conflicts res). tx_conflict_ok (t_id L) R c"
    and mem: "TransactionConflict (t_id L) s L R (tx_local_updated L) (rt_updated_at R)
        \<in> set (conflicts res)"
    using newer by blast+
  have inv1': "tx_inv (t_id L) s L (db w')" using inv1 newer by (simp add: track_tx_def)
  have hit: "\<exists>c \<in> set (conflicts res). conflict_hits_tx (t_id L) c"
    using mem by (intro bexI [of _ "TransactionConflict (t_id L) s L R (tx_local_updated L) (rt_updated_at R)"]) simp_all
  have "tx_inv (t_id L) s (apply_remote_tx R L) (fold resolve_conflict (conflicts res) (db w'))"
    using resolve_conflicts_tx [OF inv1' ok] hit by simp
  then have "tx_by_id (t_id L) (db (resolveConflicts u (conflicts res) w'))
      = Some (apply_remote_tx R L)"
    using tx_inv_by_id by (simp add: resolveConflicts_db)
  then have "\<exists>t'. tx_by_id (t_id L) (db (resolveConflicts u (conflicts res) w')) = Some t'
          \<and> t_type t' = rt_type R \<and> t_amount t' = rt_amount R \<and> t_note t' = rt_note R
          \<and> t_category t' = rt_category R \<and> t_updated_at t' = Some (rt_updated_at R)
          \<and> t_synced t' = 1"
    by (simp add: apply_remote_tx_def)
  then show ?thesis using mem tx_inv_by_id [OF inv1'] by blast
qed

lemma SyncProvider_syncAll_Inr:
  assumes "SyncProvider_syncAll p w = (Inr (), w')" "\<not> isSyncing p" "user_id p = Some u"
  shows "\<exists>res w1. pullFromServer u w = (Inr res, w1)
    \<and> pushToServer u (if conflicts res \<noteq> [] then resolveConflicts u (conflicts res) w1 else w1)
        = (Inr (), w')"
  using assms
  by (auto simp: SyncProvider_syncAll_def Let_def split: if_splits prod.splits sum.splits)

lemma cycle_book:
  assumes cyc: "SyncProvider_syncAll p w = (Inr (), w')" "\<not> isSyncing p" "user_id p = Some u"
    and d: "distinct (map b_id (books (db w)))" and L: "L \<in> set (books (db w))"
    and sL: "b_sync_id L = Some s"
    and oL: "\<forall>b \<in> set (books (db w)). b_sync_id b = Some s \<longrightarrow> b = L"
    and R: "R \<in> set (r_books (remote w))" "rb_id R = s" "rb_user_id R = u"
    and oR: "\<forall>rb \<in> set (r_books (remote w)). rb_id rb = s \<longrightarrow> rb = R"
    and fetched: "books_cursor w < rb_updated_at R"
    and newer: "book_local_updated L < rb_updated_at R"
  shows "\<exists>b'. book_by_id (b_id L) (db w') = Some b'
          \<and> b_name b' = rb_name R \<and> b_updated_at b' = Some (rb_updated_at R) \<and> b_synced b' = 1"
proof -
  from SyncProvider_syncAll_Inr [OF cyc]
  obtain res w1 where pl: "pullFromServer u w = (Inr res, w1)"
    and ps: "pushToServer u (if conflicts res \<noteq> [] then resolveConflicts u (conflicts res) w1 else w1)
        = (Inr (), w')"
    by blast
  let ?w2 = "if conflicts res \<noteq> [] then resolveConflicts u (conflicts res) w1 else w1"
  let ?A = "apply_remote_book R L"
  have inv: "book_inv (b_id L) s L (db w)" by (rule book_inv_intro [OF d L sL oL])
  from pullFromServer_tracks_book [OF inv R fetched oR pl]
  have inv1: "book_inv (b_id L) s (track_book R L) (db w1)"
    and ok: "\<forall>c \<in> set (conflicts res). book_conflict_ok (b_id L) R c"
    by blast+
  have tr: "track_book R L = ?A" using newer by (simp add: track_book_def)
  have inv1': "book_inv (b_id L) s ?A (db w1)" using inv1 tr by simp
  have "book_inv (b_id L) s
      (if \<exists>c \<in> set (conflicts res). conflict_hits_book (b_id L) c then apply_remote_book R ?A else ?A)
      (fold resolve_conflict (conflicts res) (db w1))"
    by (rule resolve_conflicts_book [OF inv1' ok])
  moreover have "(if \<exists>c \<in> set (conflicts res). conflict_hits_book (b_id L) c
      then apply_remote_book R ?A else ?A) = ?A"
    by (simp add: apply_remote_book_idem)
  ultimately have r: "book_inv (b_id L) s ?A (fold resolve_conflict (conflicts res) (db w1))"
    by (simp only:)
  have inv2: "book_inv (b_id L) s ?A (db ?w2)"
    using r inv1' by (simp add: resolveConflicts_db)
  have syn: "b_synced ?A = 1" by (simp add: apply_remote_book_def)
  have "book_inv (b_id L) s ?A (db (snd (pushToServer u ?w2)))"
    by (rule pushToServer_keeps_book [OF inv2 syn])
  then have "book_inv (b_id L) s ?A (db w')" using ps by simp
  then have "book_by_id (b_id L) (db w') = Some ?A" by (rule book_inv_by_id)
  then show ?thesis by (simp add: apply_remote_book_def)
qed

lemma cycle_tx:
  assumes cyc: "SyncProvider_syncAll p w = (Inr (), w')" "\<not> isSyncing p" "user_id p = Some u"
    and d: "distinct (map t_id (transactions (db w)))" and L: "L \<in> set (transactions (db w))"
    and sL: "t_sync_id L = Some s"
    and oL: "\<forall>t \<in> set (transactions (db w)). t_sync_id t = Some s \<longrightarrow> t = L"
    and R: "R \<in> set (r_transactions (remote w))" "rt_id R = s" "rt_user_id R = u"
    and oR: "\<forall>r \<in> set (r_transactions (remote w)). rt_id r = s \<longrightarrow> r = R"
    and fetched: "transactions_cursor w < rt_updated_at R"
    and newer: "tx_local_updated L < rt_updated_at R"
  shows "\<exists>t'. tx_by_id (t_id L) (db w') = Some t'
          \<and> t_type t' = rt_type R \<and> t_amount t' = rt_amount R \<and> t_note t' = rt_note R
          \<and> t_category t' = rt_category R \<and> t_updated_at t' = Some (rt_updated_at R)
          \<and> t_synced t' = 1"
proof -
  from SyncProvider_syncAll_Inr [OF cyc]
  obtain res w1 where pl: "pullFromServer u w = (Inr res, w1)"
    and ps: "pushToServer u (if conflicts res \<noteq> [] then resolveConflicts u (conflicts res) w1 else w1)
        = (Inr (), w')"
    by blast
  let ?w2 = "if conflicts res \<noteq> [] then resolveConflicts u (conflicts res) w1 else w1"
  let ?A = "apply_pulled_tx R L"
  have inv: "tx_inv (t_id L) s L (db w)" by (rule tx_inv_intro [OF d L sL oL])
  from pullFromServer_tracks_tx [OF inv R fetched oR pl]
  have inv1: "tx_inv (t_id L) s (track_tx R L) (db w1)"
    and ok: "\<forall>c \<in> set (conflicts res). tx_conflict_ok (t_id L) R c"
    by blast+
  have tr: "track_tx R L = ?A" using newer by (simp add: track_tx_def)
  have inv1': "tx_inv (t_id L) s ?A (db w1)" using inv1 tr by simp
  have "tx_inv (t_id L) s
      (if \<exists>c \<in> set (conflicts res). conflict_hits_tx (t_id L) c then apply_remote_tx R ?A else ?A)
      (fold resolve_conflict (conflicts res) (db w1))"
    by (rule resolve_conflicts_tx [OF inv1' ok])
  moreover have "(if \<exists>c \<in> set (conflicts res). conflict_hits_tx (t_id L) c
      then apply_remote_tx R ?A else ?A) = ?A"
    by (simp add: apply_remote_tx_idem)
  ultimately have r: "tx_inv (t_id L) s ?A (fold resolve_conflict (conflicts res) (db w1))"
    by (simp only:)
  have inv2: "tx_inv (t_id L) s ?A (db ?w2)"
    using r inv1' by (simp add: resolveConflicts_db)
  have syn: "t_synced ?A = 1" by (simp add: apply_pulled_tx_def)
  have "tx_inv (t_id L) s ?A (db (snd (pushToServer u ?w2)))"
    by (rule pushToServer_keeps_tx [OF inv2 syn])
  then have "tx_inv (t_id L) s ?A (db w')" using ps by simp
  then have "tx_by_id (t_id L) (db w') = Some ?A" by (rule tx_inv_by_id)
  then show ?thesis by (simp add: apply_pulled_tx_def)
qed

section \<open>Evaluating the engine on the sample stores\<close>

lemmas paired_defs =
  paired_world_def paired_book_def paired_tx_def paired_remote_book_def paired_remote_tx_def

lemmas pull_defs =
  pullFromServer_def getUserPreference_def select_books_def select_transactions_def
  begin_request_def pull_book_def pull_tx_def book_by_sync_id_def tx_by_sync_id_def
  book_local_updated_def tx_local_updated_def update_books_where_id_def
  update_transactions_where_id_def fk_violated_def epoch_def Let_def

lemmas cycle_defs =
  SyncProvider_syncAll_def ready_provider_def truthy_def resolveConflicts_def pushToServer_def
  unsynced_books_def unsynced_transactions_def read_clock_def setUserPreference_def

section \<open>Conflicts found by the pull\<close>

text \<open>
  C3, as the claim states it, fails: the pull asks the remote only for rows updated after
  the cursor. In \<open>unfetched_world\<close> the local book holds the sync id of the remote book and
  was edited at 1500, after the remote copy (1001); the cursor is 1005, so the remote copy
  is not fetched and the pull returns no conflict.
\<close>

theorem pull_misses_conflict_behind_cursor:
  "b_sync_id (paired_book ''Personal'' 1500 0) = Some (rb_id (paired_remote_book ''Household'' 1001 False))
   \<and> rb_updated_at (paired_remote_book ''Household'' 1001 False)
       < book_local_updated (paired_book ''Personal'' 1500 0)
   \<and> books (db unfetched_world) = [paired_book ''Personal'' 1500 0]
   \<and> r_books (remote unfetched_world) = [paired_remote_book ''Household'' 1001 False]
   \<and> fst (pullFromServer ''user_1'' unfetched_world)
       = Inr \<lparr>hasNewData = False, booksCount = 0, transactionsCount = 0, conflicts = []\<rparr>"
  by (simp add: unfetched_world_def paired_defs pull_defs)

text \<open>
  C3, amended. When \<open>pullFromServer\<close> returns a result: for every local record that is
  the only one holding its sync id, whose remote record (the only one of that id) belongs
  to the user and was updated after the cursor of its collection, and whose local
  timestamp (\<open>updated_at\<close>, else \<open>created_at\<close>) is strictly greater than the remote
  \<open>updated_at\<close>, the pair is in the conflicts of the result and the local record is as it
  was; \<open>resolveConflicts\<close> on that list then writes the remote name (for a transaction:
  type, amount, note, category), the remote \<open>updated_at\<close> and \<open>synced = 1\<close> over it.
\<close>

theorem pull_reports_fetched_conflict:
  assumes res: "pullFromServer u w = (Inr res, w')"
  shows
    "(distinct (map b_id (books (db w))) \<and> L \<in> set (books (db w)) \<and> b_sync_id L = Some s
      \<and> (\<forall>b \<in> set (books (db w)). b_sync_id b = Some s \<longrightarrow> b = L)
      \<and> R \<in> set (r_books (remote w)) \<and> rb_id R = s \<and> rb_user_id R = u
      \<and> (\<forall>rb \<in> set (r_books (remote w)). rb_id rb = s \<longrightarrow> rb = R)
      \<and> books_cursor w < rb_updated_at R \<and> rb_updated_at R < book_local_updated L
      \<longrightarrow>
        BookConflict (b_id L) s L R (book_local_updated L) (rb_updated_at R) \<in> set (conflicts res)
        \<and> book_by_id (b_id L) (db w') = Some L
        \<and> (\<exists>b'. book_by_id (b_id L) (db (resolveConflicts u (conflicts res) w')) = Some b'
              \<and> b_name b' = rb_name R \<and> b_updated_at b' = Some (rb_updated_at R)
              \<and> b_synced b' = 1))
   \<and> (distinct (map t_id (transactions (db w))) \<and> T \<in> set (transactions (db w))
      \<and> t_sync_id T = Some s'
      \<and> (\<forall>t \<in> set (transactions (db w)). t_sync_id t = Some s' \<longrightarrow> t = T)
      \<and> R' \<in> set (r_transactions (remote w)) \<and> rt_id R' = s' \<and> rt_user_id R' = u
      \<and> (\<forall>r \<in> set (r_transactions (remote w)). rt_id r = s' \<longrightarrow> r = R')
      \<and> transactions_cursor w < rt_updated_at R' \<and> rt_updated_at R' < tx_local_updated T
      \<longrightarrow>
        TransactionConflict (t_id T) s' T R' (tx_local_updated T) (rt_updated_at R')
          \<in> set (conflicts res)
        \<and> tx_by_id (t_id T) (db w') = Some T
        \<and> (\<exists>t'. tx_by_id (t_id T) (db (resolveConflicts u (conflicts res) w')) = Some t'
              \<and> t_type t' = rt_type R' \<and> t_amount t' = rt_amount R' \<and> t_note t' = rt_note R'
              \<and> t_category t' = rt_category R' \<and> t_updated_at t' = Some (rt_updated_at R')
              \<and> t_synced t' = 1))"
proof (intro conjI impI)
  assume h: "distinct (map b_id (books (db w))) \<and> L \<in> set (books (db w)) \<and> b_sync_id L = Some s
      \<and> (\<forall>b \<in> set (books (db w)). b_sync_id b = Some s \<longrightarrow> b = L)
      \<and> R \<in> set (r_books (remote w)) \<and> rb_id R = s \<and> rb_user_id R = u
      \<and> (\<forall>rb \<in> set (r_books (remote w)). rb_id rb = s \<longrightarrow> rb = R)
      \<and> books_cursor w < rb_updated_at R \<and> rb_updated_at R < book_local_updated L"
  have a: "BookConflict (b_id L) s L R (book_local_updated L) (rb_updated_at R) \<in> set (conflicts res)
    \<and> book_by_id (b_id L) (db w') = Some L
    \<and> (\<exists>b'. book_by_id (b_id L) (db (resolveConflicts u (conflicts res) w')) = Some b'
          \<and> b_name b' = rb_name R \<and> b_updated_at b' = Some (rb_updated_at R) \<and> b_synced b' = 1)"
    by (rule pull_then_resolve_book [OF res]) (use h in blast)+
  show "BookConflict (b_id L) s L R (book_local_updated L) (rb_updated_at R) \<in> set (conflicts res)"
    using a by blast
  show "book_by_id (b_id L) (db w') = Some L" using a by blast
  show "\<exists>b'. book_by_id (b_id L) (db (resolveConflicts u (conflicts res) w')) = Some b'
          \<and> b_name b' = rb_name R \<and> b_updated_at b' = Some (rb_updated_at R) \<and> b_synced b' = 1"
    using a by blast
next
  assume h: "distinct (map t_id (transactions (db w))) \<and> T \<in> set (transactions (db w))
      \<and> t_sync_id T = Some s'
      \<and> (\<forall>t \<in> set (transactions (db w)). t_sync_id t = Some s' \<longrightarrow> t = T)
      \<and> R' \<in> set (r_transactions (remote w)) \<and> rt_id R' = s' \<and> rt_user_id R' = u
      \<and> (\<forall>r \<in> set (r_transactions (remote w)). rt_id r = s' \<longrightarrow> r = R')
      \<and> transactions_cursor w < rt_updated_at R' \<and> rt_updated_at R' < tx_local_updated T"
  have a: "TransactionConflict (t_id T) s' T R' (tx_local_updated T) (rt_updated_at R')
        \<in> set (conflicts res)
    \<and> tx_by_id (t_id T) (db w') = Some T
    \<and> (\<exists>t'. tx_by_id (t_id T) (db (resolveConflicts u (conflicts res) w')) = Some t'
          \<and> t_type t' = rt_type R' \<and> t_amount t' = rt_amount R' \<and> t_note t' = rt_note R'
          \<and> t_category t' = rt_category R' \<and> t_updated_at t' = Some (rt_updated_at R')
          \<and> t_synced t' = 1)"
    by (rule pull_then_resolve_tx [OF res]) (use h in blast)+
  show "TransactionConflict (t_id T) s' T R' (tx_local_updated T) (rt_updated_at R')
        \<in> set (conflicts res)"
    using a by blast
  show "tx_by_id (t_id T) (db w') = Some T" using a by blast
  show "\<exists>t'. tx_by_id (t_id T) (db (resolveConflicts u (conflicts res) w')) = Some t'
          \<and> t_type t' = rt_type R' \<and> t_amount t' = rt_amount R' \<and> t_note t' = rt_note R'
          \<and> t_category t' = rt_category R' \<and> t_updated_at t' = Some (rt_updated_at R')
          \<and> t_synced t' = 1"
    using a by blast
qed

lemma pull_conflict_world:
  "pullFromServer ''user_1'' conflict_world =
     (Inr \<lparr>hasNewData = True, booksCount = 1, transactionsCount = 1,
           conflicts =
             [BookConflict 1 ''b-1'' (paired_book ''Personal'' 1500 0)
                (paired_remote_book ''Household'' 1200 False) 1500 1200,
              TransactionConflict 1 ''t-1'' (paired_tx 50000 1600 0)
                (paired_remote_tx 70000 1300 False) 1600 1300]\<rparr>,
      conflict_world\<lparr>remote := (remote conflict_world)\<lparr>requests := 2\<rparr>\<rparr>)"
  by (simp add: conflict_world_def paired_defs pull_defs)

theorem pull_reports_fetched_conflict_witness:
  "pullFromServer ''user_1'' conflict_world =
     (Inr \<lparr>hasNewData = True, booksCount = 1, transactionsCount = 1,
           conflicts =
             [BookConflict 1 ''b-1'' (paired_book ''Personal'' 1500 0)
                (paired_remote_book ''Household'' 1200 False) 1500 1200,
              TransactionConflict 1 ''t-1'' (paired_tx 50000 1600 0)
                (paired_remote_tx 70000 1300 False) 1600 1300]\<rparr>,
      conflict_world\<lparr>remote := (remote conflict_world)\<lparr>requests := 2\<rparr>\<rparr>)
   \<and> books (db conflict_world) = [paired_book ''Personal'' 1500 0]
   \<and> r_books (remote conflict_world) = [paired_remote_book ''Household'' 1200 False]
   \<and> transactions (db conflict_world) = [paired_tx 50000 1600 0]
   \<and> r_transactions (remote conflict_world) = [paired_remote_tx 70000 1300 False]
   \<and> books_cursor conflict_world = 1005 \<and> transactions_cursor conflict_world = 1006
   \<and> book_by_id 1 (db (conflict_world\<lparr>remote := (remote conflict_world)\<lparr>requests := 2\<rparr>\<rparr>))
        = Some (paired_book ''Personal'' 1500 0)
   \<and> tx_by_id 1 (db (conflict_world\<lparr>remote := (remote conflict_world)\<lparr>requests := 2\<rparr>\<rparr>))
        = Some (paired_tx 50000 1600 0)"
proof -
  let ?w = conflict_world
  let ?w' = "conflict_world\<lparr>remote := (remote conflict_world)\<lparr>requests := 2\<rparr>\<rparr>"
  let ?L = "paired_book ''Personal'' 1500 0"
  let ?R = "paired_remote_book ''Household'' 1200 False"
  let ?T = "paired_tx 50000 1600 0"
  let ?R' = "paired_remote_tx 70000 1300 False"
  have bs: "books (db ?w) = [?L]" and rbs: "r_books (remote ?w) = [?R]"
    and ts: "transactions (db ?w) = [?T]" and rts: "r_transactions (remote ?w) = [?R']"
    by (simp_all add: conflict_world_def paired_world_def)
  have cb: "books_cursor ?w = 1005" and ct: "transactions_cursor ?w = 1006"
    by (simp_all add: books_cursor_def transactions_cursor_def getUserPreference_def
        conflict_world_def paired_world_def)
  have hb: "distinct (map b_id (books (db ?w))) \<and> ?L \<in> set (books (db ?w))
      \<and> b_sync_id ?L = Some ''b-1''
      \<and> (\<forall>b \<in> set (books (db ?w)). b_sync_id b = Some ''b-1'' \<longrightarrow> b = ?L)
      \<and> ?R \<in> set (r_books (remote ?w)) \<and> rb_id ?R = ''b-1'' \<and> rb_user_id ?R = ''user_1''
      \<and> (\<forall>rb \<in> set (r_books (remote ?w)). rb_id rb = ''b-1'' \<longrightarrow> rb = ?R)
      \<and> books_cursor ?w < rb_updated_at ?R \<and> rb_updated_at ?R < book_local_updated ?L"
    unfolding bs rbs cb
    by (simp add: paired_book_def paired_remote_book_def book_local_updated_def)
  have ht: "distinct (map t_id (transactions (db ?w))) \<and> ?T \<in> set (transactions (db ?w))
      \<and> t_sync_id ?T = Some ''t-1''
      \<and> (\<forall>t \<in> set (transactions (db ?w)). t_sync_id t = Some ''t-1'' \<longrightarrow> t = ?T)
      \<and> ?R' \<in> set (r_transactions (remote ?w)) \<and> rt_id ?R' = ''t-1''
      \<and> rt_user_id ?R' = ''user_1''
      \<and> (\<forall>r \<in> set (r_transactions (remote ?w)). rt_id r = ''t-1'' \<longrightarrow> r = ?R')
      \<and> transactions_cursor ?w < rt_updated_at ?R' \<and> rt_updated_at ?R' < tx_local_updated ?T"
    unfolding ts rts ct
    by (simp add: paired_tx_def paired_remote_tx_def tx_local_updated_def)
  note T = pull_reports_fetched_conflict [OF pull_conflict_world,
      of ?L "''b-1''" ?R ?T "''t-1''" ?R']
  have kb: "book_by_id (b_id ?L) (db ?w') = Some ?L"
    using T [THEN conjunct1, THEN mp, OF hb] by blast
  have kt: "tx_by_id (t_id ?T) (db ?w') = Some ?T"
    using T [THEN conjunct2, THEN mp, OF ht] by blast
  have i1: "b_id ?L = 1" "t_id ?T = 1" by (simp_all add: paired_book_def paired_tx_def)
  show ?thesis
    using pull_conflict_world bs rbs ts rts cb ct kb kt unfolding i1 by (intro conjI)
qed

section \<open>Remote wins over a full cycle\<close>

lemma integer_affinity_b1: "integer_affinity ''b-1'' = TextKey ''b-1''"
  by (simp add: integer_affinity_def numeric_literal_def take_sign_def sqlite_isspace_def
      is_digit_def decimal_def Let_def)

lemma integer_affinity_sample_id:
  "integer_affinity ''4c4c4c4c-4c4c-44c4-b4c4-c4c4c4c4c4c4''
     = TextKey ''4c4c4c4c-4c4c-44c4-b4c4-c4c4c4c4c4c4''"
  by (simp add: integer_affinity_def numeric_literal_def take_sign_def sqlite_isspace_def
      is_digit_def decimal_def Let_def)

text \<open>
  When the remote copy of a transaction the local store holds is not older than the
  local one, the pull binds the remote book id to \<open>book_id\<close>. With foreign keys enforced
  and an id that spells no integer, the statement fails whatever the rest of the store.
\<close>

lemma pull_tx_update_rejected:
  assumes "tx_by_sync_id (rt_id r) d = Some X" and "\<not> rt_updated_at r < tx_local_updated X"
    and "foreign_keys d" and "integer_affinity (rt_book_id r) = TextKey k"
  shows "pull_tx r d cs = (Some ForeignKeyConstraintFailed, d, cs)"
  using assms by (simp add: pull_tx_def fk_violated_def Let_def)

text \<open>
  C1. After a cycle of \<open>SyncProvider.syncAll\<close> a local record whose remote copy is newer
  should hold the remote fields. For a transaction it does not: in
  \<open>newer_remote_tx_world\<close> the store enforces foreign keys, the remote transaction
  (amount 70000, updated at 1300) is newer than the local one (amount 50000, updated at
  1002) and than the cursor (1006), and both belong to the same book. The pull fetches
  it and its \<open>UPDATE\<close> binds the remote book id \<open>b-1\<close> to the integer column \<open>book_id\<close>;
  the statement violates the foreign key, the pull throws, resolve and push do not run.
  The cycle ends with the error and a local store exactly as it was, cursors included,
  so the next cycle fetches the same row and fails the same way.
\<close>

theorem syncAll_fails_on_fetched_newer_remote_transaction:
  "foreign_keys (db newer_remote_tx_world)
   \<and> transactions (db newer_remote_tx_world) = [paired_tx 50000 1002 1]
   \<and> r_transactions (remote newer_remote_tx_world) = [paired_remote_tx 70000 1300 False]
   \<and> t_sync_id (paired_tx 50000 1002 1) = Some (rt_id (paired_remote_tx 70000 1300 False))
   \<and> rt_user_id (paired_remote_tx 70000 1300 False) = ''user_1''
   \<and> book_sync_id_of (t_book_id (paired_tx 50000 1002 1)) (db newer_remote_tx_world)
       = Some (rt_book_id (paired_remote_tx 70000 1300 False))
   \<and> tx_local_updated (paired_tx 50000 1002 1) = 1002
   \<and> rt_updated_at (paired_remote_tx 70000 1300 False) = 1300
   \<and> transactions_cursor newer_remote_tx_world = 1006
   \<and> SyncProvider_syncAll ready_provider newer_remote_tx_world
       = (Inl (SqlError ForeignKeyConstraintFailed),
          newer_remote_tx_world\<lparr>remote := (remote newer_remote_tx_world)\<lparr>requests := 2\<rparr>\<rparr>)
   \<and> t_amount (paired_tx 50000 1002 1) = 50000
   \<and> rt_amount (paired_remote_tx 70000 1300 False) = 70000
   \<and> fst (SyncProvider_syncAll ready_provider
        (snd (SyncProvider_syncAll ready_provider newer_remote_tx_world)))
       = Inl (SqlError ForeignKeyConstraintFailed)"
proof -
  have run: "SyncProvider_syncAll ready_provider newer_remote_tx_world
       = (Inl (SqlError ForeignKeyConstraintFailed),
          newer_remote_tx_world\<lparr>remote := (remote newer_remote_tx_world)\<lparr>requests := 2\<rparr>\<rparr>)"
    by (simp add: newer_remote_tx_world_def paired_defs pull_defs cycle_defs
        integer_affinity_b1)
  have again: "fst (SyncProvider_syncAll ready_provider
        (snd (SyncProvider_syncAll ready_provider newer_remote_tx_world)))
       = Inl (SqlError ForeignKeyConstraintFailed)"
    unfolding run
    by (simp add: newer_remote_tx_world_def paired_defs pull_defs cycle_defs
        integer_affinity_b1)
  have store: "foreign_keys (db newer_remote_tx_world)"
    "transactions (db newer_remote_tx_world) = [paired_tx 50000 1002 1]"
    "r_transactions (remote newer_remote_tx_world) = [paired_remote_tx 70000 1300 False]"
    "transactions_cursor newer_remote_tx_world = 1006"
    by (simp_all add: newer_remote_tx_world_def paired_world_def transactions_cursor_def
        getUserPreference_def)
  have rows: "t_sync_id (paired_tx 50000 1002 1) = Some (rt_id (paired_remote_tx 70000 1300 False))"
    "rt_user_id (paired_remote_tx 70000 1300 False) = ''user_1''"
    "tx_local_updated (paired_tx 50000 1002 1) = 1002"
    "rt_updated_at (paired_remote_tx 70000 1300 False) = 1300"
    "t_amount (paired_tx 50000 1002 1) = 50000"
    "rt_amount (paired_remote_tx 70000 1300 False) = 70000"
    by (simp_all add: paired_tx_def paired_remote_tx_def tx_local_updated_def)
  have book: "book_sync_id_of (t_book_id (paired_tx 50000 1002 1)) (db newer_remote_tx_world)
       = Some (rt_book_id (paired_remote_tx 70000 1300 False))"
    by (simp add: newer_remote_tx_world_def paired_defs book_sync_id_of_def)
  show ?thesis by (intro conjI store rows book run again)
qed

theorem syncAll_fails_on_fetched_newer_remote_transaction_witness:
  "\<not> isSyncing ready_provider \<and> isReady ready_provider \<and> supabase ready_provider
   \<and> truthy (user_id ready_provider) \<and> \<not> refreshTokenFails ready_provider
   \<and> fst (SyncProvider_syncAll ready_provider newer_remote_tx_world)
       = Inl (SqlError ForeignKeyConstraintFailed)
   \<and> transactions (db (snd (SyncProvider_syncAll ready_provider newer_remote_tx_world)))
       = [paired_tx 50000 1002 1]
   \<and> transactions_cursor (snd (SyncProvider_syncAll ready_provider newer_remote_tx_world))
       = 1006"
proof -
  note T = syncAll_fails_on_fetched_newer_remote_transaction
  have run: "SyncProvider_syncAll ready_provider newer_remote_tx_world
       = (Inl (SqlError ForeignKeyConstraintFailed),
          newer_remote_tx_world\<lparr>remote := (remote newer_remote_tx_world)\<lparr>requests := 2\<rparr>\<rparr>)"
    using T by blast
  have ts: "transactions (db newer_remote_tx_world) = [paired_tx 50000 1002 1]"
    and cur: "transactions_cursor newer_remote_tx_world = 1006"
    using T by blast+
  have p: "\<not> isSyncing ready_provider" "isReady ready_provider" "supabase ready_provider"
    "truthy (user_id ready_provider)" "\<not> refreshTokenFails ready_provider"
    by (simp_all add: ready_provider_def truthy_def)
  have a: "fst (SyncProvider_syncAll ready_provider newer_remote_tx_world)
       = Inl (SqlError ForeignKeyConstraintFailed)"
    unfolding run by simp
  have b: "transactions (db (snd (SyncProvider_syncAll ready_provider newer_remote_tx_world)))
       = [paired_tx 50000 1002 1]"
    unfolding run using ts by simp
  have c: "transactions_cursor (snd (SyncProvider_syncAll ready_provider newer_remote_tx_world))
       = 1006"
    unfolding run using cur by (simp add: transactions_cursor_def getUserPreference_def)
  show ?thesis by (intro conjI p a b c)
qed

text \<open>
  Where the \<open>PRAGMA\<close> did not take effect the statement goes through and leaves the
  text in \<open>book_id\<close>: the transaction holds the remote fields and no longer joins to its
  book.
\<close>

lemma pull_writes_remote_book_id_into_book_id:
  "\<not> foreign_keys (db newer_remote_world)
   \<and> transactions (db newer_remote_world) = [paired_tx 50000 1002 1]
   \<and> t_book_id (paired_tx 50000 1002 1) = IntKey 1
   \<and> transactions (db (snd (pullFromServer ''user_1'' newer_remote_world)))
       = [(paired_tx 70000 1300 1)\<lparr>t_book_id := TextKey ''b-1''\<rparr>]
   \<and> book_sync_id_of (TextKey ''b-1'') (db (snd (pullFromServer ''user_1'' newer_remote_world)))
       = None"
  by (simp add: newer_remote_world_def paired_defs pull_defs book_sync_id_of_def
      integer_affinity_b1)

text \<open>
  The pull asks for the rows updated after the cursor only. A remote record that is newer
  than the local one but not newer than the cursor is never fetched: in
  \<open>missed_remote_world\<close> the remote book was updated at 1003, after the local row (1001)
  and before the cursor (1005); the cycle completes and the local row keeps its own name.
\<close>

theorem syncAll_misses_newer_remote_behind_cursor:
  "b_sync_id (paired_book ''Personal'' 1001 1) = Some (rb_id (paired_remote_book ''Household'' 1003 False))
   \<and> book_local_updated (paired_book ''Personal'' 1001 1)
       < rb_updated_at (paired_remote_book ''Household'' 1003 False)
   \<and> books (db missed_remote_world) = [paired_book ''Personal'' 1001 1]
   \<and> r_books (remote missed_remote_world) = [paired_remote_book ''Household'' 1003 False]
   \<and> fst (SyncProvider_syncAll ready_provider missed_remote_world) = Inr ()
   \<and> books (db (snd (SyncProvider_syncAll ready_provider missed_remote_world)))
       = [paired_book ''Personal'' 1001 1]
   \<and> b_name (paired_book ''Personal'' 1001 1) \<noteq> rb_name (paired_remote_book ''Household'' 1003 False)"
  by (simp add: missed_remote_world_def paired_defs pull_defs cycle_defs)

section \<open>Tombstones\<close>

text \<open>
  C5. Soft-deleting a book marks it and its transactions deleted and unsynced, a push
  sends \<open>deleted\<close> for them, and a pull that fetches a remote record with
  \<open>deleted = true\<close> for a record not yet deleted locally sets \<open>deleted\<close> on the local
  record. The pull does not do the last: in \<open>tombstone_world\<close> the remote book was deleted
  at 1200, after the cursor; the pull fetches it, writes its name and \<open>updated_at\<close> over
  the local row and leaves \<open>deleted = 0\<close>.
\<close>

theorem pull_ignores_remote_tombstone:
  "books (db tombstone_world) = [paired_book ''Personal'' 1001 1]
   \<and> b_deleted (paired_book ''Personal'' 1001 1) = 0
   \<and> r_books (remote tombstone_world) = [paired_remote_book ''Personal'' 1200 True]
   \<and> rb_deleted (paired_remote_book ''Personal'' 1200 True)
   \<and> fst (pullFromServer ''user_1'' tombstone_world)
       = Inr \<lparr>hasNewData = True, booksCount = 1, transactionsCount = 0, conflicts = []\<rparr>
   \<and> books (db (snd (pullFromServer ''user_1'' tombstone_world)))
       = [paired_book ''Personal'' 1200 1]
   \<and> b_deleted (paired_book ''Personal'' 1200 1) = 0"
  by (simp add: tombstone_world_def paired_defs pull_defs)

section \<open>The cursors\<close>

text \<open>
  C6, as the claim states it, fails: the push sets both cursors to the clock whatever the
  pull fetched. In \<open>quiet_world\<close> nothing changed on either side; the pull fetches nothing
  and the cycle moves the cursors from 1005 and 1006 to 2000 and 2002.
\<close>

theorem syncAll_advances_cursor_without_new_data:
  "fst (pullFromServer ''user_1'' quiet_world)
     = Inr \<lparr>hasNewData = False, booksCount = 0, transactionsCount = 0, conflicts = []\<rparr>
   \<and> getUserPreference ''last_sync_books'' quiet_world = Some 1005
   \<and> getUserPreference ''last_sync_transactions'' quiet_world = Some 1006
   \<and> fst (SyncProvider_syncAll ready_provider quiet_world) = Inr ()
   \<and> getUserPreference ''last_sync_books''
        (snd (SyncProvider_syncAll ready_provider quiet_world)) = Some 2000
   \<and> getUserPreference ''last_sync_transactions''
        (snd (SyncProvider_syncAll ready_provider quiet_world)) = Some 2002"
  by (simp add: quiet_world_def paired_defs pull_defs cycle_defs)

text \<open>
  The older \<open>SyncService.syncAll\<close> does the same on that store: two requests that
  fetch nothing, no row touched, and both cursors moved to the clock.
\<close>

lemmas legacy_defs =
  SyncService_syncAll_def syncBooks_def syncTransactions_def getUserPreference_def
  select_books_def select_transactions_def begin_request_def epoch_def unsynced_books_def
  not_synced_transactions_def read_clock_def setUserPreference_def truthy_def Let_def

lemma syncAll_of_the_service_advances_cursor_without_new_data:
  "fst (SyncService_syncAll (Some ''user_1'') True quiet_world) = Inr ()
   \<and> requests (remote (snd (SyncService_syncAll (Some ''user_1'') True quiet_world))) = 2
   \<and> books (db (snd (SyncService_syncAll (Some ''user_1'') True quiet_world)))
       = books (db quiet_world)
   \<and> transactions (db (snd (SyncService_syncAll (Some ''user_1'') True quiet_world)))
       = transactions (db quiet_world)
   \<and> getUserPreference ''last_sync_books''
        (snd (SyncService_syncAll (Some ''user_1'') True quiet_world)) = Some 2000
   \<and> getUserPreference ''last_sync_transactions''
        (snd (SyncService_syncAll (Some ''user_1'') True quiet_world)) = Some 2002"
  by (simp add: quiet_world_def paired_world_def paired_book_def paired_tx_def
      paired_remote_book_def paired_remote_tx_def legacy_defs)

lemma pullFromServer_frame:
  "clock (snd (pullFromServer u w)) = clock w \<and> ticks (snd (pullFromServer u w)) = ticks w
   \<and> user_preferences (db (snd (pullFromServer u w))) = user_preferences (db w)"
proof -
  obtain ba r1 where sb: "select_books u (books_cursor w) (remote w) = (ba, r1)"
    by (cases "select_books u (books_cursor w) (remote w)")
  show ?thesis
  proof (cases ba)
    case None
    then show ?thesis
      using sb by (simp add: pullFromServer_def books_cursor_def Let_def)
  next
    case (Some rbs)
    obtain d1 cs1 where fb: "fold pull_book rbs (db w, []) = (d1, cs1)"
      by (cases "fold pull_book rbs (db w, [])")
    have p1: "user_preferences d1 = user_preferences (db w)"
      using pull_books_frame [of rbs "db w" "[]"] fb by simp
    obtain ta r2 where stx: "select_transactions u (transactions_cursor w) r1 = (ta, r2)"
      by (cases "select_transactions u (transactions_cursor w) r1")
    show ?thesis
    proof (cases ta)
      case None
      then show ?thesis
        using sb Some fb stx p1
        by (simp add: pullFromServer_def books_cursor_def transactions_cursor_def Let_def)
    next
      case st: (Some rts)
      obtain e d2 cs2 where pt: "pull_transactions rts d1 cs1 = (e, d2, cs2)"
        by (cases "pull_transactions rts d1 cs1") auto
      have p2: "user_preferences d2 = user_preferences d1"
        using pull_transactions_frame [of rts d1 cs1] pt by auto
      show ?thesis
        using sb Some fb stx st pt p1 p2
        by (cases e)
          (simp_all add: pullFromServer_def books_cursor_def transactions_cursor_def Let_def)
    qed
  qed
qed

lemma resolve_conflict_prefs:
  "user_preferences (resolve_conflict c d) = user_preferences d"
  by (cases c) (simp_all add: update_books_where_id_def update_transactions_where_id_def)

lemma resolveConflicts_frame:
  "clock (resolveConflicts u cs w) = clock w \<and> ticks (resolveConflicts u cs w) = ticks w
   \<and> user_preferences (db (resolveConflicts u cs w)) = user_preferences (db w)"
proof -
  have "user_preferences (fold resolve_conflict cs d) = user_preferences d" for d
    by (induction cs arbitrary: d) (simp_all add: resolve_conflict_prefs)
  then show ?thesis by (simp add: resolveConflicts_def)
qed

lemma push_book_frame:
  "clock (push_book u b w) = clock w \<and> ticks w \<le> ticks (push_book u b w)
   \<and> user_preferences (db (push_book u b w)) = user_preferences (db w)"
  by (simp add: push_book_def read_clock_def Let_def case_prod_beta update_books_where_id_def
      split: option.splits)

lemma push_books_frame:
  "clock (fold (push_book u) bs w) = clock w \<and> ticks w \<le> ticks (fold (push_book u) bs w)
   \<and> user_preferences (db (fold (push_book u) bs w)) = user_preferences (db w)"
proof (induction bs arbitrary: w)
  case Nil
  show ?case by simp
next
  case (Cons b bs)
  have a: "clock (push_book u b w) = clock w" "ticks w \<le> ticks (push_book u b w)"
    "user_preferences (db (push_book u b w)) = user_preferences (db w)"
    using push_book_frame [of u b w] by simp_all
  have b: "clock (fold (push_book u) bs (push_book u b w)) = clock (push_book u b w)"
    "ticks (push_book u b w) \<le> ticks (fold (push_book u) bs (push_book u b w))"
    "user_preferences (db (fold (push_book u) bs (push_book u b w)))
       = user_preferences (db (push_book u b w))"
    using Cons.IH [of "push_book u b w"] by simp_all
  show ?case using a b by simp
qed

lemma push_tx_frame:
  "clock (snd (push_tx u x w)) = clock w \<and> ticks w \<le> ticks (snd (push_tx u x w))
   \<and> user_preferences (db (snd (push_tx u x w))) = user_preferences (db w)"
  by (cases x)
    (simp add: push_tx_def read_clock_def Let_def case_prod_beta update_transactions_where_id_def)

lemma push_transactions_frame:
  "clock (snd (push_transactions u xs w)) = clock w
   \<and> ticks w \<le> ticks (snd (push_transactions u xs w))
   \<and> user_preferences (db (snd (push_transactions u xs w))) = user_preferences (db w)"
proof (induction xs arbitrary: w)
  case Nil
  show ?case by simp
next
  case (Cons x xs)
  obtain e w1 where st: "push_tx u x w = (e, w1)" by (cases "push_tx u x w")
  have a: "clock w1 = clock w" "ticks w \<le> ticks w1"
    "user_preferences (db w1) = user_preferences (db w)"
    using push_tx_frame [of u x w] st by simp_all
  show ?case
  proof (cases e)
    case (Some err)
    then show ?thesis using st a by simp
  next
    case None
    have b: "clock (snd (push_transactions u xs w1)) = clock w1"
      "ticks w1 \<le> ticks (snd (push_transactions u xs w1))"
      "user_preferences (db (snd (push_transactions u xs w1))) = user_preferences (db w1)"
      using Cons.IH [of w1] by simp_all
    show ?thesis using st None a b by simp
  qed
qed

lemma pushToServer_cursors:
  "(\<exists>e. fst (pushToServer u w) = Inl e
        \<and> user_preferences (db (snd (pushToServer u w))) = user_preferences (db w))
   \<or> (fst (pushToServer u w) = Inr ()
        \<and> (\<exists>k. ticks w \<le> k
              \<and> user_preferences (db (snd (pushToServer u w)))
                  = (user_preferences (db w))
                      (''last_sync_books'' \<mapsto> clock w k,
                       ''last_sync_transactions'' \<mapsto> clock w (k + 2))))"
proof -
  let ?w1 = "fold (push_book u) (unsynced_books (db w)) w"
  obtain e w2 where pt: "push_transactions u (unsynced_transactions (db ?w1)) ?w1 = (e, w2)"
    by (cases "push_transactions u (unsynced_transactions (db ?w1)) ?w1")
  have a: "clock ?w1 = clock w" "ticks w \<le> ticks ?w1"
    "user_preferences (db ?w1) = user_preferences (db w)"
    using push_books_frame [of u "unsynced_books (db w)" w] by simp_all
  have b: "clock w2 = clock ?w1" "ticks ?w1 \<le> ticks w2"
    "user_preferences (db w2) = user_preferences (db ?w1)"
    using push_transactions_frame [of u "unsynced_transactions (db ?w1)" ?w1] pt by simp_all
  show ?thesis
  proof (cases e)
    case (Some err)
    then show ?thesis using pt a b by (simp add: pushToServer_def Let_def)
  next
    case None
    have "fst (pushToServer u w) = Inr ()"
      using pt None by (simp add: pushToServer_def Let_def case_prod_beta)
    moreover have "user_preferences (db (snd (pushToServer u w)))
        = (user_preferences (db w))
            (''last_sync_books'' \<mapsto> clock w (ticks w2),
             ''last_sync_transactions'' \<mapsto> clock w (ticks w2 + 2))"
      using pt None a b
      by (simp add: pushToServer_def Let_def read_clock_def setUserPreference_def)
    moreover have "ticks w \<le> ticks w2" using a b by simp
    ultimately show ?thesis by blast
  qed
qed


lemma SyncProvider_syncAll_cursors:
  "((fst (SyncProvider_syncAll p w) \<noteq> Inr () \<or> isSyncing p)
      \<and> user_preferences (db (snd (SyncProvider_syncAll p w))) = user_preferences (db w))
   \<or> (fst (SyncProvider_syncAll p w) = Inr () \<and> \<not> isSyncing p
        \<and> (\<exists>k. ticks w \<le> k
              \<and> user_preferences (db (snd (SyncProvider_syncAll p w)))
                  = (user_preferences (db w))
                      (''last_sync_books'' \<mapsto> clock w k,
                       ''last_sync_transactions'' \<mapsto> clock w (k + 2))))"
proof (cases "isSyncing p \<or> \<not> isReady p \<or> \<not> supabase p \<or> \<not> truthy (user_id p)
    \<or> refreshTokenFails p")
  case True
  then show ?thesis by (auto simp: SyncProvider_syncAll_def)
next
  case False
  let ?u = "the (user_id p)"
  obtain r w1 where pl: "pullFromServer ?u w = (r, w1)" by (cases "pullFromServer ?u w")
  have f1: "clock w1 = clock w" "ticks w1 = ticks w"
    "user_preferences (db w1) = user_preferences (db w)"
    using pullFromServer_frame [of ?u w] pl by simp_all
  show ?thesis
  proof (cases r)
    case (Inl e)
    then show ?thesis using False pl f1 by (simp add: SyncProvider_syncAll_def)
  next
    case (Inr res)
    let ?w2 = "if conflicts res \<noteq> [] then resolveConflicts ?u (conflicts res) w1 else w1"
    have f2: "clock ?w2 = clock w" "ticks ?w2 = ticks w"
      "user_preferences (db ?w2) = user_preferences (db w)"
      using f1 resolveConflicts_frame [of ?u "conflicts res" w1] by simp_all
    have eq: "SyncProvider_syncAll p w = pushToServer ?u ?w2"
      using False pl Inr by (simp add: SyncProvider_syncAll_def Let_def)
    from pushToServer_cursors [of ?u ?w2]
    show ?thesis unfolding eq f2 using False by auto
  qed
qed

text \<open>
  C6, amended. \<open>pullFromServer\<close> never writes a cursor. A cycle of
  \<open>SyncProvider.syncAll\<close> that fails or is skipped leaves both cursors as they were; a
  cycle that completes sets the cursor of each collection to a reading of the clock taken
  at the end of the push, whether or not the pull fetched anything. So a cursor does not
  decrease over a cycle when no later reading of the clock is below it.
\<close>

theorem cursor_is_set_from_the_clock_by_each_completed_cycle:
  "user_preferences (db (snd (pullFromServer u w))) = user_preferences (db w)
   \<and> (fst (SyncProvider_syncAll p w) \<noteq> Inr () \<or> isSyncing p \<longrightarrow>
         user_preferences (db (snd (SyncProvider_syncAll p w))) = user_preferences (db w))
   \<and> (fst (SyncProvider_syncAll p w) = Inr () \<and> \<not> isSyncing p \<longrightarrow>
         (\<exists>k. ticks w \<le> k
            \<and> getUserPreference ''last_sync_books'' (snd (SyncProvider_syncAll p w))
                = Some (clock w k)
            \<and> getUserPreference ''last_sync_transactions'' (snd (SyncProvider_syncAll p w))
                = Some (clock w (k + 2))))
   \<and> ((\<forall>k. ticks w \<le> k \<longrightarrow> books_cursor w \<le> clock w k) \<longrightarrow>
         books_cursor w \<le> books_cursor (snd (SyncProvider_syncAll p w)))
   \<and> ((\<forall>k. ticks w \<le> k \<longrightarrow> transactions_cursor w \<le> clock w k) \<longrightarrow>
         transactions_cursor w \<le> transactions_cursor (snd (SyncProvider_syncAll p w)))"
proof -
  let ?w' = "snd (SyncProvider_syncAll p w)"
  have a: "user_preferences (db (snd (pullFromServer u w))) = user_preferences (db w)"
    using pullFromServer_frame [of u w] by simp
  from SyncProvider_syncAll_cursors [of p w]
  consider (kept) "fst (SyncProvider_syncAll p w) \<noteq> Inr () \<or> isSyncing p"
      "user_preferences (db ?w') = user_preferences (db w)"
    | (moved) k where "fst (SyncProvider_syncAll p w) = Inr ()" "\<not> isSyncing p" "ticks w \<le> k"
      "user_preferences (db ?w')
         = (user_preferences (db w))
             (''last_sync_books'' \<mapsto> clock w k, ''last_sync_transactions'' \<mapsto> clock w (k + 2))"
    by blast
  then show ?thesis
  proof cases
    case kept
    have "books_cursor ?w' = books_cursor w" "transactions_cursor ?w' = transactions_cursor w"
      using kept(2) by (simp_all add: books_cursor_def transactions_cursor_def getUserPreference_def)
    then show ?thesis using a kept by auto
  next
    case moved
    have b: "getUserPreference ''last_sync_books'' ?w' = Some (clock w k)"
      and t: "getUserPreference ''last_sync_transactions'' ?w' = Some (clock w (k + 2))"
      using moved(4) by (simp_all add: getUserPreference_def)
    have cb: "books_cursor ?w' = clock w k" and ct: "transactions_cursor ?w' = clock w (k + 2)"
      using b t by (simp_all add: books_cursor_def transactions_cursor_def)
    have m1: "(\<forall>k. ticks w \<le> k \<longrightarrow> books_cursor w \<le> clock w k) \<longrightarrow>
         books_cursor w \<le> books_cursor ?w'"
      unfolding cb using moved(3) by blast
    have "ticks w \<le> k + 2" using moved(3) by simp
    then have m2: "(\<forall>k. ticks w \<le> k \<longrightarrow> transactions_cursor w \<le> clock w k) \<longrightarrow>
         transactions_cursor w \<le> transactions_cursor ?w'"
      unfolding ct by blast
    have c3: "fst (SyncProvider_syncAll p w) = Inr () \<and> \<not> isSyncing p \<longrightarrow>
         (\<exists>k. ticks w \<le> k
            \<and> getUserPreference ''last_sync_books'' ?w' = Some (clock w k)
            \<and> getUserPreference ''last_sync_transactions'' ?w' = Some (clock w (k + 2)))"
      using moved(3) b t by blast
    have c2: "fst (SyncProvider_syncAll p w) \<noteq> Inr () \<or> isSyncing p \<longrightarrow>
         user_preferences (db ?w') = user_preferences (db w)"
      using moved(1,2) by simp
    show ?thesis using a c2 c3 m1 m2 by (intro conjI)
  qed
qed

theorem cursor_is_set_from_the_clock_by_each_completed_cycle_witness:
  "fst (SyncProvider_syncAll ready_provider quiet_world) = Inr ()
   \<and> \<not> isSyncing ready_provider
   \<and> books_cursor quiet_world = 1005 \<and> transactions_cursor quiet_world = 1006
   \<and> clock quiet_world = (\<lambda>n. 2000 + int n)
   \<and> user_preferences (db (snd (pullFromServer ''user_1'' quiet_world)))
       = user_preferences (db quiet_world)
   \<and> (\<exists>k. ticks quiet_world \<le> k
        \<and> getUserPreference ''last_sync_books'' (snd (SyncProvider_syncAll ready_provider quiet_world))
            = Some (clock quiet_world k)
        \<and> getUserPreference ''last_sync_transactions''
            (snd (SyncProvider_syncAll ready_provider quiet_world))
            = Some (clock quiet_world (k + 2)))
   \<and> books_cursor quiet_world \<le> books_cursor (snd (SyncProvider_syncAll ready_provider quiet_world))
   \<and> transactions_cursor quiet_world
       \<le> transactions_cursor (snd (SyncProvider_syncAll ready_provider quiet_world))"
proof -
  have r: "fst (SyncProvider_syncAll ready_provider quiet_world) = Inr ()"
    by (simp add: quiet_world_def paired_defs pull_defs cycle_defs)
  have s: "\<not> isSyncing ready_provider" by (simp add: ready_provider_def)
  have vb: "books_cursor quiet_world = 1005" and vt: "transactions_cursor quiet_world = 1006"
    and vc: "clock quiet_world = (\<lambda>n. 2000 + int n)"
    by (simp_all add: quiet_world_def paired_world_def books_cursor_def transactions_cursor_def
        getUserPreference_def)
  have hb: "\<forall>k. ticks quiet_world \<le> k \<longrightarrow> books_cursor quiet_world \<le> clock quiet_world k"
    by (simp add: vb vc)
  have ht: "\<forall>k. ticks quiet_world \<le> k \<longrightarrow> transactions_cursor quiet_world \<le> clock quiet_world k"
    by (simp add: vt vc)
  note T = cursor_is_set_from_the_clock_by_each_completed_cycle
      [of "''user_1''" quiet_world ready_provider]
  have c1: "user_preferences (db (snd (pullFromServer ''user_1'' quiet_world)))
       = user_preferences (db quiet_world)"
    using T by (rule conjunct1)
  have c3: "\<exists>k. ticks quiet_world \<le> k
        \<and> getUserPreference ''last_sync_books'' (snd (SyncProvider_syncAll ready_provider quiet_world))
            = Some (clock quiet_world k)
        \<and> getUserPreference ''last_sync_transactions''
            (snd (SyncProvider_syncAll ready_provider quiet_world))
            = Some (clock quiet_world (k + 2))"
    using T [THEN conjunct2, THEN conjunct2, THEN conjunct1] r s by blast
  have c4: "books_cursor quiet_world
      \<le> books_cursor (snd (SyncProvider_syncAll ready_provider quiet_world))"
    using T [THEN conjunct2, THEN conjunct2, THEN conjunct2, THEN conjunct1] hb by blast
  have c5: "transactions_cursor quiet_world
       \<le> transactions_cursor (snd (SyncProvider_syncAll ready_provider quiet_world))"
    using T [THEN conjunct2, THEN conjunct2, THEN conjunct2, THEN conjunct2] ht by blast
  show ?thesis using r s vb vt vc c1 c3 c4 c5 by (intro conjI)
qed

section \<open>Books are pushed before their transactions\<close>

lemma find_map_update_other:
  "(\<And>x. key (f x) = key x) \<Longrightarrow> j \<noteq> i \<Longrightarrow>
   find (\<lambda>x. key x = i) (map (\<lambda>x. if key x = j then f x else x) xs)
     = find (\<lambda>x. key x = i) xs"
  by (induction xs) auto

lemma tx_by_id_update_other:
  "(\<And>t. t_id (f t) = t_id t) \<Longrightarrow> j \<noteq> i \<Longrightarrow>
   tx_by_id i (update_transactions_where_id j f d) = tx_by_id i d"
  unfolding tx_by_id_def update_transactions_where_id_def
  by (simp add: find_map_update_other [where key = t_id])

lemma push_tx_skips:
  "\<not> truthy bsid \<Longrightarrow> push_tx u (tx, bsid) w = (None, w)"
  by (simp add: push_tx_def)

lemma push_tx_keeps_row:
  assumes "t_id tx \<noteq> i"
  shows "tx_by_id i (db (snd (push_tx u (tx, bs) w))) = tx_by_id i (db w)"
proof -
  from push_tx_db_cases [of u tx bs w]
  consider (same) "db (snd (push_tx u (tx, bs) w)) = db w"
    | (upd) now where "db (snd (push_tx u (tx, bs) w))
         = update_transactions_where_id (t_id tx)
             (\<lambda>t. t\<lparr>t_synced := 1, t_updated_at := Some now\<rparr>) (db w)"
    | (sync) e where
        "db (snd (push_tx u (tx, bs) w))
         = update_transactions_where_id (t_id tx)
             (\<lambda>t. t\<lparr>t_synced := 1, t_sync_id := Some e\<rparr>) (db w)"
    by blast
  then show ?thesis
  proof cases
    case same
    then show ?thesis by simp
  next
    case upd
    show ?thesis unfolding upd by (rule tx_by_id_update_other) (simp_all add: assms)
  next
    case sync
    show ?thesis unfolding sync by (rule tx_by_id_update_other) (simp_all add: assms)
  qed
qed

lemma push_transactions_keeps_row:
  assumes "\<forall>x \<in> set xs. t_id (fst x) = i \<longrightarrow> \<not> truthy (snd x)"
  shows "tx_by_id i (db (snd (push_transactions u xs w))) = tx_by_id i (db w)"
  using assms
proof (induction xs arbitrary: w)
  case Nil
  show ?case by simp
next
  case (Cons x xs)
  obtain tx bs where x: "x = (tx, bs)" by (cases x)
  obtain e w1 where st: "push_tx u x w = (e, w1)" by (cases "push_tx u x w")
  have k: "tx_by_id i (db w1) = tx_by_id i (db w)"
  proof (cases "t_id tx = i")
    case True
    then have "\<not> truthy bs" using Cons.prems x by simp
    then show ?thesis using push_tx_skips [of bs u tx w] st x by simp
  next
    case False
    then show ?thesis using push_tx_keeps_row [of tx i u bs w] st x by simp
  qed
  show ?case
  proof (cases e)
    case None
    have "\<forall>x \<in> set xs. t_id (fst x) = i \<longrightarrow> \<not> truthy (snd x)" using Cons.prems by simp
    then show ?thesis using st None Cons.IH [of w1] k by simp
  next
    case (Some err)
    then show ?thesis using st k by simp
  qed
qed

lemma tx_by_id_distinct:
  assumes "distinct (map t_id (transactions d))" "T \<in> set (transactions d)"
  shows "tx_by_id (t_id T) d = Some T"
  unfolding tx_by_id_def
proof (rule find_Some_unique)
  show "T \<in> set (transactions d)" by (rule assms(2))
  show "t_id T = t_id T" by simp
  show "\<forall>y \<in> set (transactions d). t_id y = t_id T \<longrightarrow> y = T"
    using assms distinct_map_eq [of t_id "transactions d"] by blast
qed

lemma pushToServer_leaves_blocked_transaction:
  assumes d: "distinct (map t_id (transactions (db w)))" and T: "T \<in> set (transactions (db w))"
    and blocked: "\<not> truthy (book_sync_id_of (t_book_id T)
                     (db (fold (push_book u) (unsynced_books (db w)) w)))"
  shows "tx_by_id (t_id T) (db (snd (pushToServer u w))) = Some T"
proof -
  let ?w1 = "fold (push_book u) (unsynced_books (db w)) w"
  have tr: "transactions (db ?w1) = transactions (db w)" by (rule push_books_transactions)
  have skip: "\<forall>x \<in> set (unsynced_transactions (db ?w1)). t_id (fst x) = t_id T \<longrightarrow> \<not> truthy (snd x)"
  proof (intro ballI impI)
    fix x assume x: "x \<in> set (unsynced_transactions (db ?w1))" and i: "t_id (fst x) = t_id T"
    have m: "fst x \<in> set (transactions (db w))"
      and s: "snd x = book_sync_id_of (t_book_id (fst x)) (db ?w1)"
      using x tr unfolding unsynced_transactions_def by auto
    have "fst x = T" using distinct_map_eq [OF d m T i] .
    then show "\<not> truthy (snd x)" using s blocked by simp
  qed
  have "tx_by_id (t_id T) (db (snd (push_transactions u (unsynced_transactions (db ?w1)) ?w1)))
      = tx_by_id (t_id T) (db ?w1)"
    by (rule push_transactions_keeps_row [OF skip])
  also have "\<dots> = tx_by_id (t_id T) (db w)" using tr by (simp add: tx_by_id_def)
  also have "\<dots> = Some T" by (rule tx_by_id_distinct [OF d T])
  finally show ?thesis
    using pushToServer_transactions [of u w] by (simp add: tx_by_id_def)
qed

lemma hex_at_nonempty: "hex_at n \<noteq> []"
  by (simp add: hex_at_def)

lemma gen_loop_nonempty: "uuid \<noteq> [] \<Longrightarrow> fst (gen_loop rnd i k uuid) \<noteq> []"
proof (induction rnd i k uuid rule: gen_loop.induct)
  case (1 rnd i k uuid)
  show ?case
    using "1.IH" "1.prems" by (subst gen_loop.simps) (simp add: hex_at_nonempty)
qed

lemma generateSyncId_nonempty: "fst (generateSyncId rnd k i) \<noteq> []"
proof -
  have "gen_loop rnd 0 k [] = gen_loop rnd 1 (k + 1) (hex_at \<lfloor>rnd k * 16\<rfloor>)"
    by (subst gen_loop.simps) simp
  then show ?thesis
    unfolding generateSyncId_def using gen_loop_nonempty [OF hex_at_nonempty] by simp
qed


lemma fresh_push_book:
  assumes bs: "books (db w) = [b]" and nb: "b_sync_id b = None"
    and nf: "faults (remote w) = []"
    and fresh: "fst (generateSyncId (random w) (draws w) (b_id b)) \<notin> rb_id ` set (r_books (remote w))"
    and ne: "\<forall>rb \<in> set (r_books (remote w)). rb_id rb \<noteq> []"
  shows "\<exists>s. books (db (push_book u b w)) = [b\<lparr>b_synced := 1, b_sync_id := Some s\<rparr>]
    \<and> transactions (db (push_book u b w)) = transactions (db w)
    \<and> s \<noteq> [] \<and> (\<exists>rb \<in> set (r_books (remote (push_book u b w))). rb_id rb = s)
    \<and> faults (remote (push_book u b w)) = []
    \<and> r_transactions (remote (push_book u b w)) = r_transactions (remote w)
    \<and> random (push_book u b w) = random w
    \<and> draws (push_book u b w) = snd (generateSyncId (random w) (draws w) (b_id b))"
proof -
  let ?id1 = "fst (generateSyncId (random w) (draws w) (b_id b))"
  let ?same = "filter (\<lambda>x. rb_user_id x = u \<and> rb_name x = b_name b) (r_books (remote w))"
  have nt: "\<not> truthy (b_sync_id b)" using nb by (simp add: truthy_def)
  have tk: "\<not> book_sync_id_taken (b_id b) e (db w)" for e
    using bs by (simp add: book_sync_id_taken_def)
  have up: "books (update_books_where_id (b_id b) f (db w)) = [f b]" for f
    using bs by (simp add: update_books_where_id_def)
  show ?thesis
  proof (cases "\<exists>x. ?same = [x]")
    case True
    then obtain x where x: "?same = [x]" by blast
    then have "x \<in> set ?same" by simp
    then have xin: "x \<in> set (r_books (remote w))" by simp
    then have xne: "rb_id x \<noteq> []" using ne by blast
    have ex: "\<exists>rb \<in> set (r_books (remote w)). rb_id rb = rb_id x" using xin by blast
    have sel: "select_book_id_by_name u (b_name b) (remote w)
        = (Some (rb_id x), (remote w)\<lparr>requests := requests (remote w) + 1\<rparr>)"
      using nf x by (simp add: select_book_id_by_name_def begin_request_def)
    have "books (db (push_book u b w)) = [b\<lparr>b_synced := 1, b_sync_id := Some (rb_id x)\<rparr>]
      \<and> transactions (db (push_book u b w)) = transactions (db w)
      \<and> (\<exists>rb \<in> set (r_books (remote (push_book u b w))). rb_id rb = rb_id x)
      \<and> faults (remote (push_book u b w)) = []
      \<and> r_transactions (remote (push_book u b w)) = r_transactions (remote w)
      \<and> random (push_book u b w) = random w
      \<and> draws (push_book u b w) = snd (generateSyncId (random w) (draws w) (b_id b))"
      using nt sel tk up nf ex
      by (simp add: push_book_def read_clock_def Let_def case_prod_beta update_books_where_id_def)
    then show ?thesis using xne by blast
  next
    case False
    then have sel: "select_book_id_by_name u (b_name b) (remote w)
        = (None, (remote w)\<lparr>requests := requests (remote w) + 1\<rparr>)"
      using nf by (simp add: select_book_id_by_name_def begin_request_def split: list.splits)
    have fr: "\<not> (\<exists>rb \<in> set (r_books (remote w)). rb_id rb = ?id1)"
    proof
      assume "\<exists>rb \<in> set (r_books (remote w)). rb_id rb = ?id1"
      then obtain x where x: "x \<in> set (r_books (remote w))" "rb_id x = ?id1" by blast
      have "rb_id x \<in> rb_id ` set (r_books (remote w))" using x(1) by (rule imageI)
      then show False using fresh x(2) by simp
    qed
    have ins: "insert_book row ((remote w)\<lparr>requests := Suc (requests (remote w))\<rparr>)
        = (True, (remote w)\<lparr>requests := Suc (Suc (requests (remote w))),
                              r_books := r_books (remote w) @ [row]\<rparr>)"
      if "rb_id row = ?id1" for row
      using nf fr that by (simp add: insert_book_def begin_request_def)
    have "books (db (push_book u b w)) = [b\<lparr>b_synced := 1, b_sync_id := Some ?id1\<rparr>]
      \<and> transactions (db (push_book u b w)) = transactions (db w)
      \<and> (\<exists>rb \<in> set (r_books (remote (push_book u b w))). rb_id rb = ?id1)
      \<and> faults (remote (push_book u b w)) = []
      \<and> r_transactions (remote (push_book u b w)) = r_transactions (remote w)
      \<and> random (push_book u b w) = random w
      \<and> draws (push_book u b w) = snd (generateSyncId (random w) (draws w) (b_id b))"
      using nt sel tk up nf
      by (simp add: push_book_def read_clock_def Let_def case_prod_beta ins
          update_books_where_id_def)
    then show ?thesis using generateSyncId_nonempty [of "random w" "draws w" "b_id b"] by blast
  qed
qed

lemma fresh_push_tx:
  assumes bs: "books (db w) = [b]" and sb: "b_sync_id b = Some s" and sne: "s \<noteq> []"
    and ts: "transactions (db w) = [t]" and nt: "t_sync_id t = None"
    and ref: "t_book_id t = IntKey (b_id b)"
    and nf: "faults (remote w) = []"
    and ty: "t_type t \<in> {''income'', ''expense''}"
    and rb: "\<exists>rb \<in> set (r_books (remote w)). rb_id rb = s"
    and fresh: "fst (generateSyncId (random w) (draws w) (t_id t)) \<notin> rt_id ` set (r_transactions (remote w))"
  shows "fst (push_transactions u (unsynced_transactions (db w)) w) = None
    \<and> books (db (snd (push_transactions u (unsynced_transactions (db w)) w))) = [b]
    \<and> transactions (db (snd (push_transactions u (unsynced_transactions (db w)) w)))
        = [t\<lparr>t_synced := 1, t_sync_id := Some (fst (generateSyncId (random w) (draws w) (t_id t)))\<rparr>]
    \<and> (\<exists>row \<in> set (r_transactions (remote (snd (push_transactions u (unsynced_transactions (db w)) w)))).
          rt_id row = fst (generateSyncId (random w) (draws w) (t_id t))
          \<and> rt_book_id row = s \<and> rt_user_id row = u
          \<and> rt_type row = t_type t \<and> rt_amount row = t_amount t
          \<and> rt_deleted row = (t_deleted t = 1))
    \<and> r_books (remote (snd (push_transactions u (unsynced_transactions (db w)) w)))
        = r_books (remote w)"
proof -
  let ?id2 = "fst (generateSyncId (random w) (draws w) (t_id t))"
  have un: "unsynced_transactions (db w) = [(t, Some s)]"
    using bs ts nt ref sb by (simp add: unsynced_transactions_def book_sync_id_of_def)
  have tr: "truthy (Some s)" "\<not> truthy (t_sync_id t)" using sne nt by (simp_all add: truthy_def)
  have tk: "\<not> tx_sync_id_taken (t_id t) e (db w)" for e
    using ts by (simp add: tx_sync_id_taken_def)
  have fr: "\<not> (\<exists>x \<in> set (r_transactions (remote w)). rt_id x = ?id2)"
  proof
    assume "\<exists>x \<in> set (r_transactions (remote w)). rt_id x = ?id2"
    then obtain x where x: "x \<in> set (r_transactions (remote w))" "rt_id x = ?id2" by blast
    have "rt_id x \<in> rt_id ` set (r_transactions (remote w))" using x(1) by (rule imageI)
    then show False using fresh x(2) by simp
  qed
  have ins: "insert_tx row (remote w)
      = (True, (remote w)\<lparr>requests := requests (remote w) + 1,
                            r_transactions := r_transactions (remote w) @ [row]\<rparr>)"
    if "rt_id row = ?id2" "rt_type row = t_type t" "rt_book_id row = s" for row
    using nf fr that ty rb
    by (simp add: insert_tx_def begin_request_def remote_tx_rejected_def)
  show ?thesis
    unfolding un using tr tk ts bs
    by (simp add: push_tx_def read_clock_def Let_def case_prod_beta ins
        update_transactions_where_id_def)
qed


lemma pushToServer_result:
  "fst (pushToServer u w)
     = (case fst (push_transactions u
                (unsynced_transactions (db (fold (push_book u) (unsynced_books (db w)) w)))
                (fold (push_book u) (unsynced_books (db w)) w)) of
          None \<Rightarrow> Inr () | Some e \<Rightarrow> Inl (SqlError e))"
  "remote (snd (pushToServer u w))
     = remote (snd (push_transactions u
                (unsynced_transactions (db (fold (push_book u) (unsynced_books (db w)) w)))
                (fold (push_book u) (unsynced_books (db w)) w)))"
  by (simp_all add: pushToServer_def Let_def case_prod_beta read_clock_def setUserPreference_def
      split: option.splits)

lemma fresh_pushToServer:
  assumes bs: "books (db w) = [b]" and ts: "transactions (db w) = [t]"
    and nb: "b_sync_id b = None" and nt: "t_sync_id t = None"
    and ref: "t_book_id t = IntKey (b_id b)"
    and nf: "faults (remote w) = []"
    and ty: "t_type t \<in> {''income'', ''expense''}"
    and fresh1: "fst (generateSyncId (random w) (draws w) (b_id b))
        \<notin> rb_id ` set (r_books (remote w))"
    and fresh2: "fst (generateSyncId (random w)
                   (snd (generateSyncId (random w) (draws w) (b_id b))) (t_id t))
        \<notin> rt_id ` set (r_transactions (remote w))"
    and ne: "\<forall>rb \<in> set (r_books (remote w)). rb_id rb \<noteq> []"
  shows "\<exists>s s'. fst (pushToServer u w) = Inr ()
    \<and> books (db (snd (pushToServer u w))) = [b\<lparr>b_synced := 1, b_sync_id := Some s\<rparr>]
    \<and> transactions (db (snd (pushToServer u w))) = [t\<lparr>t_synced := 1, t_sync_id := Some s'\<rparr>]
    \<and> (\<exists>rb \<in> set (r_books (remote (snd (pushToServer u w)))). rb_id rb = s)
    \<and> (\<exists>row \<in> set (r_transactions (remote (snd (pushToServer u w)))).
          rt_id row = s' \<and> rt_book_id row = s \<and> rt_user_id row = u
          \<and> rt_type row = t_type t \<and> rt_amount row = t_amount t
          \<and> rt_deleted row = (t_deleted t = 1))"
proof -
  let ?w1 = "push_book u b w"
  let ?id2 = "fst (generateSyncId (random w)
                   (snd (generateSyncId (random w) (draws w) (b_id b))) (t_id t))"
  have ub: "unsynced_books (db w) = [b]" using bs nb by (simp add: unsynced_books_def)
  then have f1: "fold (push_book u) (unsynced_books (db w)) w = ?w1" by simp
  from fresh_push_book [OF bs nb nf fresh1 ne, of u]
  obtain s where b1: "books (db ?w1) = [b\<lparr>b_synced := 1, b_sync_id := Some s\<rparr>]"
    and t1: "transactions (db ?w1) = transactions (db w)"
    and sne: "s \<noteq> []" and rb: "\<exists>rb \<in> set (r_books (remote ?w1)). rb_id rb = s"
    and nf1: "faults (remote ?w1) = []"
    and rt1: "r_transactions (remote ?w1) = r_transactions (remote w)"
    and rn1: "random ?w1 = random w"
    and dr1: "draws ?w1 = snd (generateSyncId (random w) (draws w) (b_id b))"
    by blast
  let ?b' = "b\<lparr>b_synced := 1, b_sync_id := Some s\<rparr>"
  let ?w2 = "snd (push_transactions u (unsynced_transactions (db ?w1)) ?w1)"
  have ts1: "transactions (db ?w1) = [t]" using t1 ts by simp
  have ref1: "t_book_id t = IntKey (b_id ?b')" using ref by simp
  have fr2: "fst (generateSyncId (random ?w1) (draws ?w1) (t_id t))
      \<notin> rt_id ` set (r_transactions (remote ?w1))"
    using fresh2 unfolding rn1 dr1 rt1 .
  have sb': "b_sync_id ?b' = Some s" by simp
  from fresh_push_tx [OF b1 sb' sne ts1 nt ref1 nf1 ty rb fr2, of u]
  have p: "fst (push_transactions u (unsynced_transactions (db ?w1)) ?w1) = None"
    and pb: "books (db ?w2) = [?b']"
    and ptx: "transactions (db ?w2) = [t\<lparr>t_synced := 1, t_sync_id := Some ?id2\<rparr>]"
    and prow: "\<exists>row \<in> set (r_transactions (remote ?w2)).
          rt_id row = ?id2 \<and> rt_book_id row = s \<and> rt_user_id row = u
          \<and> rt_type row = t_type t \<and> rt_amount row = t_amount t
          \<and> rt_deleted row = (t_deleted t = 1)"
    and prb: "r_books (remote ?w2) = r_books (remote ?w1)"
    unfolding rn1 dr1 by blast+
  have r1: "fst (pushToServer u w) = Inr ()"
    using pushToServer_result(1) [of u w] p unfolding f1 by simp
  have r2: "remote (snd (pushToServer u w)) = remote ?w2"
    using pushToServer_result(2) [of u w] unfolding f1 by simp
  have r3: "books (db (snd (pushToServer u w))) = [?b']"
    using pushToServer_books [of u w] b1 unfolding f1 by simp
  have r4: "transactions (db (snd (pushToServer u w)))
      = [t\<lparr>t_synced := 1, t_sync_id := Some ?id2\<rparr>]"
    using pushToServer_transactions [of u w] ptx unfolding f1 by simp
  have r5: "\<exists>rb \<in> set (r_books (remote (snd (pushToServer u w)))). rb_id rb = s"
    unfolding r2 prb using rb .
  have r6: "\<exists>row \<in> set (r_transactions (remote (snd (pushToServer u w)))).
          rt_id row = ?id2 \<and> rt_book_id row = s \<and> rt_user_id row = u
          \<and> rt_type row = t_type t \<and> rt_amount row = t_amount t
          \<and> rt_deleted row = (t_deleted t = 1)"
    unfolding r2 using prow .
  show ?thesis using r1 r3 r4 r5 r6 by blast
qed

text \<open>
  C2. In every \<open>pushToServer\<close>, a transaction whose book has no remote id when the
  transactions are pushed (the joined \<open>book_sync_id\<close> is null or empty) is not sent and
  stays as it was: the loop body does nothing for it, and the row is unchanged after the
  whole push. For a fresh store of one book and one transaction in it, neither pushed
  yet, a single \<open>pushToServer\<close> against a remote that answers without error and does
  not hold the generated ids gives the book a remote id and sends the transaction with
  that same id as its book reference.
\<close>

theorem push_sends_transaction_only_after_its_book:
  "(\<not> truthy bsid \<longrightarrow> push_tx u (tx, bsid) w = (None, w))
   \<and> (distinct (map t_id (transactions (db w))) \<and> T \<in> set (transactions (db w))
       \<and> \<not> truthy (book_sync_id_of (t_book_id T)
                     (db (fold (push_book u) (unsynced_books (db w)) w)))
       \<longrightarrow> tx_by_id (t_id T) (db (snd (pushToServer u w))) = Some T)
   \<and> (books (db w) = [b] \<and> transactions (db w) = [t]
       \<and> b_sync_id b = None \<and> t_sync_id t = None \<and> t_book_id t = IntKey (b_id b)
       \<and> faults (remote w) = [] \<and> t_type t \<in> {''income'', ''expense''}
       \<and> fst (generateSyncId (random w) (draws w) (b_id b)) \<notin> rb_id ` set (r_books (remote w))
       \<and> fst (generateSyncId (random w)
                 (snd (generateSyncId (random w) (draws w) (b_id b))) (t_id t))
            \<notin> rt_id ` set (r_transactions (remote w))
       \<and> (\<forall>rb \<in> set (r_books (remote w)). rb_id rb \<noteq> [])
       \<longrightarrow>
        (\<exists>s s'. fst (pushToServer u w) = Inr ()
          \<and> books (db (snd (pushToServer u w))) = [b\<lparr>b_synced := 1, b_sync_id := Some s\<rparr>]
          \<and> transactions (db (snd (pushToServer u w)))
              = [t\<lparr>t_synced := 1, t_sync_id := Some s'\<rparr>]
          \<and> (\<exists>rb \<in> set (r_books (remote (snd (pushToServer u w)))). rb_id rb = s)
          \<and> (\<exists>row \<in> set (r_transactions (remote (snd (pushToServer u w)))).
                rt_id row = s' \<and> rt_book_id row = s \<and> rt_user_id row = u
                \<and> rt_type row = t_type t \<and> rt_amount row = t_amount t
                \<and> rt_deleted row = (t_deleted t = 1))))"
proof (intro conjI impI)
  assume "\<not> truthy bsid"
  then show "push_tx u (tx, bsid) w = (None, w)" by (rule push_tx_skips)
next
  assume h: "distinct (map t_id (transactions (db w))) \<and> T \<in> set (transactions (db w))
       \<and> \<not> truthy (book_sync_id_of (t_book_id T)
                     (db (fold (push_book u) (unsynced_books (db w)) w)))"
  show "tx_by_id (t_id T) (db (snd (pushToServer u w))) = Some T"
    by (rule pushToServer_leaves_blocked_transaction) (use h in blast)+
next
  assume h: "books (db w) = [b] \<and> transactions (db w) = [t]
       \<and> b_sync_id b = None \<and> t_sync_id t = None \<and> t_book_id t = IntKey (b_id b)
       \<and> faults (remote w) = [] \<and> t_type t \<in> {''income'', ''expense''}
       \<and> fst (generateSyncId (random w) (draws w) (b_id b)) \<notin> rb_id ` set (r_books (remote w))
       \<and> fst (generateSyncId (random w)
                 (snd (generateSyncId (random w) (draws w) (b_id b))) (t_id t))
            \<notin> rt_id ` set (r_transactions (remote w))
       \<and> (\<forall>rb \<in> set (r_books (remote w)). rb_id rb \<noteq> [])"
  show "\<exists>s s'. fst (pushToServer u w) = Inr ()
          \<and> books (db (snd (pushToServer u w))) = [b\<lparr>b_synced := 1, b_sync_id := Some s\<rparr>]
          \<and> transactions (db (snd (pushToServer u w)))
              = [t\<lparr>t_synced := 1, t_sync_id := Some s'\<rparr>]
          \<and> (\<exists>rb \<in> set (r_books (remote (snd (pushToServer u w)))). rb_id rb = s)
          \<and> (\<exists>row \<in> set (r_transactions (remote (snd (pushToServer u w)))).
                rt_id row = s' \<and> rt_book_id row = s \<and> rt_user_id row = u
                \<and> rt_type row = t_type t \<and> rt_amount row = t_amount t
                \<and> rt_deleted row = (t_deleted t = 1))"
    by (rule fresh_pushToServer) (use h in blast)+
qed

lemmas sample_defs =
  sample_world_def sample_db_def sample_book_def sample_tx_def empty_remote_def

lemma offline_push_book:
  "fold (push_book ''user_1'') (unsynced_books (db offline_world)) offline_world
     = offline_world\<lparr>ticks := 1,
         draws := snd (generateSyncId sample_random 0 1),
         remote := \<lparr>r_books = [], r_transactions = [], faults = [], requests = 2\<rparr>\<rparr>"
  by (simp add: offline_world_def sample_defs unsynced_books_def push_book_def read_clock_def
      truthy_def select_book_id_by_name_def insert_book_def begin_request_def Let_def
      case_prod_beta)

theorem push_sends_transaction_only_after_its_book_witness:
  "\<not> truthy None
   \<and> push_tx ''user_1'' (sample_tx, None) offline_world = (None, offline_world)
   \<and> distinct (map t_id (transactions (db offline_world)))
   \<and> sample_tx \<in> set (transactions (db offline_world))
   \<and> \<not> truthy (book_sync_id_of (t_book_id sample_tx)
          (db (fold (push_book ''user_1'') (unsynced_books (db offline_world)) offline_world)))
   \<and> tx_by_id (t_id sample_tx) (db (snd (pushToServer ''user_1'' offline_world))) = Some sample_tx
   \<and> t_synced sample_tx = 0
   \<and> books (db sample_world) = [sample_book] \<and> transactions (db sample_world) = [sample_tx]
   \<and> r_books (remote sample_world) = [] \<and> r_transactions (remote sample_world) = []
   \<and> faults (remote sample_world) = []
   \<and> (\<exists>s s'. fst (pushToServer ''user_1'' sample_world) = Inr ()
        \<and> books (db (snd (pushToServer ''user_1'' sample_world)))
            = [sample_book\<lparr>b_synced := 1, b_sync_id := Some s\<rparr>]
        \<and> transactions (db (snd (pushToServer ''user_1'' sample_world)))
            = [sample_tx\<lparr>t_synced := 1, t_sync_id := Some s'\<rparr>]
        \<and> (\<exists>rb \<in> set (r_books (remote (snd (pushToServer ''user_1'' sample_world)))). rb_id rb = s)
        \<and> (\<exists>row \<in> set (r_transactions (remote (snd (pushToServer ''user_1'' sample_world)))).
              rt_id row = s' \<and> rt_book_id row = s \<and> rt_user_id row = ''user_1''
              \<and> rt_type row = t_type sample_tx \<and> rt_amount row = t_amount sample_tx
              \<and> rt_deleted row = (t_deleted sample_tx = 1)))"
proof -
  have n: "\<not> truthy None" by (simp add: truthy_def)
  note A = push_sends_transaction_only_after_its_book
    [of None "''user_1''" sample_tx offline_world sample_tx sample_book sample_tx]
  note B = push_sends_transaction_only_after_its_book
    [of None "''user_1''" sample_tx sample_world sample_tx sample_book sample_tx]
  have a1: "push_tx ''user_1'' (sample_tx, None) offline_world = (None, offline_world)"
    using A [THEN conjunct1] n by blast
  have d: "distinct (map t_id (transactions (db offline_world)))"
    and m: "sample_tx \<in> set (transactions (db offline_world))"
    by (simp_all add: offline_world_def sample_defs)
  have bl: "\<not> truthy (book_sync_id_of (t_book_id sample_tx)
          (db (fold (push_book ''user_1'') (unsynced_books (db offline_world)) offline_world)))"
    unfolding offline_push_book
    by (simp add: offline_world_def sample_defs book_sync_id_of_def truthy_def)
  have a2: "tx_by_id (t_id sample_tx) (db (snd (pushToServer ''user_1'' offline_world)))
      = Some sample_tx"
    using A [THEN conjunct2, THEN conjunct1] d m bl by blast
  have dirty: "t_synced sample_tx = 0" by (simp add: sample_tx_def)
  have f: "books (db sample_world) = [sample_book]" "transactions (db sample_world) = [sample_tx]"
    "r_books (remote sample_world) = []" "r_transactions (remote sample_world) = []"
    "faults (remote sample_world) = []"
    by (simp_all add: sample_world_def sample_db_def empty_remote_def)
  have g: "b_sync_id sample_book = None" "t_sync_id sample_tx = None"
    "t_book_id sample_tx = IntKey (b_id sample_book)"
    "t_type sample_tx \<in> {''income'', ''expense''}"
    by (simp_all add: sample_book_def sample_tx_def)
  have h: "books (db sample_world) = [sample_book] \<and> transactions (db sample_world) = [sample_tx]
       \<and> b_sync_id sample_book = None \<and> t_sync_id sample_tx = None
       \<and> t_book_id sample_tx = IntKey (b_id sample_book)
       \<and> faults (remote sample_world) = [] \<and> t_type sample_tx \<in> {''income'', ''expense''}
       \<and> fst (generateSyncId (random sample_world) (draws sample_world) (b_id sample_book))
            \<notin> rb_id ` set (r_books (remote sample_world))
       \<and> fst (generateSyncId (random sample_world)
                 (snd (generateSyncId (random sample_world) (draws sample_world) (b_id sample_book)))
                 (t_id sample_tx))
            \<notin> rt_id ` set (r_transactions (remote sample_world))
       \<and> (\<forall>rb \<in> set (r_books (remote sample_world)). rb_id rb \<noteq> [])"
    using f g by simp
  have b3: "\<exists>s s'. fst (pushToServer ''user_1'' sample_world) = Inr ()
        \<and> books (db (snd (pushToServer ''user_1'' sample_world)))
            = [sample_book\<lparr>b_synced := 1, b_sync_id := Some s\<rparr>]
        \<and> transactions (db (snd (pushToServer ''user_1'' sample_world)))
            = [sample_tx\<lparr>t_synced := 1, t_sync_id := Some s'\<rparr>]
        \<and> (\<exists>rb \<in> set (r_books (remote (snd (pushToServer ''user_1'' sample_world)))). rb_id rb = s)
        \<and> (\<exists>row \<in> set (r_transactions (remote (snd (pushToServer ''user_1'' sample_world)))).
              rt_id row = s' \<and> rt_book_id row = s \<and> rt_user_id row = ''user_1''
              \<and> rt_type row = t_type sample_tx \<and> rt_amount row = t_amount sample_tx
              \<and> rt_deleted row = (t_deleted sample_tx = 1))"
    using B [THEN conjunct2, THEN conjunct2, THEN mp, OF h] .
  show ?thesis using n a1 d m bl a2 dirty f b3 by (intro conjI)
qed

section \<open>Pushing the same record twice\<close>

lemma generateSyncId_sample_0:
  "generateSyncId sample_random 0 1 = (''4c4c4c4c-4c4c-44c4-b4c4-c4c4c4c4c4c4'', 31)"
  by (simp add: generateSyncId_def gen_loop.simps hex_at_def hex_def to_int32_def
      sample_random_def)

lemma generateSyncId_sample_31:
  "generateSyncId sample_random 31 1 = (''c4c4c4c4-c4c4-4c4c-9c4c-4c4c4c4c4c4c'', 62)"
  by (simp add: generateSyncId_def gen_loop.simps hex_at_def hex_def to_int32_def
      sample_random_def)

lemmas push_defs =
  pushToServer_def unsynced_books_def unsynced_transactions_def book_sync_id_of_def
  book_by_id_def push_tx_def read_clock_def truthy_def insert_tx_def begin_request_def
  remote_tx_rejected_def tx_sync_id_taken_def update_transactions_where_id_def
  setUserPreference_def Let_def case_prod_beta

lemma crash_world_first_push:
  "remote (snd (pushToServer ''user_1'' crash_world))
     = \<lparr>r_books = [paired_remote_book ''Personal'' 1001 False],
        r_transactions =
          [\<lparr>rt_id = ''4c4c4c4c-4c4c-44c4-b4c4-c4c4c4c4c4c4'', rt_user_id = ''user_1'',
            rt_book_id = ''b-1'', rt_type = ''expense'', rt_amount = 50000,
            rt_note = Some ''lunch'', rt_category = Some ''food'', rt_created_at = 200,
            rt_updated_at = 2000, rt_deleted = False\<rparr>],
        faults = [], requests = 1\<rparr>"
    "draws (snd (pushToServer ''user_1'' crash_world)) = 31"
    "random (snd (pushToServer ''user_1'' crash_world)) = sample_random"
    "ticks (snd (pushToServer ''user_1'' crash_world)) = 5"
    "clock (snd (pushToServer ''user_1'' crash_world)) = (\<lambda>n. 2000 + int n)"
    "fst (pushToServer ''user_1'' crash_world) = Inr ()"
  by (simp_all add: crash_world_def paired_book_def paired_remote_book_def sample_tx_def
      push_defs generateSyncId_sample_0)


lemma crash_world_restart:
  "crash_after_ack crash_world (snd (pushToServer ''user_1'' crash_world))
     = \<lparr>db = db crash_world,
        remote = \<lparr>r_books = [paired_remote_book ''Personal'' 1001 False],
          r_transactions =
            [\<lparr>rt_id = ''4c4c4c4c-4c4c-44c4-b4c4-c4c4c4c4c4c4'', rt_user_id = ''user_1'',
              rt_book_id = ''b-1'', rt_type = ''expense'', rt_amount = 50000,
              rt_note = Some ''lunch'', rt_category = Some ''food'', rt_created_at = 200,
              rt_updated_at = 2000, rt_deleted = False\<rparr>],
          faults = [], requests = 1\<rparr>,
        clock = (\<lambda>n. 2000 + int n), ticks = 5, random = sample_random, draws = 31\<rparr>"
  by (simp add: crash_after_ack_def crash_world_def paired_book_def paired_remote_book_def
      sample_tx_def push_defs generateSyncId_sample_0)

text \<open>
  A book pushed again after such a crash is found on the remote by its name and takes
  the id it was given the first time.
\<close>

lemma repeated_push_after_crash_reuses_book_id:
  fixes w :: world
  defines "w \<equiv> sample_world\<lparr>db := (db sample_world)\<lparr>transactions := []\<rparr>\<rparr>"
  shows "map rb_id (r_books (remote (snd (pushToServer ''user_1'' w))))
           = [''4c4c4c4c-4c4c-44c4-b4c4-c4c4c4c4c4c4'']"
    and "map rb_id (r_books (remote (snd (pushToServer ''user_1''
            (crash_after_ack w (snd (pushToServer ''user_1'' w)))))))
           = [''4c4c4c4c-4c4c-44c4-b4c4-c4c4c4c4c4c4'']"
    and "map b_sync_id (books (db (snd (pushToServer ''user_1''
            (crash_after_ack w (snd (pushToServer ''user_1'' w)))))))
           = [Some ''4c4c4c4c-4c4c-44c4-b4c4-c4c4c4c4c4c4'']"
proof -
  have g: "generateSyncId sample_random 31 1 = (''c4c4c4c4-c4c4-4c4c-9c4c-4c4c4c4c4c4c'', 62)"
    by (rule generateSyncId_sample_31)
  have first: "snd (pushToServer ''user_1'' w)
      = w\<lparr>db := (db w)\<lparr>books := [sample_book\<lparr>b_synced := 1,
                 b_sync_id := Some ''4c4c4c4c-4c4c-44c4-b4c4-c4c4c4c4c4c4''\<rparr>],
               user_preferences := (user_preferences (db w))
                 (''last_sync_books'' \<mapsto> 1001, ''last_sync_transactions'' \<mapsto> 1003)\<rparr>,
            remote := \<lparr>r_books = [\<lparr>rb_id = ''4c4c4c4c-4c4c-44c4-b4c4-c4c4c4c4c4c4'',
                 rb_user_id = ''user_1'', rb_name = ''Personal'', rb_created_at = 100,
                 rb_updated_at = 1000, rb_deleted = False\<rparr>],
               r_transactions = [], faults = [], requests = 2\<rparr>,
            ticks := 5, draws := 31\<rparr>"
    by (simp add: w_def sample_defs push_defs push_book_def select_book_id_by_name_def
        insert_book_def book_sync_id_taken_def update_books_where_id_def sample_clock_def
        generateSyncId_sample_0)
  show "map rb_id (r_books (remote (snd (pushToServer ''user_1'' w))))
           = [''4c4c4c4c-4c4c-44c4-b4c4-c4c4c4c4c4c4'']"
    unfolding first by simp
  have second: "crash_after_ack w (snd (pushToServer ''user_1'' w))
      = w\<lparr>remote := \<lparr>r_books = [\<lparr>rb_id = ''4c4c4c4c-4c4c-44c4-b4c4-c4c4c4c4c4c4'',
                 rb_user_id = ''user_1'', rb_name = ''Personal'', rb_created_at = 100,
                 rb_updated_at = 1000, rb_deleted = False\<rparr>],
               r_transactions = [], faults = [], requests = 2\<rparr>,
            ticks := 5, draws := 31\<rparr>"
    unfolding first by (simp add: crash_after_ack_def)
  show "map rb_id (r_books (remote (snd (pushToServer ''user_1''
            (crash_after_ack w (snd (pushToServer ''user_1'' w)))))))
           = [''4c4c4c4c-4c4c-44c4-b4c4-c4c4c4c4c4c4'']"
    unfolding second
    by (simp add: w_def sample_defs push_defs push_book_def select_book_id_by_name_def
        insert_book_def book_sync_id_taken_def update_books_where_id_def sample_clock_def g)
  show "map b_sync_id (books (db (snd (pushToServer ''user_1''
            (crash_after_ack w (snd (pushToServer ''user_1'' w)))))))
           = [Some ''4c4c4c4c-4c4c-44c4-b4c4-c4c4c4c4c4c4'']"
    unfolding second
    by (simp add: w_def sample_defs push_defs push_book_def select_book_id_by_name_def
        insert_book_def book_sync_id_taken_def update_books_where_id_def sample_clock_def g)
qed

text \<open>
  C4. A transaction that is pushed, acknowledged by the remote and, the local write being
  lost, pushed again is inserted a second time: a transaction with no stored
  \<open>sync_id\<close> gets a newly generated id at every push and the remote is not asked whether
  it holds the record already (the books are looked up by name first). On
  \<open>crash_world\<close> the first push leaves one remote row, and the push repeated from the
  old local store leaves two, with different ids, for the one local transaction.
\<close>

theorem repeated_push_after_crash_duplicates_transaction:
  "transactions (db crash_world) = [sample_tx]
   \<and> r_transactions (remote crash_world) = []
   \<and> fst (pushToServer ''user_1'' crash_world) = Inr ()
   \<and> map rt_id (r_transactions (remote (snd (pushToServer ''user_1'' crash_world))))
       = [''4c4c4c4c-4c4c-44c4-b4c4-c4c4c4c4c4c4'']
   \<and> fst (pushToServer ''user_1''
        (crash_after_ack crash_world (snd (pushToServer ''user_1'' crash_world)))) = Inr ()
   \<and> r_transactions (remote (snd (pushToServer ''user_1''
        (crash_after_ack crash_world (snd (pushToServer ''user_1'' crash_world))))))
       = [\<lparr>rt_id = ''4c4c4c4c-4c4c-44c4-b4c4-c4c4c4c4c4c4'', rt_user_id = ''user_1'',
            rt_book_id = ''b-1'', rt_type = ''expense'', rt_amount = 50000,
            rt_note = Some ''lunch'', rt_category = Some ''food'', rt_created_at = 200,
            rt_updated_at = 2000, rt_deleted = False\<rparr>,
          \<lparr>rt_id = ''c4c4c4c4-c4c4-4c4c-9c4c-4c4c4c4c4c4c'', rt_user_id = ''user_1'',
            rt_book_id = ''b-1'', rt_type = ''expense'', rt_amount = 50000,
            rt_note = Some ''lunch'', rt_category = Some ''food'', rt_created_at = 200,
            rt_updated_at = 2005, rt_deleted = False\<rparr>]
   \<and> map t_id (transactions (db (snd (pushToServer ''user_1''
        (crash_after_ack crash_world (snd (pushToServer ''user_1'' crash_world)))))))
       = [1]"
proof -
  have a: "transactions (db crash_world) = [sample_tx]"
    and b: "r_transactions (remote crash_world) = []"
    by (simp_all add: crash_world_def)
  have c: "fst (pushToServer ''user_1'' crash_world) = Inr ()"
    by (rule crash_world_first_push(6))
  have d: "map rt_id (r_transactions (remote (snd (pushToServer ''user_1'' crash_world))))
       = [''4c4c4c4c-4c4c-44c4-b4c4-c4c4c4c4c4c4'']"
    by (simp add: crash_world_first_push(1))
  have e: "fst (pushToServer ''user_1''
        (crash_after_ack crash_world (snd (pushToServer ''user_1'' crash_world)))) = Inr ()"
    unfolding crash_world_restart
    by (simp add: crash_world_def paired_book_def paired_remote_book_def
      sample_tx_def push_defs generateSyncId_sample_31)
  have f: "r_transactions (remote (snd (pushToServer ''user_1''
        (crash_after_ack crash_world (snd (pushToServer ''user_1'' crash_world))))))
       = [\<lparr>rt_id = ''4c4c4c4c-4c4c-44c4-b4c4-c4c4c4c4c4c4'', rt_user_id = ''user_1'',
            rt_book_id = ''b-1'', rt_type = ''expense'', rt_amount = 50000,
            rt_note = Some ''lunch'', rt_category = Some ''food'', rt_created_at = 200,
            rt_updated_at = 2000, rt_deleted = False\<rparr>,
          \<lparr>rt_id = ''c4c4c4c4-c4c4-4c4c-9c4c-4c4c4c4c4c4c'', rt_user_id = ''user_1'',
            rt_book_id = ''b-1'', rt_type = ''expense'', rt_amount = 50000,
            rt_note = Some ''lunch'', rt_category = Some ''food'', rt_created_at = 200,
            rt_updated_at = 2005, rt_deleted = False\<rparr>]"
    unfolding crash_world_restart
    by (simp add: crash_world_def paired_book_def paired_remote_book_def
      sample_tx_def push_defs generateSyncId_sample_31)
  have g: "map t_id (transactions (db (snd (pushToServer ''user_1''
        (crash_after_ack crash_world (snd (pushToServer ''user_1'' crash_world)))))))
       = [1]"
    unfolding crash_world_restart
    by (simp add: crash_world_def paired_book_def paired_remote_book_def
      sample_tx_def push_defs generateSyncId_sample_31)
  show ?thesis by (intro conjI a b c d e f g)
qed

section \<open>Setup errors of \<open>SyncService.syncAll\<close>\<close>

lemma syncBooks_result: "fst (syncBooks userId w) \<in> {Inl FetchBooksFailed, Inr ()}"
  by (simp add: syncBooks_def Let_def split: prod.splits option.splits)

lemma syncTransactions_result:
  "fst (syncTransactions userId w) \<in> range Inr \<union> {Inl RemoteError} \<union> range (\<lambda>e. Inl (SqlError e))"
  by (simp add: syncTransactions_def Let_def split: prod.splits option.splits)

lemma SyncService_syncAll_result:
  assumes "truthy userId" and "client"
  shows "fst (SyncService_syncAll userId client w)
     \<in> range Inr \<union> {Inl FetchBooksFailed, Inl RemoteError} \<union> range (\<lambda>e. Inl (SqlError e))"
proof (cases "syncBooks (the userId) w")
  case (Pair res w1)
  show ?thesis
  proof (cases res)
    case (Inl e)
    with Pair syncBooks_result [of "the userId" w] have "e = FetchBooksFailed" by simp
    with Inl Pair assms show ?thesis by (simp add: SyncService_syncAll_def)
  next
    case (Inr u)
    with Pair assms have "SyncService_syncAll userId client w = syncTransactions (the userId) w1"
      by (simp add: SyncService_syncAll_def)
    with syncTransactions_result [of "the userId" w1] show ?thesis by auto
  qed
qed

text \<open>
  C8. \<open>syncAll\<close> called with a falsy user id (null, undefined or the empty string), or
  with a user id and no Supabase client, throws its setup error at once: the world it
  leaves is the world it found, so no request was made and nothing was written. Called
  with both, it throws neither setup error, whatever else happens.
\<close>

theorem syncAll_setup_errors:
  "(\<not> truthy userId \<longrightarrow> SyncService_syncAll userId client w = (Inl UserIdRequired, w))
   \<and> (truthy userId \<and> \<not> client \<longrightarrow> SyncService_syncAll userId client w = (Inl ClientRequired, w))
   \<and> (truthy userId \<and> client \<longrightarrow>
        fst (SyncService_syncAll userId client w) \<notin> {Inl UserIdRequired, Inl ClientRequired})"
proof (intro conjI impI)
  assume "\<not> truthy userId"
  then show "SyncService_syncAll userId client w = (Inl UserIdRequired, w)"
    by (simp add: SyncService_syncAll_def)
next
  assume "truthy userId \<and> \<not> client"
  then show "SyncService_syncAll userId client w = (Inl ClientRequired, w)"
    by (simp add: SyncService_syncAll_def)
next
  assume "truthy userId \<and> client"
  then have "fst (SyncService_syncAll userId client w)
     \<in> range Inr \<union> {Inl FetchBooksFailed, Inl RemoteError} \<union> range (\<lambda>e. Inl (SqlError e))"
    using SyncService_syncAll_result by blast
  then show "fst (SyncService_syncAll userId client w) \<notin> {Inl UserIdRequired, Inl ClientRequired}"
    by auto
qed

theorem syncAll_setup_errors_witness:
  "\<not> truthy None
   \<and> SyncService_syncAll None True sample_world = (Inl UserIdRequired, sample_world)
   \<and> \<not> truthy (Some '''')
   \<and> SyncService_syncAll (Some '''') True sample_world = (Inl UserIdRequired, sample_world)
   \<and> truthy (Some ''user_1'') \<and> \<not> False
   \<and> SyncService_syncAll (Some ''user_1'') False sample_world = (Inl ClientRequired, sample_world)
   \<and> truthy (Some ''user_1'') \<and> True
   \<and> fst (SyncService_syncAll (Some ''user_1'') True sample_world)
        \<notin> {Inl UserIdRequired, Inl ClientRequired}"
proof -
  have n: "\<not> truthy None" and e: "\<not> truthy (Some '''')" and u: "truthy (Some ''user_1'')"
    by (simp_all add: truthy_def)
  have a: "SyncService_syncAll None True sample_world = (Inl UserIdRequired, sample_world)"
    using syncAll_setup_errors [of None True sample_world, THEN conjunct1] n by blast
  have b: "SyncService_syncAll (Some '''') True sample_world = (Inl UserIdRequired, sample_world)"
    using syncAll_setup_errors [of "Some ''''" True sample_world, THEN conjunct1] e by blast
  have c: "SyncService_syncAll (Some ''user_1'') False sample_world
      = (Inl ClientRequired, sample_world)"
    using syncAll_setup_errors [of "Some ''user_1''" False sample_world,
        THEN conjunct2, THEN conjunct1] u by blast
  have d: "fst (SyncService_syncAll (Some ''user_1'') True sample_world)
        \<notin> {Inl UserIdRequired, Inl ClientRequired}"
    using syncAll_setup_errors [of "Some ''user_1''" True sample_world,
        THEN conjunct2, THEN conjunct2] u by blast
  show ?thesis using n e u a b c d by (intro conjI) simp_all
qed

end
